(* ===== verification/Prelude.thy ===== *)
theory Prelude
  imports Complex_Main "HOL-Library.Word" "HOL-Library.AList" "HOL-Library.Sublist"
begin

text \<open>
  What every component of the development shares: Go's 64-bit integers and durations, the
  instants of package \<^verbatim>\<open>time\<close>, error values with their \<^verbatim>\<open>errors.Is\<close> chains, the functions of
  package \<^verbatim>\<open>strings\<close> the sources call, and maps with a finite, iterable set of keys.
  Go strings are byte sequences; so is \<^typ>\<open>string\<close>, one \<^typ>\<open>char\<close> per byte.
\<close>

named_theorems clock_simps \<comment> \<open>instants, durations and their comparisons\<close>
named_theorems err_simps \<comment> \<open>what \<^verbatim>\<open>errors.Is\<close> answers on the errors of the sources\<close>

section \<open>64-bit integers and durations\<close>

text \<open>
  \<open>int\<close> and \<^verbatim>\<open>time.Duration\<close> are signed 64-bit integers. They are modelled as \<^typ>\<open>int\<close> with the
  wrap-around of an operation that can overflow written out by \<open>wrap64\<close>.
\<close>

type_synonym duration = int

definition wrap64 :: "int \<Rightarrow> int" where
  "wrap64 x = (x + 9223372036854775808) mod 18446744073709551616 - 9223372036854775808"

definition is_int64 :: "int \<Rightarrow> bool" where
  "is_int64 x \<longleftrightarrow> - 9223372036854775808 \<le> x \<and> x < 9223372036854775808"

lemma wrap64_id [simp]: "is_int64 x \<Longrightarrow> wrap64 x = x"
  by (simp add: is_int64_def wrap64_def)

lemma wrap64_range [simp]: "is_int64 (wrap64 x)"
  unfolding is_int64_def wrap64_def
  using pos_mod_bound [of 18446744073709551616 "x + 9223372036854775808"]
    pos_mod_sign [of 18446744073709551616 "x + 9223372036854775808"]
  by linarith

text \<open>The written-out wrap-around is the one of two's complement words.\<close>

lemma wrap64_word: "wrap64 x = sint (word_of_int x :: 64 word)"
proof -
  have "sint (word_of_int x :: 64 word) = signed_take_bit 63 x"
    by (simp add: sint_sbintrunc')
  then show ?thesis
    by (simp add: wrap64_def signed_take_bit_eq_take_bit_shift take_bit_eq_mod)
qed

definition Second :: duration where "Second = 1000000000"
definition Millisecond :: duration where "Millisecond = 1000000"
definition Minute :: duration where "Minute = 60000000000"
definition Hour :: duration where "Hour = 3600000000000"

lemmas duration_defs = Second_def Millisecond_def Minute_def Hour_def
declare duration_defs [clock_simps]

text \<open>Go's integer division truncates towards zero.\<close>

definition trunc_div :: "int \<Rightarrow> int \<Rightarrow> int" where
  "trunc_div n d = (let q = \<bar>n\<bar> div \<bar>d\<bar> in if (0 \<le> n) = (0 \<le> d) then q else - q)"

section \<open>Instants\<close>

text \<open>
  A \<^verbatim>\<open>time.Time\<close> is a number of nanoseconds since the zero time (1 January of year 1, UTC), so
  that \<open>IsZero\<close> is \<open>= 0\<close>, \<open>Before\<close> is \<open><\<close> and \<open>After\<close> is \<open>>\<close>. The 64-bit seconds counter of the
  representation is not bounded here: it runs over only 292 billion years away.
  \<open>Sub\<close> saturates at the ends of the duration range, as documented.
\<close>

type_synonym instant = int

definition zero_time :: instant where "zero_time = 0"

definition is_zero :: "instant \<Rightarrow> bool" where "is_zero t \<longleftrightarrow> t = zero_time"

definition time_add :: "instant \<Rightarrow> duration \<Rightarrow> instant" where "time_add t d = t + d"

definition time_sub :: "instant \<Rightarrow> instant \<Rightarrow> duration" where
  "time_sub t u = max (- 9223372036854775808) (min 9223372036854775807 (t - u))"

text \<open>\<open>time.Unix(sec, 0)\<close>; the offset is the number of seconds from the zero time to 1970.\<close>

definition time_unix :: "int \<Rightarrow> instant" where
  "time_unix sec = (sec + 62135596800) * 1000000000"

text \<open>\<open>t.Unix()\<close>: whole seconds, rounded down.\<close>

definition unix_of :: "instant \<Rightarrow> int" where
  "unix_of t = t div 1000000000 - 62135596800"

declare zero_time_def [clock_simps] is_zero_def [clock_simps] time_add_def [clock_simps]

lemma unix_of_time_unix [simp]: "unix_of (time_unix s) = s"
  by (simp add: unix_of_def time_unix_def)

lemma time_sub_bounds: "is_int64 (time_sub t u)"
  by (auto simp: is_int64_def time_sub_def)

lemma time_sub_less_iff:
  "0 \<le> d \<Longrightarrow> d < 9223372036854775807 \<Longrightarrow> d < time_sub t u \<longleftrightarrow> d < t - u"
  by (auto simp: time_sub_def)

text \<open>
  Conversion of a \<open>float64\<close> read from JSON, a finite value, to \<open>int64\<close>: truncation when the value
  is in range. Outside the range the language leaves the result to the implementation; amd64 gives
  the smallest \<open>int64\<close>.
\<close>

definition float_to_int64 :: "rat \<Rightarrow> int" where
  "float_to_int64 x =
     (let n = (if 0 \<le> x then \<lfloor>x\<rfloor> else \<lceil>x\<rceil>)
      in if is_int64 n then n else - 9223372036854775808)"

section \<open>Errors\<close>

text \<open>
  An error is a sentinel made by \<^verbatim>\<open>errors.New\<close>, identified by its text, or an error made by
  \<^verbatim>\<open>fmt.Errorf\<close> (or \<^verbatim>\<open>errors.Join\<close>), identified by its format, that wraps the errors passed for its
  \<^verbatim>\<open>%w\<close> verbs. \<open>Foreign\<close> is an error of code outside the sources.
\<close>

datatype go_err = Sentinel string | Wrapped string "go_err list" | Foreign nat

fun errors_is :: "go_err \<Rightarrow> go_err \<Rightarrow> bool" where
  "errors_is (Wrapped m es) target \<longleftrightarrow> Wrapped m es = target \<or> (\<exists>e \<in> set es. errors_is e target)"
| "errors_is e target \<longleftrightarrow> e = target"

declare errors_is.simps [err_simps]

lemma errors_is_refl [simp]: "errors_is e e"
  by (cases e) simp_all

lemma errors_is_wrapped [simp]: "t \<in> set es \<Longrightarrow> errors_is (Wrapped m es) t"
  by (auto intro: bexI [of _ t])

lemma errors_is_trans: "errors_is a b \<Longrightarrow> errors_is b c \<Longrightarrow> errors_is a c"
  by (induction a b rule: errors_is.induct) auto

section \<open>Strings\<close>

text \<open>
  \<open>unicode.IsSpace\<close> on UTF-8: the six ASCII characters and the encodings of U+0085, U+00A0, U+1680,
  U+2000 to U+200A, U+2028, U+2029, U+202F, U+205F and U+3000. None of the encodings starts with a
  continuation byte, so scanning byte by byte finds the same white space as scanning rune by rune,
  on malformed UTF-8 too.
\<close>

definition unicode_spaces :: "string list" where
  "unicode_spaces =
     map (\<lambda>n. [char_of (n :: nat)]) [9, 10, 11, 12, 13, 32] @
     map (map char_of)
       ([[0xC2 :: nat, 0x85], [0xC2, 0xA0], [0xE1, 0x9A, 0x80], [0xE2, 0x80, 0xA8], [0xE2, 0x80, 0xA9],
         [0xE2, 0x80, 0xAF], [0xE2, 0x81, 0x9F], [0xE3, 0x80, 0x80]] @
        map (\<lambda>b. [0xE2, 0x80, b]) [0x80, 0x81, 0x82, 0x83, 0x84, 0x85, 0x86, 0x87, 0x88, 0x89, 0x8A])"

text \<open>The number of bytes of the white space character a string starts with, 0 for none.\<close>

definition space_len :: "string list \<Rightarrow> string \<Rightarrow> nat" where
  "space_len ws s = (case filter (\<lambda>w. prefix w s) ws of [] \<Rightarrow> 0 | w # _ \<Rightarrow> length w)"

lemma space_len_le: "space_len ws s \<le> length s"
proof (cases "filter (\<lambda>w. prefix w s) ws")
  case Nil
  then show ?thesis by (simp add: space_len_def)
next
  case (Cons w ws')
  then have "w \<in> set (filter (\<lambda>w. prefix w s) ws)" by simp
  then have "prefix w s" by simp
  with Cons show ?thesis by (simp add: space_len_def prefix_length_le)
qed

lemma space_len_Nil [simp]: "space_len ws [] = 0"
  using space_len_le [of ws "[]"] by simp

function trim_left :: "string list \<Rightarrow> string \<Rightarrow> string" where
  "trim_left ws s = (if space_len ws s = 0 then s else trim_left ws (drop (space_len ws s) s))"
  by pat_completeness auto
termination
proof (relation "measure (\<lambda>(ws, s). length s)")
  show "wf (measure (\<lambda>(ws, s). length s))" by simp
next
  fix ws :: "string list" and s
  assume "space_len ws s \<noteq> 0"
  moreover from this have "s \<noteq> []" by auto
  ultimately show "((ws, drop (space_len ws s) s), ws, s) \<in> measure (\<lambda>(ws, s). length s)"
    by simp
qed

declare trim_left.simps [simp del]

lemma trim_left_stop: "space_len ws (trim_left ws s) = 0"
proof (induction ws s rule: trim_left.induct)
  case (1 ws s)
  then show ?case by (cases "space_len ws s = 0") (simp_all add: trim_left.simps [of ws s])
qed

lemma trim_left_id: "space_len ws s = 0 \<Longrightarrow> trim_left ws s = s"
  by (simp add: trim_left.simps)

lemma trim_left_idem [simp]: "trim_left ws (trim_left ws s) = trim_left ws s"
  by (rule trim_left_id) (rule trim_left_stop)

lemma trim_left_suffix: "suffix (trim_left ws s) s"
proof (induction ws s rule: trim_left.induct)
  case (1 ws s)
  then show ?case
    by (cases "space_len ws s = 0")
      (auto simp: trim_left.simps [of ws s] intro: suffix_order.trans suffix_drop)
qed

definition trim_space :: "string \<Rightarrow> string" where
  "trim_space s = rev (trim_left (map rev unicode_spaces) (rev (trim_left unicode_spaces s)))"

text \<open>Texts of visible ASCII characters have nothing to trim.\<close>

definition visible_ascii :: "string \<Rightarrow> bool" where
  "visible_ascii s \<longleftrightarrow> list_all (\<lambda>c. 33 \<le> (of_char c :: nat) \<and> (of_char c :: nat) \<le> 126) s"

lemma unicode_spaces_invisible:
  "list_all (\<lambda>w. w \<noteq> [] \<and> list_all (\<lambda>c. \<not> (33 \<le> (of_char c :: nat) \<and> (of_char c :: nat) \<le> 126)) w) unicode_spaces"
  by code_simp

lemma space_len_visible:
  assumes "visible_ascii s" and "\<forall>w \<in> set ws. w \<noteq> [] \<and> (\<forall>c \<in> set w. \<not> (33 \<le> (of_char c :: nat) \<and> (of_char c :: nat) \<le> 126))"
  shows "space_len ws s = 0"
proof -
  have "\<not> prefix w s" if "w \<in> set ws" for w
  proof
    assume "prefix w s"
    with assms(2) that have "hd w \<in> set s" "hd w \<in> set w" by (cases w; auto simp: prefix_def)+
    with assms that show False by (auto simp: visible_ascii_def list_all_iff)
  qed
  then have "filter (\<lambda>w. prefix w s) ws = []" by (simp add: filter_empty_conv)
  then show ?thesis by (simp add: space_len_def)
qed

lemma trim_space_visible: "visible_ascii s \<Longrightarrow> trim_space s = s"
proof -
  assume v: "visible_ascii s"
  then have r: "visible_ascii (rev s)" by (simp add: visible_ascii_def list_all_iff)
  have "space_len unicode_spaces s = 0" "space_len (map rev unicode_spaces) (rev s) = 0"
    using unicode_spaces_invisible by (intro space_len_visible v r; auto simp: list_all_iff)+
  then show "trim_space s = s" by (simp add: trim_space_def trim_left_id)
qed

lemma trim_space_Nil [simp]: "trim_space [] = []"
  by (simp add: trim_space_def trim_left_id)

text \<open>\<open>strings.Split(s, c)\<close> for a one-byte separator, and \<open>strings.Join\<close>.\<close>

fun split_on :: "char \<Rightarrow> string \<Rightarrow> string list" where
  "split_on c [] = [[]]"
| "split_on c (x # xs) =
     (if x = c then [] # split_on c xs
      else (case split_on c xs of p # ps \<Rightarrow> (x # p) # ps | [] \<Rightarrow> [[x]]))"

fun join :: "string \<Rightarrow> string list \<Rightarrow> string" where
  "join sep [] = []"
| "join sep [x] = x"
| "join sep (x # y # ys) = x @ sep @ join sep (y # ys)"

lemma split_on_nonempty [simp]: "split_on c s \<noteq> []"
  by (induction s) (auto split: list.splits)

lemma split_on_no_sep: "p \<in> set (split_on c s) \<Longrightarrow> c \<notin> set p"
  by (induction s arbitrary: p) (auto split: list.splits if_splits)

lemma join_Cons_hd: "join sep ((x # p) # ps) = x # join sep (p # ps)"
  by (cases ps) simp_all

lemma join_split_on: "join [c] (split_on c s) = s"
proof (induction s)
  case Nil
  show ?case by simp
next
  case (Cons x xs)
  obtain p ps where ps: "split_on c xs = p # ps"
    using split_on_nonempty [of c xs] by (cases "split_on c xs") auto
  with Cons show ?case by (auto simp: join_Cons_hd)
qed

lemma split_on_no: "c \<notin> set s \<Longrightarrow> split_on c s = [s]"
  by (induction s) auto

lemma split_on_append: "c \<notin> set p \<Longrightarrow> split_on c (p @ c # r) = p # split_on c r"
  by (induction p) auto

lemma split_on_join: "ps \<noteq> [] \<Longrightarrow> \<forall>p \<in> set ps. c \<notin> set p \<Longrightarrow> split_on c (join [c] ps) = ps"
proof (induction ps)
  case (Cons p ps)
  then show ?case by (cases ps) (simp_all add: split_on_no split_on_append)
qed simp

text \<open>\<open>strings.Fields\<close>: the maximal runs of bytes that are not white space.\<close>

function fields_from :: "string \<Rightarrow> string \<Rightarrow> string list" where
  "fields_from cur [] = (if cur = [] then [] else [cur])"
| "fields_from cur (x # xs) =
     (if space_len unicode_spaces (x # xs) = 0 then fields_from (cur @ [x]) xs
      else (if cur = [] then [] else [cur]) @
        fields_from [] (drop (space_len unicode_spaces (x # xs)) (x # xs)))"
  by pat_completeness auto
termination
  by (relation "measure (\<lambda>(cur, s). length s)") auto

definition strings_fields :: "string \<Rightarrow> string list" where
  "strings_fields s = fields_from [] s"

lemma fields_from_nonempty: "f \<in> set (fields_from cur s) \<Longrightarrow> f \<noteq> []"
  by (induction cur s rule: fields_from.induct) (auto split: if_splits)

text \<open>\<open>strings.Contains\<close> and \<open>strings.Cut\<close> for a one-byte separator.\<close>

definition contains :: "string \<Rightarrow> string \<Rightarrow> bool" where
  "contains s t \<longleftrightarrow> sublist t s"

fun cut :: "char \<Rightarrow> string \<Rightarrow> (string \<times> string) option" where
  "cut c [] = None"
| "cut c (x # xs) =
     (if x = c then Some ([], xs) else map_option (\<lambda>(a, b). (x # a, b)) (cut c xs))"

lemma cut_append [simp]: "c \<notin> set a \<Longrightarrow> cut c (a @ c # b) = Some (a, b)"
  by (induction a) auto

lemma cut_Some: "cut c s = Some (a, b) \<Longrightarrow> s = a @ c # b \<and> c \<notin> set a"
  by (induction s arbitrary: a) (auto split: if_splits)

lemma cut_None: "cut c s = None \<longleftrightarrow> c \<notin> set s"
  by (induction s) (auto split: if_splits)

text \<open>
  \<open>strconv.Atoi\<close>: an optional sign, at least one decimal digit, and a value in the range of
  \<open>int\<close>; everything else is an error, \<open>None\<close>.
\<close>

definition is_digit :: "char \<Rightarrow> bool" where
  "is_digit c \<longleftrightarrow> 48 \<le> (of_char c :: nat) \<and> (of_char c :: nat) \<le> 57"

definition digits_value :: "string \<Rightarrow> int" where
  "digits_value s = fold (\<lambda>c n. 10 * n + (of_char c - 48)) s 0"

definition atoi :: "string \<Rightarrow> int option" where
  "atoi s =
     (let neg = (s \<noteq> [] \<and> hd s = CHR ''-'');
          ds = (if s \<noteq> [] \<and> (hd s = CHR ''-'' \<or> hd s = CHR ''+'') then tl s else s);
          n = (if neg then - digits_value ds else digits_value ds)
      in if ds \<noteq> [] \<and> list_all is_digit ds \<and> is_int64 n then Some n else None)"

lemma atoi_int64: "atoi s = Some n \<Longrightarrow> is_int64 n"
  by (auto simp: atoi_def Let_def split: if_splits)

text \<open>\<open>strconv.FormatInt\<close> in base 10, for a number that is not negative.\<close>

fun format_nat :: "nat \<Rightarrow> string" where
  "format_nat n = (if n < 10 then [char_of (48 + n)] else format_nat (n div 10) @ [char_of (48 + n mod 10)])"

declare format_nat.simps [simp del]

text \<open>\<open>errors.Join\<close> wraps its arguments, one per line.\<close>

definition errors_Join :: "go_err list \<Rightarrow> go_err" where
  "errors_Join es = Wrapped (join [CHR 0x0A] (map (\<lambda>_. ''%w'') es)) es"

lemma errors_is_Join [simp]: "t \<in> set es \<Longrightarrow> errors_is (errors_Join es) t"
  unfolding errors_Join_def by (rule errors_is_wrapped)

section \<open>Paths\<close>

text \<open>\<open>filepath.Ext\<close>\<close>

definition filepath_Ext :: "string \<Rightarrow> string" where
  "filepath_Ext p =
     (let last_part = rev (takeWhile (\<lambda>c. c \<noteq> CHR ''/'') (rev p))
      in if CHR ''.'' \<in> set last_part
         then ''.'' @ rev (takeWhile (\<lambda>c. c \<noteq> CHR ''.'') (rev last_part)) else [])"

text \<open>\<open>filepath.Clean\<close>, \<open>filepath.IsAbs\<close> and \<open>filepath.Join\<close> of two parts that are not empty, for slash-separated paths.\<close>

definition clean_part :: "bool \<Rightarrow> string \<Rightarrow> string list \<Rightarrow> string list" where
  "clean_part rooted part st =
     (if part = [] \<or> part = ''.'' then st
      else if part = ''..'' then
        (case st of
           [] \<Rightarrow> if rooted then [] else [''..'']
         | x # xs \<Rightarrow> if x = ''..'' then ''..'' # st else xs)
      else part # st)"

definition is_abs :: "string \<Rightarrow> bool" where "is_abs p \<longleftrightarrow> p \<noteq> [] \<and> hd p = CHR ''/''"

definition filepath_Clean :: "string \<Rightarrow> string" where
  "filepath_Clean p =
     (let rooted = is_abs p;
          body = join ''/'' (rev (fold (clean_part rooted) (split_on (CHR ''/'') p) []))
      in if rooted then ''/'' @ body else if body = [] then ''.'' else body)"

definition filepath_Join :: "string \<Rightarrow> string \<Rightarrow> string" where
  "filepath_Join a b = filepath_Clean (a @ ''/'' @ b)"

section \<open>Maps\<close>

text \<open>
  A Go map that the code iterates over or counts is an association list with distinct keys,
  \<open>wf_map\<close>; \<open>map_of\<close> is its lookup, \<open>AList.update\<close> and \<open>AList.delete\<close> its writes, and a deletion
  during a \<open>range\<close> loop a filter.
\<close>

type_synonym ('k, 'v) gomap = "('k \<times> 'v) list"

definition wf_map :: "('k, 'v) gomap \<Rightarrow> bool" where
  "wf_map m \<longleftrightarrow> distinct (map fst m)"

lemma wf_map_Nil [simp]: "wf_map []"
  by (simp add: wf_map_def)

lemma wf_map_update [simp]: "wf_map m \<Longrightarrow> wf_map (AList.update k v m)"
  unfolding wf_map_def by (rule distinct_update)

lemma wf_map_delete [simp]: "wf_map m \<Longrightarrow> wf_map (AList.delete k m)"
  unfolding wf_map_def by (rule distinct_delete)

lemma wf_map_filter [simp]: "wf_map m \<Longrightarrow> wf_map (filter P m)"
  unfolding wf_map_def by (rule distinct_map_filter)

lemma map_of_delete [simp]: "map_of (AList.delete k m) = (map_of m)(k := None)"
  by (simp add: delete_conv')

lemma map_of_filter_value:
  "wf_map m \<Longrightarrow> map_of (filter (\<lambda>(k, v). P v) m) k =
     (case map_of m k of None \<Rightarrow> None | Some v \<Rightarrow> if P v then Some v else None)"
proof (induction m)
  case Nil
  show ?case by simp
next
  case (Cons kv m)
  then have "map_of m (fst kv) = None"
    by (auto simp: wf_map_def map_of_eq_None_iff)
  with Cons show ?case
    by (auto simp: wf_map_def split: option.splits)
qed

lemma map_of_update [simp]: "map_of (AList.update k v m) = (map_of m)(k \<mapsto> v)"
  by (simp add: update_conv')

section \<open>Outcomes\<close>

text \<open>
  An operation that returns, that panics (an index out of range, a send on a closed channel, a channel
  closed twice) or that blocks on a channel.
\<close>

datatype 'a outcome = Returns 'a | Panics | Blocks

primrec and_then :: "'a outcome \<Rightarrow> ('a \<Rightarrow> 'b outcome) \<Rightarrow> 'b outcome" where
  "and_then (Returns x) f = f x"
| "and_then Panics f = Panics"
| "and_then Blocks f = Blocks"

lemma and_then_Returns_iff [simp]: "and_then m f = Returns y \<longleftrightarrow> (\<exists>x. m = Returns x \<and> f x = Returns y)"
  by (cases m) simp_all

end
