(* ===== verification/Retry.thy ===== *)
theory Retry
  imports Prelude
begin

text \<open>
  Package \<^verbatim>\<open>retry\<close> (\<^verbatim>\<open>src/retry/retry.go\<close>): the exponential back-off and the retry loop. The
  caller's closures \<open>fn\<close> and \<open>shouldRetry\<close> and the \<open>select\<close> between the context and the timer act on
  a state of type \<open>'s\<close> that is threaded through the loop; \<open>wait d s\<close> is \<open>Some e\<close> when the context
  is done first, with \<open>e\<close> its error, and \<open>None\<close> when the timer of \<open>d\<close> fires first.
\<close>

section \<open>Definitions\<close>

function backoff_loop :: "int \<Rightarrow> int \<Rightarrow> duration \<Rightarrow> duration \<Rightarrow> duration" where
  "backoff_loop i attempt d mx =
     (if i < attempt
      then (let d' = wrap64 (d * 2) in if mx < d' then mx else backoff_loop (i + 1) attempt d' mx)
      else d)"
  by pat_completeness auto
termination
  by (relation "measure (\<lambda>(i, attempt, d, mx). nat (attempt - i))") auto

declare backoff_loop.simps [simp del]

definition backoff :: "int \<Rightarrow> duration \<Rightarrow> duration \<Rightarrow> duration" where
  "backoff attempt mn mx = backoff_loop 1 attempt mn mx"

type_synonym 's should_retry = "int \<Rightarrow> go_err \<Rightarrow> 's \<Rightarrow> bool \<times> 's"
type_synonym 's attempt_fn = "'s \<Rightarrow> go_err option \<times> 's"
type_synonym 's wait_fn = "duration \<Rightarrow> 's \<Rightarrow> go_err option \<times> 's"

function do_loop ::
  "int \<Rightarrow> int \<Rightarrow> duration \<Rightarrow> duration \<Rightarrow> 's should_retry \<Rightarrow> 's attempt_fn \<Rightarrow> 's wait_fn \<Rightarrow>
   go_err option \<Rightarrow> 's \<Rightarrow> go_err option \<times> 's"
where
  "do_loop attempt maxAttempts waitMin waitMax shouldRetry fn wait err s =
     (if attempt \<le> maxAttempts then
        (case fn s of
           (None, s1) \<Rightarrow> (None, s1)
         | (Some e, s1) \<Rightarrow>
             if attempt = maxAttempts then (Some e, s1)
             else (case shouldRetry attempt e s1 of
                 (False, s2) \<Rightarrow> (Some e, s2)
               | (True, s2) \<Rightarrow>
                   (case wait (backoff attempt waitMin waitMax) s2 of
                      (Some cerr, s3) \<Rightarrow> (Some cerr, s3)
                    | (None, s3) \<Rightarrow>
                        do_loop (attempt + 1) maxAttempts waitMin waitMax shouldRetry fn wait
                          (Some e) s3)))
      else (err, s))"
  by pat_completeness auto
termination
  by (relation "measure (\<lambda>(attempt, maxAttempts, _). nat (maxAttempts - attempt + 1))") auto

declare do_loop.simps [simp del]

definition retry_do ::
  "int \<Rightarrow> duration \<Rightarrow> duration \<Rightarrow> 's should_retry \<Rightarrow> 's attempt_fn \<Rightarrow> 's wait_fn \<Rightarrow> 's \<Rightarrow>
   go_err option \<times> 's"
where
  "retry_do maxAttempts waitMin waitMax shouldRetry fn wait s =
     do_loop 1 maxAttempts waitMin waitMax shouldRetry fn wait None s"

section \<open>The back-off\<close>

lemma backoff_loop_doubles:
  assumes "0 \<le> d" and "d \<le> mx" and "mx < 4611686018427387904"
  shows "backoff_loop i attempt d mx = min (d * 2 ^ nat (attempt - i)) mx"
  using assms
proof (induction i attempt d mx rule: backoff_loop.induct)
  case (1 i attempt d mx)
  show ?case
  proof (cases "i < attempt")
    case False
    with "1.prems" show ?thesis by (simp add: backoff_loop.simps [of i])
  next
    case True
    have w: "wrap64 (d * 2) = d * 2"
      using "1.prems" by (simp add: is_int64_def)
    have p: "d * 2 ^ nat (attempt - i) = (d * 2) * 2 ^ nat (attempt - (i + 1))"
      using True by (simp flip: power_Suc add: nat_diff_distrib' Suc_nat_eq_nat_zadd1)
    show ?thesis
    proof (cases "mx < d * 2")
      case big: True
      have "d * 2 * 1 \<le> d * 2 * 2 ^ nat (attempt - (i + 1))"
        using "1.prems"(1) by (intro mult_left_mono) auto
      with big True show ?thesis by (simp add: backoff_loop.simps [of i] w p)
    next
      case False
      with "1.IH" True w "1.prems" have
        "backoff_loop (i + 1) attempt (d * 2) mx = min (d * 2 * 2 ^ nat (attempt - (i + 1))) mx"
        by simp
      with False True show ?thesis by (simp add: backoff_loop.simps [of i] w p)
    qed
  qed
qed

lemma backoff_bounds:
  assumes "0 \<le> mn" and "mn \<le> mx" and "mx < 4611686018427387904"
  shows "0 \<le> backoff a mn mx" and "backoff a mn mx \<le> mx"
  using assms by (simp_all add: backoff_def backoff_loop_doubles)

section \<open>A rule for the loop\<close>

text \<open>
  Partial and total correctness coincide, the loop being a total function: with \<open>P a\<close> kept at the
  start of attempt \<open>a\<close> and \<open>Q\<close> established by each of the four ways out, \<open>Q\<close> holds of the result.
\<close>

lemma do_loop_rule:
  assumes "P a s" and "a \<le> m"
    and success: "\<And>a s s1. P a s \<Longrightarrow> a \<le> m \<Longrightarrow> fn s = (None, s1) \<Longrightarrow> Q None s1"
    and exhausted: "\<And>s e s1. P m s \<Longrightarrow> fn s = (Some e, s1) \<Longrightarrow> Q (Some e) s1"
    and refused: "\<And>a s e s1 s2. P a s \<Longrightarrow> a < m \<Longrightarrow> fn s = (Some e, s1) \<Longrightarrow> f a e s1 = (False, s2) \<Longrightarrow>
      Q (Some e) s2"
    and cancelled: "\<And>a s e s1 s2 ce s3. P a s \<Longrightarrow> a < m \<Longrightarrow> fn s = (Some e, s1) \<Longrightarrow>
      f a e s1 = (True, s2) \<Longrightarrow> w (backoff a mn mx) s2 = (Some ce, s3) \<Longrightarrow> Q (Some ce) s3"
    and again: "\<And>a s e s1 s2 s3. P a s \<Longrightarrow> a < m \<Longrightarrow> fn s = (Some e, s1) \<Longrightarrow>
      f a e s1 = (True, s2) \<Longrightarrow> w (backoff a mn mx) s2 = (None, s3) \<Longrightarrow> P (a + 1) s3"
  shows "case do_loop a m mn mx f fn w err s of (r, s') \<Rightarrow> Q r s'"
  using assms(1,2)
proof (induction "nat (m - a)" arbitrary: a err s)
  case 0
  then have "a = m" by simp
  with "0.prems" show ?case
    by (cases "fn s"; cases "fst (fn s)") (auto simp: do_loop.simps [of m] intro: success exhausted)
next
  case (Suc n)
  then have lt: "a < m" by simp
  obtain r1 s1 where fn: "fn s = (r1, s1)" by fastforce
  show ?case
  proof (cases r1)
    case None
    with Suc.prems fn show ?thesis by (simp add: do_loop.simps [of a] success)
  next
    case (Some e)
    obtain b s2 where f: "f a e s1 = (b, s2)" by fastforce
    obtain c s3 where w: "w (backoff a mn mx) s2 = (c, s3)" by fastforce
    have "case do_loop (a + 1) m mn mx f fn w (Some e) s3 of (r, s') \<Rightarrow> Q r s'" if "b" "c = None"
      using Suc.hyps lt again [OF Suc.prems(1) lt] fn f w Some that by simp
    with Suc.prems fn f w Some lt show ?thesis
      by (cases b; cases c) (auto simp: do_loop.simps [of a] intro: refused cancelled)
  qed
qed

section \<open>What one run of the loop does\<close>

text \<open>
  The observable events of a run, and the closures that record them: \<open>traced\<close> versions of the three
  closures append to a list kept beside their own state.
\<close>

datatype event = Called "go_err option" | Asked int go_err bool | Waited duration "go_err option"

definition traced_fn :: "'s attempt_fn \<Rightarrow> ('s \<times> event list) attempt_fn" where
  "traced_fn fn = (\<lambda>(s, tr). case fn s of (r, s') \<Rightarrow> (r, (s', tr @ [Called r])))"

definition traced_should :: "'s should_retry \<Rightarrow> ('s \<times> event list) should_retry" where
  "traced_should f = (\<lambda>a e (s, tr). case f a e s of (b, s') \<Rightarrow> (b, (s', tr @ [Asked a e b])))"

definition traced_wait :: "'s wait_fn \<Rightarrow> ('s \<times> event list) wait_fn" where
  "traced_wait f = (\<lambda>d (s, tr). case f d s of (r, s') \<Rightarrow> (r, (s', tr @ [Waited d r])))"

definition retry_trace ::
  "int \<Rightarrow> duration \<Rightarrow> duration \<Rightarrow> 's should_retry \<Rightarrow> 's attempt_fn \<Rightarrow> 's wait_fn \<Rightarrow> 's \<Rightarrow> event list"
where
  "retry_trace m mn mx shouldRetry fn wait s =
     snd (snd (retry_do m mn mx (traced_should shouldRetry) (traced_fn fn) (traced_wait wait) (s, [])))"

text \<open>
  The schedules the documentation promises, as a relation between the number of the next attempt,
  the events and the returned error.
\<close>

inductive schedule :: "int \<Rightarrow> duration \<Rightarrow> duration \<Rightarrow> int \<Rightarrow> event list \<Rightarrow> go_err option \<Rightarrow> bool"
  for m mn mx where
  success: "a \<le> m \<Longrightarrow> schedule m mn mx a [Called None] None"
| exhausted: "schedule m mn mx m [Called (Some e)] (Some e)"
| refused: "a < m \<Longrightarrow> schedule m mn mx a [Called (Some e), Asked a e False] (Some e)"
| cancelled: "a < m \<Longrightarrow>
    schedule m mn mx a [Called (Some e), Asked a e True, Waited (backoff a mn mx) (Some ce)] (Some ce)"
| again: "a < m \<Longrightarrow> schedule m mn mx (a + 1) tr r \<Longrightarrow>
    schedule m mn mx a (Called (Some e) # Asked a e True # Waited (backoff a mn mx) None # tr) r"

lemma traced_apply:
  "traced_fn fn (s, tr) = (case fn s of (r, s') \<Rightarrow> (r, (s', tr @ [Called r])))"
  "traced_should f a e (s, tr) = (case f a e s of (b, s') \<Rightarrow> (b, (s', tr @ [Asked a e b])))"
  "traced_wait w d (s, tr) = (case w d s of (c, s') \<Rightarrow> (c, (s', tr @ [Waited d c])))"
  by (simp_all add: traced_fn_def traced_should_def traced_wait_def)

lemma do_loop_schedule:
  assumes "a \<le> m"
    and "do_loop a m mn mx (traced_should f) (traced_fn fn) (traced_wait w) err (s, tr0) = (r, (s', tr1))"
  shows "\<exists>tr. tr1 = tr0 @ tr \<and> schedule m mn mx a tr r"
  using assms
proof (induction "nat (m - a)" arbitrary: a err s tr0)
  case 0
  then have "a = m" by simp
  with 0 show ?case
    by (auto simp: do_loop.simps [of m] traced_apply intro: schedule.intros split: prod.splits option.splits)
next
  case (Suc n)
  then have lt: "a < m" by simp
  obtain r1 s1 where fn: "fn s = (r1, s1)" by fastforce
  show ?case
  proof (cases r1)
    case None
    with Suc.prems fn lt show ?thesis
      by (auto simp: do_loop.simps [of a] traced_apply intro!: schedule.success)
  next
    case (Some e)
    obtain b s2 where f: "f a e s1 = (b, s2)" by fastforce
    obtain c s3 where w: "w (backoff a mn mx) s2 = (c, s3)" by fastforce
    show ?thesis
    proof (cases "b \<and> c = None")
      case False
      with Suc.prems fn f w Some lt show ?thesis
        by (cases b; cases c)
          (auto simp: do_loop.simps [of a] traced_apply intro: schedule.refused schedule.cancelled)
    next
      case True
      let ?ev = "[Called (Some e), Asked a e True, Waited (backoff a mn mx) None]"
      from True Suc.prems(2) fn f w Some lt have
        "do_loop (a + 1) m mn mx (traced_should f) (traced_fn fn) (traced_wait w) (Some e) (s3, tr0 @ ?ev)
           = (r, (s', tr1))"
        by (simp add: do_loop.simps [of a] traced_apply)
      moreover have "n = nat (m - (a + 1))" and "a + 1 \<le> m" using Suc.hyps(2) lt by simp_all
      ultimately obtain tr where "tr1 = (tr0 @ ?ev) @ tr" and "schedule m mn mx (a + 1) tr r"
        using Suc.hyps(1) by blast
      with lt show ?thesis by (auto intro: schedule.again)
    qed
  qed
qed

text \<open>Recording the events does not change what the loop does.\<close>

lemma do_loop_traced:
  "apsnd fst (do_loop a m mn mx (traced_should f) (traced_fn fn) (traced_wait w) err (s, tr)) =
   do_loop a m mn mx f fn w err s"
proof (induction a m mn mx f fn w err s arbitrary: tr rule: do_loop.induct)
  case (1 a m mn mx f fn w err s)
  obtain r1 s1 where fn: "fn s = (r1, s1)" by fastforce
  show ?case
  proof (cases "\<exists>e b s2 c s3. a < m \<and> r1 = Some e \<and> f a e s1 = (True, s2) \<and> w (backoff a mn mx) s2 = (None, s3)")
    case True
    then obtain e s2 s3 where lt: "a < m" and r1: "r1 = Some e" and f: "f a e s1 = (True, s2)"
      and w: "w (backoff a mn mx) s2 = (None, s3)" by blast
    let ?tr = "tr @ [Called (Some e), Asked a e True, Waited (backoff a mn mx) None]"
    have "apsnd fst (do_loop (a + 1) m mn mx (traced_should f) (traced_fn fn) (traced_wait w)
        (Some e) (s3, ?tr)) = do_loop (a + 1) m mn mx f fn w (Some e) s3"
      using lt r1 f w fn by (intro "1") auto
    then show ?thesis
      using lt r1 f w fn
      by (simp add: do_loop.simps [of a m mn mx f] do_loop.simps [of a m mn mx "traced_should f"] traced_apply)
  next
    case False
    then show ?thesis
      using fn
      by (auto simp: do_loop.simps [of a m mn mx f] do_loop.simps [of a m mn mx "traced_should f"]
          traced_apply split: option.splits prod.splits bool.splits)
  qed
qed

lemma retry_do_schedule:
  assumes "1 \<le> m"
  shows "schedule m mn mx 1 (retry_trace m mn mx f fn w s) (fst (retry_do m mn mx f fn w s))"
proof -
  obtain r s' tr where run:
    "do_loop 1 m mn mx (traced_should f) (traced_fn fn) (traced_wait w) None (s, []) = (r, (s', tr))"
    by (metis surj_pair)
  with do_loop_schedule [OF assms run] have "schedule m mn mx 1 tr r" by simp
  moreover have "fst (retry_do m mn mx f fn w s) = r"
    using do_loop_traced [of 1 m mn mx f fn w None s "[]"] run by (simp add: retry_do_def)
      (metis fst_conv)
  ultimately show ?thesis using run by (simp add: retry_trace_def retry_do_def)
qed

section \<open>Facts about schedules\<close>

definition calls :: "event list \<Rightarrow> nat" where
  "calls tr = length (filter (\<lambda>e. case e of Called _ \<Rightarrow> True | _ \<Rightarrow> False) tr)"

definition waited :: "event list \<Rightarrow> duration" where
  "waited tr = sum_list (map (\<lambda>e. case e of Waited d _ \<Rightarrow> d | _ \<Rightarrow> 0) tr)"

lemma schedule_calls:
  "schedule m mn mx a tr r \<Longrightarrow> a \<le> m \<and> 1 \<le> calls tr \<and> int (calls tr) \<le> m - a + 1"
  by (induction rule: schedule.induct) (auto simp: calls_def)

lemma schedule_waited:
  assumes "schedule m mn mx a tr r" and "0 \<le> mn" and "mn \<le> mx" and "mx < 4611686018427387904"
  shows "a \<le> m \<and> waited tr \<le> (m - a) * mx"
  using assms(1)
proof (induction rule: schedule.induct)
  case (again a tr r e)
  have "waited tr \<le> (m - (a + 1)) * mx" and "backoff a mn mx \<le> mx"
    using again backoff_bounds [OF assms(2-4)] by auto
  with again show ?case by (simp add: waited_def algebra_simps)
next
  case (cancelled a e ce)
  have "backoff a mn mx \<le> mx" using backoff_bounds [OF assms(2-4)] by simp
  also have "mx \<le> (m - a) * mx"
    using cancelled assms(2,3) mult_right_mono [of 1 "m - a" mx] by simp
  finally show ?case using cancelled by (simp add: waited_def)
qed (use assms in \<open>auto simp: waited_def\<close>)

lemma schedule_result:
  "schedule m mn mx a tr r \<Longrightarrow> tr \<noteq> [] \<and>
     r = (case last tr of Called r' \<Rightarrow> r' | Asked _ e _ \<Rightarrow> Some e | Waited _ ce \<Rightarrow> ce) \<and>
     (\<forall>ev \<in> set (butlast tr). ev \<noteq> Called None)"
  by (induction rule: schedule.induct) auto

section \<open>Properties\<close>

text \<open>
  For every attempt, with bounds in the order the callers give them and below the overflow
  limit, the back-off is the exponential delay min * 2^(attempt - 1) cut at max.
\<close>

lemma backoff_capped_exponential:
  assumes "0 \<le> mn" and "mn \<le> mx" and "mx < 4611686018427387904"
  shows "backoff attempt mn mx = min (mn * 2 ^ nat (attempt - 1)) mx"
  using assms by (simp add: backoff_def backoff_loop_doubles)

theorem backoff_capped_exponential_witness:
  "backoff 4 (200 * Millisecond) (5 * Second) = 1600 * Millisecond \<and>
   backoff 9 (200 * Millisecond) (5 * Second) = 5 * Second"
  using backoff_capped_exponential [of "200 * Millisecond" "5 * Second" 4]
    backoff_capped_exponential [of "200 * Millisecond" "5 * Second" 9]
  by (simp add: clock_simps)

text \<open>
  The cap does not hold on the first attempt when the bounds are given in the wrong order: the
  delay is at most max exactly when min is at most max or a doubling has been done.
\<close>

lemma backoff_cap_iff:
  assumes "0 \<le> mx" and "mx < 4611686018427387904" and "0 \<le> mn" and "mn < 4611686018427387904"
    and "1 \<le> attempt"
  shows "backoff attempt mn mx \<le> mx \<longleftrightarrow> mn \<le> mx \<or> 2 \<le> attempt"
proof (cases "mn \<le> mx")
  case True
  with assms show ?thesis using backoff_bounds by simp
next
  case False
  have w: "wrap64 (mn * 2) = mn * 2" using assms by (simp add: is_int64_def)
  show ?thesis
  proof (cases "attempt = 1")
    case True
    with False show ?thesis by (simp add: backoff_def backoff_loop.simps)
  next
    case first: False
    with False assms show ?thesis by (simp add: backoff_def backoff_loop.simps [of 1] w)
  qed
qed

text \<open>
  C26: whatever the closures do, a run with at least one attempt calls fn at least once and at most
  maxAttempts times, and waits at most (maxAttempts - 1) * waitMax in total, so it always returns.
\<close>

theorem retry_do_bounded:
  assumes "1 \<le> maxAttempts" and "0 \<le> waitMin" and "waitMin \<le> waitMax" and "waitMax < 4611686018427387904"
  shows "let tr = retry_trace maxAttempts waitMin waitMax f fn w s in
    1 \<le> calls tr \<and> int (calls tr) \<le> maxAttempts \<and> waited tr \<le> (maxAttempts - 1) * waitMax"
proof -
  let ?r = "fst (retry_do maxAttempts waitMin waitMax f fn w s)"
  have sch: "schedule maxAttempts waitMin waitMax 1 (retry_trace maxAttempts waitMin waitMax f fn w s) ?r"
    using assms(1) by (rule retry_do_schedule)
  show ?thesis
    using schedule_calls [OF sch] schedule_waited [OF sch assms(2-4)] by (simp add: Let_def)
qed

text \<open>The closures of the witnesses: \<open>fn\<close> fails until its counter runs out, and nothing is cancelled.\<close>

definition failing_until_zero :: "nat attempt_fn" where
  "failing_until_zero n = (case n of 0 \<Rightarrow> (None, 0) | Suc k \<Rightarrow> (Some (Foreign 1), k))"

definition always_retry :: "'s should_retry" where
  "always_retry = (\<lambda>_ _ s. (True, s))"

definition never_cancelled :: "'s wait_fn" where
  "never_cancelled = (\<lambda>_ s. (None, s))"

theorem retry_do_bounded_witness:
  "int (calls (retry_trace 3 (Second) (4 * Second) always_retry failing_until_zero never_cancelled 5)) \<le> 3 \<and>
   waited (retry_trace 3 (Second) (4 * Second) always_retry failing_until_zero never_cancelled 5) \<le> 8 * Second"
  using retry_do_bounded [of 3 Second "4 * Second" always_retry failing_until_zero never_cancelled 5]
  by (simp add: clock_simps Let_def)

text \<open>
  The error retry.Do returns is decided by its last event: nil exactly when that is a call
  that succeeded, the context's error when it was cancelled while waiting, and otherwise the error
  of the last call; no call follows a successful one.
\<close>

lemma retry_do_result:
  assumes "1 \<le> maxAttempts"
  shows "let tr = retry_trace maxAttempts waitMin waitMax f fn w s in
    tr \<noteq> [] \<and> (\<forall>ev \<in> set (butlast tr). ev \<noteq> Called None) \<and>
    fst (retry_do maxAttempts waitMin waitMax f fn w s) =
      (case last tr of Called r \<Rightarrow> r | Asked _ e _ \<Rightarrow> Some e | Waited _ ce \<Rightarrow> ce)"
proof -
  have "schedule maxAttempts waitMin waitMax 1 (retry_trace maxAttempts waitMin waitMax f fn w s)
      (fst (retry_do maxAttempts waitMin waitMax f fn w s))"
    using assms by (rule retry_do_schedule)
  from schedule_result [OF this] show ?thesis by (simp add: Let_def)
qed

theorem retry_do_result_witness:
  "retry_trace 3 Second (4 * Second) always_retry failing_until_zero never_cancelled 1 =
     [Called (Some (Foreign 1)), Asked 1 (Foreign 1) True, Waited Second None, Called None] \<and>
   fst (retry_do 3 Second (4 * Second) always_retry failing_until_zero never_cancelled 1) = None"
proof -
  have tr: "retry_trace 3 Second (4 * Second) always_retry failing_until_zero never_cancelled 1 =
     [Called (Some (Foreign 1)), Asked 1 (Foreign 1) True, Waited Second None, Called None]"
    by (simp add: retry_trace_def retry_do_def do_loop.simps traced_apply failing_until_zero_def
        always_retry_def never_cancelled_def backoff_def backoff_loop.simps clock_simps)
  show ?thesis
    using retry_do_result [of 3 Second "4 * Second" always_retry failing_until_zero never_cancelled 1]
    unfolding tr by simp
qed

end
