(* ===== verification/Encoding.thy ===== *)
theory Encoding
  imports Prelude "HOL-Library.List_Lexorder" "HOL-Library.Char_ord"
begin

text \<open>
  The encodings of the standard library the sources use: \<^verbatim>\<open>url.QueryEscape\<close>, \<^verbatim>\<open>url.Values.Encode\<close> and
  \<^verbatim>\<open>base64.RawURLEncoding\<close>, with their inverses.
\<close>

section \<open>Query strings\<close>

definition is_alnum :: "char \<Rightarrow> bool" where
  "is_alnum c \<longleftrightarrow> (let n = (of_char c :: nat) in
     (48 \<le> n \<and> n \<le> 57) \<or> (65 \<le> n \<and> n \<le> 90) \<or> (97 \<le> n \<and> n \<le> 122))"

definition upper_hex :: "nat \<Rightarrow> char" where
  "upper_hex n = ''0123456789ABCDEF'' ! (n mod 16)"

definition escape_byte :: "char \<Rightarrow> string" where
  "escape_byte c =
     (if is_alnum c \<or> c \<in> set ''-_.~'' then [c]
      else if c = CHR '' '' then ''+''
      else [CHR ''%'', upper_hex (of_char c div 16), upper_hex (of_char c)])"

definition QueryEscape :: "string \<Rightarrow> string" where
  "QueryEscape s = concat (map escape_byte s)"

text \<open>\<^verbatim>\<open>url.Values\<close> maps a key to its values; \<open>Encode\<close> sorts by key.\<close>

type_synonym url_values = "(string, string list) gomap"

definition sorted_pairs :: "url_values \<Rightarrow> (string \<times> string) list" where
  "sorted_pairs m = concat (map (\<lambda>k. map (Pair k) (case map_of m k of Some vs \<Rightarrow> vs | None \<Rightarrow> [])) (sort (map fst m)))"

definition values_encode :: "url_values \<Rightarrow> string" where
  "values_encode m = join ''&'' (map (\<lambda>(k, v). QueryEscape k @ ''='' @ QueryEscape v) (sorted_pairs m))"

section \<open>Base64\<close>

definition b64_alphabet :: string where
  "b64_alphabet = ''ABCDEFGHIJKLMNOPQRSTUVWXYZabcdefghijklmnopqrstuvwxyz0123456789-_''"

definition b64_char :: "nat \<Rightarrow> char" where "b64_char n = b64_alphabet ! n"

fun index_of :: "char \<Rightarrow> string \<Rightarrow> nat option" where
  "index_of c [] = None"
| "index_of c (x # xs) = (if x = c then Some 0 else map_option Suc (index_of c xs))"

definition b64_val :: "char \<Rightarrow> nat option" where "b64_val c = index_of c b64_alphabet"

fun b64_digits :: "nat list \<Rightarrow> nat list" where
  "b64_digits (a # b # c # r) =
     [a div 4, (a mod 4) * 16 + b div 16, (b mod 16) * 4 + c div 64, c mod 64] @ b64_digits r"
| "b64_digits [a, b] = [a div 4, (a mod 4) * 16 + b div 16, (b mod 16) * 4]"
| "b64_digits [a] = [a div 4, (a mod 4) * 16]"
| "b64_digits [] = []"

definition b64_encode :: "string \<Rightarrow> string" where
  "b64_encode s = map b64_char (b64_digits (map of_char s))"

text \<open>Line breaks in the input are skipped; a single left-over digit is an error, left-over bits are not.\<close>

fun b64_bytes :: "nat list \<Rightarrow> nat list option" where
  "b64_bytes (p # q # r # t # ds) =
     map_option ((@) [p * 4 + q div 16, (q mod 16) * 16 + r div 4, (r mod 4) * 64 + t]) (b64_bytes ds)"
| "b64_bytes [p, q, r] = Some [p * 4 + q div 16, (q mod 16) * 16 + r div 4]"
| "b64_bytes [p, q] = Some [p * 4 + q div 16]"
| "b64_bytes [p] = None"
| "b64_bytes [] = Some []"

definition b64_decode :: "string \<Rightarrow> string option" where
  "b64_decode s =
     (case those (map b64_val (filter (\<lambda>c. c \<noteq> CHR 0x0A \<and> c \<noteq> CHR 0x0D) s)) of
        None \<Rightarrow> None
      | Some ds \<Rightarrow> map_option (map char_of) (b64_bytes ds))"

lemma b64_val_char: "n < 64 \<Longrightarrow> b64_val (b64_char n) = Some n"
proof -
  have "list_all (\<lambda>n. b64_val (b64_char n) = Some n) [0..<64]" by code_simp
  then show "n < 64 \<Longrightarrow> b64_val (b64_char n) = Some n" by (simp add: list_all_iff)
qed

lemma b64_alphabet_safe: "n < 64 \<Longrightarrow> b64_char n \<noteq> CHR ''.'' \<and> b64_char n \<noteq> CHR 0x0A \<and> b64_char n \<noteq> CHR 0x0D"
proof -
  have "list_all (\<lambda>n. b64_char n \<noteq> CHR ''.'' \<and> b64_char n \<noteq> CHR 0x0A \<and> b64_char n \<noteq> CHR 0x0D) [0..<64]" by code_simp
  then show "n < 64 \<Longrightarrow> b64_char n \<noteq> CHR ''.'' \<and> b64_char n \<noteq> CHR 0x0A \<and> b64_char n \<noteq> CHR 0x0D"
    by (simp add: list_all_iff)
qed

lemma quarter_bound: "a < 256 \<Longrightarrow> a div 4 < 64" for a :: nat by simp

lemma mix_bounds: "(a mod 4) * 16 + b div 16 < 64" if "b < 256" for a b :: nat
  using that mod_less_divisor [of 4 a] by linarith

lemma mix_bounds': "(b mod 16) * 4 + c div 64 < 64" if "c < 256" for b c :: nat
  using that mod_less_divisor [of 16 b] by linarith

lemma b64_digits_bound: "list_all (\<lambda>n. n < 256) bs \<Longrightarrow> d \<in> set (b64_digits bs) \<Longrightarrow> d < 64"
proof (induction bs rule: b64_digits.induct)
  case (1 a b c r)
  then show ?case using mix_bounds [of b a] mix_bounds' [of c b] by auto
next
  case (2 a b)
  then show ?case using mix_bounds [of b a] mix_bounds' [of 0 b] by auto
next
  case (3 a)
  then show ?case using mix_bounds [of 0 a] by auto
qed simp

lemma b64_bytes_digits: "list_all (\<lambda>n. n < 256) bs \<Longrightarrow> b64_bytes (b64_digits bs) = Some bs"
proof (induction bs rule: b64_digits.induct)
  case (1 a b c r)
  then have "b div 16 < 16" "c div 64 < 4" by auto
  with 1 show ?case by simp
next
  case (2 a b)
  then have "b div 16 < 16" by auto
  then show ?case by simp
qed simp_all

lemma those_b64: "list_all (\<lambda>d. d < 64) ds \<Longrightarrow> those (map (b64_val \<circ> b64_char) ds) = Some ds"
  by (induction ds) (auto simp: b64_val_char)

lemma bytes_bound: "list_all (\<lambda>n. n < 256) (map of_char s :: nat list)"
  by (simp add: list_all_iff)

lemma b64_encode_safe:
  "c \<in> set (b64_encode s) \<Longrightarrow> c \<noteq> CHR ''.'' \<and> c \<noteq> CHR 0x0A \<and> c \<noteq> CHR 0x0D"
  using b64_digits_bound [OF bytes_bound, of _ s] b64_alphabet_safe by (fastforce simp: b64_encode_def)

lemma b64_decode_encode: "b64_decode (b64_encode s) = Some s"
proof -
  have "filter (\<lambda>c. c \<noteq> CHR 0x0A \<and> c \<noteq> CHR 0x0D) (b64_encode s) = b64_encode s"
    by (rule filter_True) (use b64_encode_safe in blast)
  moreover have "those (map b64_val (b64_encode s)) = Some (b64_digits (map of_char s))"
    using b64_digits_bound [OF bytes_bound, of _ s] those_b64 [of "b64_digits (map of_char s)"]
    by (simp add: b64_encode_def list_all_iff)
  ultimately show ?thesis
    using b64_bytes_digits [OF bytes_bound, of s] by (simp add: b64_decode_def map_idI)
qed

lemma b64_encode_Nil [simp]: "b64_encode s = [] \<longleftrightarrow> s = []"
  by (cases "map of_char s :: nat list" rule: b64_digits.cases) (auto simp: b64_encode_def)

section \<open>Decoding a query string\<close>

text \<open>
  The inverse direction, as the receiver of the URL reads it (RFC 3986 percent-encoding with \<open>+\<close> for a
  space): used to state that the parameters arrive unchanged.
\<close>

fun hex_value :: "char \<Rightarrow> nat option" where
  "hex_value c = index_of c ''0123456789ABCDEF''"

fun unescape :: "string \<Rightarrow> string option" where
  "unescape [] = Some []"
| "unescape (c # cs) =
     (if c = CHR ''%'' then
        (case cs of
           h # l # r \<Rightarrow>
             (case (hex_value h, hex_value l) of
                (Some a, Some b) \<Rightarrow> map_option ((#) (char_of (16 * a + b))) (unescape r)
              | _ \<Rightarrow> None)
         | _ \<Rightarrow> None)
      else if c = CHR ''+'' then map_option ((#) (CHR '' '')) (unescape cs)
      else map_option ((#) c) (unescape cs))"

definition parse_query :: "string \<Rightarrow> (string \<times> string) list option" where
  "parse_query q =
     those (map (\<lambda>part. case cut (CHR ''='') part of
                   None \<Rightarrow> None
                 | Some (k, v) \<Rightarrow> (case (unescape k, unescape v) of (Some k', Some v') \<Rightarrow> Some (k', v') | _ \<Rightarrow> None))
            (split_on (CHR ''&'') q))"

lemma hex_value_upper: "hex_value (upper_hex n) = Some (n mod 16)"
proof -
  have "list_all (\<lambda>n. hex_value (upper_hex n) = Some (n mod 16)) [0..<16]" by code_simp
  then have "hex_value (upper_hex (n mod 16)) = Some (n mod 16)" by (simp add: list_all_iff)
  then show ?thesis by (simp add: upper_hex_def)
qed

lemma of_char_bound: "(of_char c :: nat) < 256" by simp

lemma unescape_byte: "unescape (escape_byte c @ r) = map_option ((#) c) (unescape r)"
proof (cases "is_alnum c \<or> c \<in> set ''-_.~'' \<or> c = CHR '' ''")
  case True
  then have "c \<noteq> CHR ''%''" "c \<noteq> CHR ''+''" by (rule_tac [!] notI) (simp_all add: is_alnum_def)
  moreover have "escape_byte c = (if c = CHR '' '' then ''+'' else [c])"
    using True by (simp add: escape_byte_def) (auto simp: is_alnum_def)
  ultimately show ?thesis by simp
next
  case False
  have "16 * (of_char c div 16 mod 16) + of_char c mod 16 = (of_char c :: nat)"
    using of_char_bound [of c] by (simp add: less_mult_imp_div_less)
  then have "char_of (16 * (of_char c div 16 mod 16) + of_char c mod 16 :: nat) = c" by simp
  moreover have "escape_byte c = [CHR ''%'', upper_hex (of_char c div 16), upper_hex (of_char c)]"
    using False by (simp add: escape_byte_def)
  ultimately show ?thesis
    by (simp add: hex_value_upper del: hex_value.simps)
qed

lemma unescape_QueryEscape: "unescape (QueryEscape s) = Some s"
  by (induction s) (simp_all add: QueryEscape_def unescape_byte)

lemma upper_hex_alnum: "is_alnum (upper_hex n)"
proof -
  have "list_all (\<lambda>n. is_alnum (upper_hex n)) [0..<16]" by code_simp
  then have "is_alnum (upper_hex (n mod 16))" by (simp add: list_all_iff)
  then show ?thesis by (simp add: upper_hex_def)
qed

lemma QueryEscape_safe: "c \<in> set (QueryEscape s) \<Longrightarrow> c \<noteq> CHR ''&'' \<and> c \<noteq> CHR ''=''"
proof -
  have "\<not> is_alnum (CHR ''&'')" "\<not> is_alnum (CHR ''='')" by (simp_all add: is_alnum_def)
  moreover assume "c \<in> set (QueryEscape s)"
  ultimately show ?thesis
    using upper_hex_alnum by (fastforce simp: QueryEscape_def escape_byte_def split: if_splits)
qed

text \<open>A receiver reads back the pairs that were encoded.\<close>

lemma parse_query_encode:
  assumes "sorted_pairs m \<noteq> []"
  shows "parse_query (values_encode m) = Some (sorted_pairs m)"
proof -
  let ?part = "\<lambda>(k, v). QueryEscape k @ ''='' @ QueryEscape v"
  let ?read = "\<lambda>part. case cut (CHR ''='') part of
      None \<Rightarrow> None
    | Some (k, v) \<Rightarrow> (case (unescape k, unescape v) of (Some k', Some v') \<Rightarrow> Some (k', v') | _ \<Rightarrow> None)"
  have "split_on (CHR ''&'') (values_encode m) = map ?part (sorted_pairs m)"
    unfolding values_encode_def using assms
    by (intro split_on_join) (use QueryEscape_safe in \<open>auto\<close>)
  moreover have "?read (?part kv) = Some kv" for kv
  proof (cases kv)
    case (Pair k v)
    have "CHR ''='' \<notin> set (QueryEscape k)" using QueryEscape_safe by blast
    with Pair show ?thesis by (simp add: unescape_QueryEscape)
  qed
  then have "those (map ?read (map ?part kvs)) = Some kvs" for kvs
    by (induction kvs) simp_all
  ultimately show ?thesis by (simp add: parse_query_def)
qed

text \<open>The encoded pairs of a key are its values, in order.\<close>

lemma concat_pairs_key:
  "distinct ks \<Longrightarrow> filter (\<lambda>p. fst p = k) (concat (map (\<lambda>k. map (Pair k) (f k)) ks)) =
     (if k \<in> set ks then map (Pair k) (f k) else [])"
proof (induction ks)
  case (Cons a ks)
  then show ?case by (cases "a = k") (auto simp: filter_map comp_def)
qed simp

lemma sorted_pairs_values:
  assumes "wf_map m"
  shows "map snd (filter (\<lambda>p. fst p = k) (sorted_pairs m)) = (case map_of m k of Some vs \<Rightarrow> vs | None \<Rightarrow> [])"
proof (cases "k \<in> fst ` set m")
  case True
  with assms show ?thesis by (simp add: sorted_pairs_def wf_map_def concat_pairs_key comp_def)
next
  case False
  with assms show ?thesis
    by (simp add: sorted_pairs_def wf_map_def concat_pairs_key map_of_eq_None_iff [THEN iffD2])
qed

end
