(* ===== verification/HttpClient.thy ===== *)
theory HttpClient
  imports Retry Encoding
begin

text \<open>
  Package \<^verbatim>\<open>httpclient\<close> (\<^verbatim>\<open>src/httpclient/client.go\<close>): the request builder, the retry wrapper over
  package \<^verbatim>\<open>retry\<close>, the Retry-After parser and the choice of a decompressor. The network, the
  clock, the URL parser and the decompression libraries are parameters; a body is a \<^typ>\<open>string\<close> of
  bytes.
\<close>

section \<open>Definitions\<close>

definition ErrTransientHTTPStatus :: go_err where
  "ErrTransientHTTPStatus = Sentinel ''transient http status''"

definition context_Canceled :: go_err where
  "context_Canceled = Sentinel ''context canceled''"

definition context_DeadlineExceeded :: go_err where
  "context_DeadlineExceeded = Sentinel ''context deadline exceeded''"

lemmas http_sentinels = ErrTransientHTTPStatus_def context_Canceled_def context_DeadlineExceeded_def

definition HeaderContentType :: string where "HeaderContentType = ''Content-Type''"
definition HeaderAccept :: string where "HeaderAccept = ''Accept''"
definition HeaderAcceptEncoding :: string where "HeaderAcceptEncoding = ''Accept-Encoding''"
definition MIMEApplicationJSON :: string where "MIMEApplicationJSON = ''application/json''"
definition MIMEApplicationFormURLEncoded :: string where
  "MIMEApplicationFormURLEncoded = ''application/x-www-form-urlencoded''"
definition AcceptEncodingAll :: string where "AcceptEncodingAll = ''gzip, deflate, br, zstd''"

definition RetryMaxAttempts :: int where "RetryMaxAttempts = 4"
definition RetryWaitMin :: duration where "RetryWaitMin = 200 * Millisecond"
definition RetryWaitMax :: duration where "RetryWaitMax = 5 * Second"
definition retryAfterCap :: duration where "retryAfterCap = 30 * Second"

definition IsTransientHTTPStatus :: "int \<Rightarrow> bool" where
  "IsTransientHTTPStatus status \<longleftrightarrow> status = 429 \<or> (500 \<le> status \<and> status < 600)"

text \<open>
  \<open>MapParams\<close>: a map of strings with its two methods; \<open>None\<close> stands for the panic of a write to a
  nil map.
\<close>

type_synonym map_params = "(string, string) gomap option"

definition MapParams_Set :: "map_params \<Rightarrow> string \<Rightarrow> string \<Rightarrow> map_params option" where
  "MapParams_Set m k v = (case m of None \<Rightarrow> None | Some xs \<Rightarrow> Some (Some (AList.update k v xs)))"

definition MapParams_Del :: "map_params \<Rightarrow> string \<Rightarrow> map_params" where
  "MapParams_Del m k = map_option (AList.delete k) m"

definition DefaultJSONHeaders :: map_params where
  "DefaultJSONHeaders = Some [(HeaderContentType, MIMEApplicationJSON), (HeaderAccept, MIMEApplicationJSON)]"

definition DefaultFormHeaders :: map_params where
  "DefaultFormHeaders = Some [(HeaderContentType, MIMEApplicationFormURLEncoded)]"

definition DefaultCompressedHeaders :: map_params where
  "DefaultCompressedHeaders = Some [(HeaderAcceptEncoding, AcceptEncodingAll)]"

text \<open>
  A request as the client executes it, and what the transport answers: an error, or a response
  whose body can be read, or not.
\<close>

record http_request =
  req_method :: string
  req_url :: string
  req_headers :: "(string, string) gomap"
  req_body :: string

datatype http_answer = TransportError go_err | Response int "go_err + string"

text \<open>
  What the request builder calls: \<^verbatim>\<open>url.Parse\<close>, the query of a parsed URL of type \<open>'u\<close>, the assignment to its
  \<open>RawQuery\<close> and its \<open>String\<close>; the error of \<^verbatim>\<open>http.NewRequestWithContext\<close>, the canonical form of a header name, the
  package's default client, and a client's \<open>Do\<close> with the reading of the body.
\<close>

record ('u, 'k, 'w) http_env =
  he_Parse :: "string \<Rightarrow> go_err + 'u"
  he_Query :: "'u \<Rightarrow> url_values"
  he_setRawQuery :: "'u \<Rightarrow> string \<Rightarrow> 'u"
  he_String :: "'u \<Rightarrow> string"
  he_NewRequest :: "string \<Rightarrow> string \<Rightarrow> go_err option"
  he_canonical :: "string \<Rightarrow> string"
  he_defaultClient :: 'k
  he_Do :: "'k \<Rightarrow> http_request \<Rightarrow> 'w \<Rightarrow> http_answer \<times> 'w"

definition with_query :: "('u, 'k, 'w) http_env \<Rightarrow> 'u \<Rightarrow> (string, string) gomap \<Rightarrow> 'u" where
  "with_query env u queryParams =
     (if queryParams \<noteq> []
      then he_setRawQuery env u (values_encode (fold (\<lambda>(k, v) q. AList.update k [v] q) queryParams (he_Query env u)))
      else u)"

definition choose_client :: "'k \<Rightarrow> 'k option list \<Rightarrow> 'k" where
  "choose_client defaultClient client = (case client of Some c # _ \<Rightarrow> c | _ \<Rightarrow> defaultClient)"

definition NewRequestWithContext ::
  "('u, 'k, 'w) http_env \<Rightarrow> string \<Rightarrow> string \<Rightarrow> (string, string) gomap \<Rightarrow> (string, string) gomap \<Rightarrow> string \<Rightarrow>
   'k option list \<Rightarrow> 'w \<Rightarrow> (string option \<times> int \<times> go_err option) \<times> 'w"
where
  "NewRequestWithContext env verb urlStr queryParams headers payload client w =
     (case he_Parse env urlStr of
        Inl e \<Rightarrow> ((None, 0, Some (Wrapped ''invalid URL: %w'' [e])), w)
      | Inr u \<Rightarrow>
          let c = choose_client (he_defaultClient env) client; u' = with_query env u queryParams in
          (case he_NewRequest env verb (he_String env u') of
             Some e \<Rightarrow> ((None, 0, Some (Wrapped ''creating request: %w'' [e])), w)
           | None \<Rightarrow>
               let req = \<lparr>req_method = verb, req_url = he_String env u',
                          req_headers = fold (\<lambda>(k, v) hs. AList.update (he_canonical env k) v hs) headers [],
                          req_body = payload\<rparr> in
               (case he_Do env c req w of
                  (TransportError e, w') \<Rightarrow> ((None, 0, Some (Wrapped ''executing request: %w'' [e])), w')
                | (Response status (Inl e), w') \<Rightarrow>
                    ((None, status, Some (Wrapped ''reading response body: %w'' [e])), w')
                | (Response status (Inr body), w') \<Rightarrow> ((Some body, status, None), w'))))"

text \<open>
  \<open>WithRetry\<close>. The closure passed to \<open>retry.Do\<close> assigns the captured variables \<open>body\<close> and
  \<open>status\<close>, so the loop's state is the caller's world with the two of them. \<open>sleep\<close> is \<open>sleepCtx\<close>:
  it returns when the context is done or the timer fires, without an error either way.
\<close>

record attempt_result =
  ar_body :: "string option"
  ar_status :: int
  ar_retryAfter :: duration
  ar_err :: "go_err option"

type_synonym 'w retry_state = "'w \<times> string option \<times> int"

definition sleepCtx :: "(duration \<Rightarrow> 'w \<Rightarrow> 'w) \<Rightarrow> duration \<Rightarrow> 'w \<Rightarrow> 'w" where
  "sleepCtx select_done d w = select_done d w"

definition with_retry_attempt ::
  "(duration \<Rightarrow> 'w \<Rightarrow> 'w) \<Rightarrow> ('w \<Rightarrow> attempt_result \<times> 'w) \<Rightarrow> 'w retry_state attempt_fn"
where
  "with_retry_attempt select_done perform = (\<lambda>(w, body, status).
     case perform w of (r, w1) \<Rightarrow>
       (case ar_err r of
          Some e \<Rightarrow> (Some e, (w1, ar_body r, ar_status r))
        | None \<Rightarrow>
            if \<not> IsTransientHTTPStatus (ar_status r) then (None, (w1, ar_body r, ar_status r))
            else (let w2 = (if 0 < ar_retryAfter r
                            then sleepCtx select_done (min (ar_retryAfter r) retryAfterCap) w1 else w1)
                  in (Some (Wrapped ''%w: status %d'' [ErrTransientHTTPStatus]),
                      (w2, ar_body r, ar_status r)))))"

definition with_retry_should :: "'w retry_state should_retry" where
  "with_retry_should = (\<lambda>_ e st.
     (\<not> errors_is e context_Canceled \<and> \<not> errors_is e context_DeadlineExceeded, st))"

text \<open>The wait between attempts leaves the captured variables alone.\<close>

definition keep_captured :: "'w wait_fn \<Rightarrow> 'w retry_state wait_fn" where
  "keep_captured wait = (\<lambda>d (w, body, status). case wait d w of (r, w') \<Rightarrow> (r, (w', body, status)))"

definition WithRetry ::
  "(duration \<Rightarrow> 'w \<Rightarrow> 'w) \<Rightarrow> 'w wait_fn \<Rightarrow> ('w \<Rightarrow> attempt_result \<times> 'w) \<Rightarrow> 'w \<Rightarrow>
   (string option \<times> int \<times> go_err option) \<times> 'w"
where
  "WithRetry select_done wait perform w =
     (case retry_do RetryMaxAttempts RetryWaitMin RetryWaitMax with_retry_should
             (with_retry_attempt select_done perform) (keep_captured wait) (w, None, 0) of
        (err, (w', body, status)) \<Rightarrow>
          (case err of
             Some e \<Rightarrow> if \<not> errors_is e ErrTransientHTTPStatus then ((None, 0, Some e), w')
                       else ((body, status, None), w')
           | None \<Rightarrow> ((body, status, None), w')))"

text \<open>\<open>parse_time\<close> is \<^verbatim>\<open>http.ParseTime\<close>, \<open>now\<close> the clock reading of \<^verbatim>\<open>time.Until\<close>.\<close>

definition ParseRetryAfter :: "(string \<Rightarrow> instant option) \<Rightarrow> instant \<Rightarrow> string \<Rightarrow> duration" where
  "ParseRetryAfter parse_time now s =
     (if s = [] then 0
      else case atoi s of
          Some seconds \<Rightarrow> if seconds < 0 then 0 else wrap64 (seconds * Second)
        | None \<Rightarrow>
            (case parse_time s of
               Some whn \<Rightarrow> let d = time_sub whn now in if 0 < d then d else 0
             | None \<Rightarrow> 0))"

text \<open>
  \<open>DecompressResponse\<close> returns a reader; a reader is the decoder it was built with and the bytes it
  reads. The three constructors that can fail are parameters that answer their error.
\<close>

datatype body_reader = Gzip string | Zlib string | Flate string | Brotli string | Zstd string | Plain string

definition DecompressResponse ::
  "(string \<Rightarrow> go_err option) \<Rightarrow> (string \<Rightarrow> go_err option) \<Rightarrow> (string \<Rightarrow> go_err option) \<Rightarrow>
   string \<Rightarrow> (go_err + string) \<Rightarrow> string \<Rightarrow> go_err + body_reader"
where
  "DecompressResponse gzip_err zlib_err zstd_err enc read_all body =
     (if enc = ''gzip'' then
        (case gzip_err body of Some e \<Rightarrow> Inl (Wrapped ''creating gzip reader: %w'' [e]) | None \<Rightarrow> Inr (Gzip body))
      else if enc = ''deflate'' then
        (case read_all of
           Inl e \<Rightarrow> Inl (Wrapped ''buffering deflate body: %w'' [e])
         | Inr peek \<Rightarrow>
             (case zlib_err peek of None \<Rightarrow> Inr (Zlib peek) | Some _ \<Rightarrow> Inr (Flate peek)))
      else if enc = ''br'' then Inr (Brotli body)
      else if enc = ''zstd'' then
        (case zstd_err body of Some e \<Rightarrow> Inl (Wrapped ''creating zstd reader: %w'' [e]) | None \<Rightarrow> Inr (Zstd body))
      else if enc = [] \<or> enc = ''identity'' then Inr (Plain body)
      else Inl (Wrapped ''unsupported content encoding %q'' []))"

section \<open>The retry wrapper\<close>

lemma transient_is [simp]: "errors_is (Wrapped m [ErrTransientHTTPStatus]) ErrTransientHTTPStatus"
  by simp

lemma transient_not_context [simp]:
  "\<not> errors_is (Wrapped m [ErrTransientHTTPStatus]) context_Canceled"
  "\<not> errors_is (Wrapped m [ErrTransientHTTPStatus]) context_DeadlineExceeded"
  by (simp_all add: http_sentinels)

text \<open>
  The calls of \<open>do\<close> in a run are recorded by closures that keep them beside their own state.
\<close>

definition recording :: "('w \<Rightarrow> attempt_result \<times> 'w) \<Rightarrow> ('w \<times> attempt_result list) \<Rightarrow>
    attempt_result \<times> ('w \<times> attempt_result list)" where
  "recording perform = (\<lambda>(w, rs). case perform w of (r, w') \<Rightarrow> (r, (w', rs @ [r])))"

definition recorded_run ::
  "(duration \<Rightarrow> 'w \<Rightarrow> 'w) \<Rightarrow> 'w wait_fn \<Rightarrow> ('w \<Rightarrow> attempt_result \<times> 'w) \<Rightarrow> 'w \<Rightarrow>
   (string option \<times> int \<times> go_err option) \<times> attempt_result list"
where
  "recorded_run select_done wait perform w =
     apsnd snd (WithRetry (\<lambda>d (w, rs). (select_done d w, rs))
       (\<lambda>d (w, rs). case wait d w of (r, w') \<Rightarrow> (r, (w', rs))) (recording perform) (w, []))"

definition definitive :: "attempt_result \<Rightarrow> bool" where
  "definitive r \<longleftrightarrow> ar_err r = None \<and> \<not> IsTransientHTTPStatus (ar_status r)"

text \<open>What the closure makes of an answer.\<close>

definition attempt_error :: "attempt_result \<Rightarrow> go_err option" where
  "attempt_error r =
     (case ar_err r of
        Some e \<Rightarrow> Some e
      | None \<Rightarrow> if IsTransientHTTPStatus (ar_status r)
                then Some (Wrapped ''%w: status %d'' [ErrTransientHTTPStatus]) else None)"

lemma attempt_error_None: "attempt_error r = None \<longleftrightarrow> definitive r"
  by (auto simp: attempt_error_def definitive_def split: option.splits)

lemma with_retry_attempt_recording:
  "\<exists>w'. with_retry_attempt (\<lambda>d (w, rs). (sel d w, rs)) (recording perform) ((w, rs), b, st) =
     (attempt_error (fst (perform w)),
      ((w', rs @ [fst (perform w)]), ar_body (fst (perform w)), ar_status (fst (perform w))))"
  by (auto simp: with_retry_attempt_def recording_def sleepCtx_def attempt_error_def Let_def
      split: prod.splits option.splits)

definition run_so_far :: "int \<Rightarrow> ('w \<times> attempt_result list) retry_state \<Rightarrow> bool" where
  "run_so_far a st \<longleftrightarrow> (case st of ((w, rs), body, status) \<Rightarrow>
     int (length rs) = a - 1 \<and> (\<forall>x \<in> set rs. \<not> definitive x))"

definition run_ended :: "go_err option \<Rightarrow> ('w \<times> attempt_result list) retry_state \<Rightarrow> bool" where
  "run_ended err st \<longleftrightarrow> (case st of ((w, rs), body, status) \<Rightarrow>
     rs \<noteq> [] \<and> int (length rs) \<le> RetryMaxAttempts \<and> body = ar_body (last rs) \<and> status = ar_status (last rs) \<and>
     (\<forall>x \<in> set (butlast rs). \<not> definitive x) \<and> (err = None \<longleftrightarrow> definitive (last rs)) \<and>
     (int (length rs) = RetryMaxAttempts \<longrightarrow> err = attempt_error (last rs)))"

lemma run_so_far_attempt:
  assumes "run_so_far a s" and "a \<le> RetryMaxAttempts"
    and "with_retry_attempt (\<lambda>d (w, rs). (sel d w, rs)) (recording perform) s = (r, s1)"
  shows "(r = None \<longrightarrow> run_ended None s1) \<and> (a = RetryMaxAttempts \<longrightarrow> run_ended r s1) \<and>
    (r \<noteq> None \<longrightarrow> run_so_far (a + 1) s1 \<and> (a < RetryMaxAttempts \<longrightarrow> (\<forall>e. run_ended (Some e) s1)))"
proof -
  obtain w rs b st where s: "s = ((w, rs), b, st)" by (metis prod_cases4 surj_pair)
  obtain w' where "with_retry_attempt (\<lambda>d (w, rs). (sel d w, rs)) (recording perform) s =
     (attempt_error (fst (perform w)),
      ((w', rs @ [fst (perform w)]), ar_body (fst (perform w)), ar_status (fst (perform w))))"
    using with_retry_attempt_recording s by metis
  with assms s show ?thesis
    by (auto simp: run_so_far_def run_ended_def attempt_error_None attempt_error_None [THEN iffD2])
qed

lemma recorded_loop:
  "case do_loop 1 RetryMaxAttempts RetryWaitMin RetryWaitMax with_retry_should
      (with_retry_attempt (\<lambda>d (w, rs). (sel d w, rs)) (recording perform))
      (keep_captured (\<lambda>d (w, rs). case wait d w of (r, w') \<Rightarrow> (r, (w', rs)))) None ((w, []), None, 0)
   of (r, s') \<Rightarrow> run_ended r s'"
proof (rule do_loop_rule [where P = run_so_far])
  show "run_so_far 1 ((w, []), None, 0)" by (simp add: run_so_far_def)
  show "1 \<le> RetryMaxAttempts" by (simp add: RetryMaxAttempts_def)
next
  fix a s s1
  assume "run_so_far a s" "a \<le> RetryMaxAttempts"
    "with_retry_attempt (\<lambda>d (w, rs). (sel d w, rs)) (recording perform) s = (None, s1)"
  from run_so_far_attempt [OF this] show "run_ended None s1" by simp
next
  fix s e s1
  assume "run_so_far RetryMaxAttempts s"
    "with_retry_attempt (\<lambda>d (w, rs). (sel d w, rs)) (recording perform) s = (Some e, s1)"
  from run_so_far_attempt [OF this(1) order_refl this(2)] show "run_ended (Some e) s1" by simp
next
  fix a s e s1 and s2 :: "('a \<times> attempt_result list) retry_state"
  assume so_far: "run_so_far a s" and lt: "a < RetryMaxAttempts"
    and fn: "with_retry_attempt (\<lambda>d (w, rs). (sel d w, rs)) (recording perform) s = (Some e, s1)"
  note step = run_so_far_attempt [OF so_far less_imp_le [OF lt] fn]
  {
    assume "with_retry_should a e s1 = (False, s2)"
    with step lt show "run_ended (Some e) s2" by (simp add: with_retry_should_def)
  next
    fix ce s3
    assume "with_retry_should a e s1 = (True, s2)"
      and "keep_captured (\<lambda>d (w, rs). case wait d w of (r, w') \<Rightarrow> (r, (w', rs)))
        (backoff a RetryWaitMin RetryWaitMax) s2 = (Some ce, s3)"
    with step lt show "run_ended (Some ce) s3"
      by (auto simp: with_retry_should_def keep_captured_def run_ended_def split: prod.splits)
  next
    fix s3
    assume "with_retry_should a e s1 = (True, s2)"
      and "keep_captured (\<lambda>d (w, rs). case wait d w of (r, w') \<Rightarrow> (r, (w', rs)))
        (backoff a RetryWaitMin RetryWaitMax) s2 = (None, s3)"
    with step show "run_so_far (a + 1) s3"
      by (auto simp: with_retry_should_def keep_captured_def run_so_far_def split: prod.splits)
  }
qed

section \<open>Properties\<close>

text \<open>
  C25: WithRetry makes between one and four calls, none after an answer that is neither an error nor
  a 429 or 5xx status; such an answer is returned as it is. Without an error it returns what the
  last call answered, also when the last of four calls answered a 429 or 5xx status; with an error
  it returns no body, and the error is not the marker of a transient status.
\<close>

theorem with_retry_contract:
  "case recorded_run select_done wait perform w of ((body, status, err), rs) \<Rightarrow>
     rs \<noteq> [] \<and> length rs \<le> 4 \<and> (\<forall>x \<in> set (butlast rs). \<not> definitive x) \<and>
     (definitive (last rs) \<longrightarrow> err = None) \<and>
     (length rs = 4 \<and> ar_err (last rs) = None \<longrightarrow> err = None) \<and>
     (err = None \<longrightarrow> body = ar_body (last rs) \<and> status = ar_status (last rs)) \<and>
     (\<forall>e. err = Some e \<longrightarrow> body = None \<and> status = 0 \<and> \<not> errors_is e ErrTransientHTTPStatus)"
proof -
  let ?run = "retry_do RetryMaxAttempts RetryWaitMin RetryWaitMax with_retry_should
      (with_retry_attempt (\<lambda>d (w, rs). (select_done d w, rs)) (recording perform))
      (keep_captured (\<lambda>d (w, rs). case wait d w of (r, w') \<Rightarrow> (r, (w', rs)))) ((w, []), None, 0)"
  obtain r w' rs b st where run: "?run = (r, ((w', rs), b, st))" by (metis prod_cases5 surj_pair)
  with recorded_loop [of select_done perform wait w] have "run_ended r ((w', rs), b, st)"
    by (simp add: retry_do_def)
  moreover from this have "length rs = 4 \<Longrightarrow> ar_err (last rs) = None \<Longrightarrow> r = Some e \<Longrightarrow>
      errors_is e ErrTransientHTTPStatus" for e
    by (auto simp: run_ended_def RetryMaxAttempts_def attempt_error_def split: if_splits)
  ultimately show ?thesis
    using run
    by (cases r; cases "ar_err (last rs)")
      (auto simp: recorded_run_def WithRetry_def run_ended_def RetryMaxAttempts_def)
qed

text \<open>A server that answers 503 until its counter runs out, and 200 then.\<close>

definition flaky_server :: "nat \<Rightarrow> attempt_result \<times> nat" where
  "flaky_server n = (case n of
     0 \<Rightarrow> (\<lparr>ar_body = Some ''ok'', ar_status = 200, ar_retryAfter = 0, ar_err = None\<rparr>, 0)
   | Suc k \<Rightarrow> (\<lparr>ar_body = Some ''busy'', ar_status = 503, ar_retryAfter = Second, ar_err = None\<rparr>, k))"

theorem with_retry_contract_witness:
  "(case recorded_run (\<lambda>_ w. w) (\<lambda>_ w. (None, w)) flaky_server 9 of ((body, status, err), rs) \<Rightarrow>
     length rs = 4 \<and> err = None \<and> status = 503) \<and>
   (case recorded_run (\<lambda>_ w. w) (\<lambda>_ w. (None, w)) flaky_server 1 of ((body, status, err), rs) \<Rightarrow>
     length rs = 2 \<and> err = None \<and> status = 200 \<and> body = Some ''ok'')"
  using with_retry_contract [of "\<lambda>_ w. w" "\<lambda>_ w. (None, w)" flaky_server 9]
  by (simp add: recorded_run_def WithRetry_def retry_do_def do_loop.simps with_retry_attempt_def recording_def
      flaky_server_def IsTransientHTTPStatus_def with_retry_should_def keep_captured_def sleepCtx_def
      RetryMaxAttempts_def http_sentinels clock_simps)

text \<open>
  The delay read from a Retry-After header is the given number of seconds when it fits a
  duration (up to 9223372036), is never negative then, and is 0 for an empty or unreadable value;
  larger numbers of seconds wrap around.
\<close>

lemma parse_retry_after_spec:
  "ParseRetryAfter parse_time now s =
     (case (s = [], atoi s, parse_time s) of
        (True, _, _) \<Rightarrow> 0
      | (_, Some n, _) \<Rightarrow> if n < 0 then 0 else if n \<le> 9223372036 then n * Second else wrap64 (n * Second)
      | (_, None, Some t) \<Rightarrow> max 0 (time_sub t now)
      | _ \<Rightarrow> 0)"
proof -
  have "wrap64 (n * Second) = n * Second" if "0 \<le> n" "n \<le> 9223372036" for n
    using that by (intro wrap64_id) (simp add: is_int64_def Second_def)
  then show ?thesis
    by (auto simp: ParseRetryAfter_def Let_def split: option.splits)
qed

text \<open>
  The query of a request with parameters reads back to the parameters of the URL with the given ones in
  their place: each given key once, with its value, and every other key with its own values, whatever
  characters they hold.
\<close>

lemma query_pairs_set:
  "map_of (fold (\<lambda>(k, v) q. AList.update k [v] q) kvs m) k =
     (case map_of (rev kvs) k of Some v \<Rightarrow> Some [v] | None \<Rightarrow> map_of m k)"
proof (induction kvs arbitrary: m)
  case (Cons kv kvs)
  then show ?case
    by (cases kv; cases "k = fst kv") (auto simp: map_add_def update_conv' split: option.splits)
qed simp

lemma wf_map_fold_set: "wf_map m \<Longrightarrow> wf_map (fold (\<lambda>(k, v) q. AList.update k [v] q) kvs m)"
  by (induction kvs arbitrary: m) auto

lemma request_query:
  assumes "wf_map (he_Query env u)" and "wf_map params" and "params \<noteq> []"
  shows "\<exists>raw pairs. with_query env u params = he_setRawQuery env u raw \<and> parse_query raw = Some pairs \<and>
    (\<forall>k. map snd (filter (\<lambda>p. fst p = k) pairs) =
      (case map_of params k of Some v \<Rightarrow> [v] | None \<Rightarrow> (case map_of (he_Query env u) k of Some vs \<Rightarrow> vs | None \<Rightarrow> [])))"
proof -
  let ?q = "fold (\<lambda>(k, v) q. AList.update k [v] q) params (he_Query env u)"
  have wf: "wf_map ?q" using assms(1) by (rule wf_map_fold_set)
  have rev: "map_of (rev params) = map_of params"
    using assms(2) by (simp add: wf_map_def map_of_inject_set distinct_rev rev_map [symmetric])
  obtain k v where kv: "(k, v) \<in> set params" using assms(3) by (cases params) auto
  have vals: "map snd (filter (\<lambda>p. fst p = k) (sorted_pairs ?q)) =
      (case map_of ?q k of Some vs \<Rightarrow> vs | None \<Rightarrow> [])" for k
    by (rule sorted_pairs_values [OF wf])
  have "map_of ?q k = Some [v]"
    using kv assms(2) by (simp add: query_pairs_set rev wf_map_def)
  with vals [of k] have "sorted_pairs ?q \<noteq> []" by force
  from parse_query_encode [OF this] vals show ?thesis
    using assms(3)
    by (intro exI [of _ "values_encode ?q"] exI [of _ "sorted_pairs ?q"])
      (auto simp: with_query_def query_pairs_set rev split: option.splits)
qed

end
