(* ===== verification/Claims.thy ===== *)
theory Claims
  imports Prelude
begin

text \<open>
  The data of package \<^verbatim>\<open>oidcauth\<close> (\<^verbatim>\<open>src/oidcauth/types.go\<close>): the claims of a token, the decoding of
  their audience, the introspection answer, the configuration, and the sentinel errors the package
  returns (\<^verbatim>\<open>introspection.go\<close>, \<^verbatim>\<open>oidc.go\<close>, \<^verbatim>\<open>session.go\<close>). A \<open>float64\<close> field is a rational: every
  finite float is one.
\<close>

section \<open>JSON values and the audience claim\<close>

datatype json = JNull | JBool bool | JNum rat | JStr string | JArr "json list" | JObj "(string \<times> json) list"

text \<open>\<^verbatim>\<open>json.Unmarshal\<close> into a \<open>[]string\<close> and into a \<open>string\<close>: a null leaves the zero value.\<close>

fun unmarshal_string :: "json \<Rightarrow> string option" where
  "unmarshal_string (JStr s) = Some s"
| "unmarshal_string JNull = Some []"
| "unmarshal_string _ = None"

fun unmarshal_strings :: "json \<Rightarrow> string list option" where
  "unmarshal_strings JNull = Some []"
| "unmarshal_strings (JArr xs) = those (map unmarshal_string xs)"
| "unmarshal_strings _ = None"

definition ErrAudience :: go_err where
  "ErrAudience = Wrapped ''oidcauth: aud claim is neither a string nor an array of strings: %w'' [Foreign 0]"

definition Audience_UnmarshalJSON :: "json \<Rightarrow> go_err + string list" where
  "Audience_UnmarshalJSON data =
     (case unmarshal_strings data of
        Some list \<Rightarrow> Inr list
      | None \<Rightarrow> (case unmarshal_string data of None \<Rightarrow> Inl ErrAudience | Some single \<Rightarrow> Inr [single]))"

section \<open>Claims\<close>

type_synonym role_map = "string \<Rightarrow> string list option"

record claims =
  cl_Aud :: "string list"
  cl_AllowedOrigins :: "string list"
  cl_Jti :: string
  cl_Iss :: string
  cl_Sub :: string
  cl_Typ :: string
  cl_Azp :: string
  cl_Sid :: string
  cl_Acr :: string
  cl_Scope :: string
  cl_Name :: string
  cl_PreferredUsername :: string
  cl_GivenName :: string
  cl_FamilyName :: string
  cl_Email :: string
  cl_Exp :: rat
  cl_Iat :: rat
  cl_AuthTime :: int
  cl_RealmAccess :: role_map
  cl_ResourceAccess :: "string \<Rightarrow> role_map option"
  cl_EmailVerified :: bool

text \<open>The zero value \<open>Claims{}\<close>.\<close>

definition no_claims :: claims where
  "no_claims = \<lparr>cl_Aud = [], cl_AllowedOrigins = [], cl_Jti = [], cl_Iss = [], cl_Sub = [], cl_Typ = [],
     cl_Azp = [], cl_Sid = [], cl_Acr = [], cl_Scope = [], cl_Name = [], cl_PreferredUsername = [],
     cl_GivenName = [], cl_FamilyName = [], cl_Email = [], cl_Exp = 0, cl_Iat = 0, cl_AuthTime = 0,
     cl_RealmAccess = Map.empty, cl_ResourceAccess = Map.empty, cl_EmailVerified = False\<rparr>"

record introspection =
  ir_claims :: claims
  ir_active :: bool

text \<open>\<open>time.Unix(int64(claims.Exp), 0)\<close>\<close>

definition claims_expiry :: "rat \<Rightarrow> instant" where
  "claims_expiry x = time_unix (float_to_int64 x)"

text \<open>
  \<open>claims.ResourceAccess[clientID]["roles"]\<close>: a missing client denies, a missing \<open>roles\<close> key reads as
  the nil slice.
\<close>

definition client_roles :: "claims \<Rightarrow> string \<Rightarrow> string list option" where
  "client_roles cl clientID =
     map_option (\<lambda>m. case m ''roles'' of None \<Rightarrow> [] | Some rs \<Rightarrow> rs) (cl_ResourceAccess cl clientID)"

section \<open>Configuration\<close>

record oidc_config =
  cf_RealmURL :: string
  cf_ClientID :: string
  cf_ClientSecret :: string
  cf_RequestTimeout :: duration
  cf_SkipIssuerCheck :: bool
  cf_SkipClientIDCheck :: bool
  cf_SkipExpiryCheck :: bool
  cf_DisableIntrospection :: bool
  cf_IntrospectionEndpoint :: string
  cf_IntrospectionCacheTTL :: duration
  cf_IntrospectionHTTPTimeout :: duration

section \<open>Sentinel errors\<close>

definition ErrAccessTokenInactive :: go_err where
  "ErrAccessTokenInactive = Sentinel ''oidcauth: access token is inactive''"
definition ErrInvalidIntrospectionResponse :: go_err where
  "ErrInvalidIntrospectionResponse = Sentinel ''oidcauth: invalid introspection response''"
definition ErrInvalidOIDCConfiguration :: go_err where
  "ErrInvalidOIDCConfiguration = Sentinel ''oidcauth: invalid OIDC configuration''"
definition ErrInvalidRealmURL :: go_err where
  "ErrInvalidRealmURL = Sentinel ''invalid OIDC configuration URL''"
definition ErrEmptyClientID :: go_err where
  "ErrEmptyClientID = Sentinel ''client ID cannot be empty''"
definition ErrMissingClientSecret :: go_err where
  "ErrMissingClientSecret = Sentinel ''client secret is required when introspection is enabled''"
definition ErrTokenValidationFailed :: go_err where
  "ErrTokenValidationFailed = Sentinel ''token validation failed''"
definition ErrProviderInitFailed :: go_err where
  "ErrProviderInitFailed = Sentinel ''failed to initialize OIDC provider''"
definition ErrIntrospectionFailed :: go_err where
  "ErrIntrospectionFailed = Sentinel ''token introspection failed''"
definition ErrSessionNotFound :: go_err where
  "ErrSessionNotFound = Sentinel ''oidcauth: session not found''"

lemmas oidc_sentinels =
  ErrAccessTokenInactive_def ErrInvalidIntrospectionResponse_def ErrInvalidOIDCConfiguration_def
  ErrInvalidRealmURL_def ErrEmptyClientID_def ErrMissingClientSecret_def ErrTokenValidationFailed_def
  ErrProviderInitFailed_def ErrIntrospectionFailed_def ErrSessionNotFound_def

declare oidc_sentinels [err_simps]

section \<open>The audience\<close>

lemma those_unmarshal_string [simp]: "those (map (unmarshal_string \<circ> JStr) xs) = Some xs"
  by (induction xs) auto

text \<open>
  The audience claim decodes from both JSON shapes, a list of strings to itself and a bare
  string to the one-element list, a null to the empty list, and a number, boolean or object is
  refused.
\<close>

lemma audience_unmarshal:
  "Audience_UnmarshalJSON (JArr (map JStr xs)) = Inr xs \<and>
   Audience_UnmarshalJSON (JStr s) = Inr [s] \<and>
   Audience_UnmarshalJSON JNull = Inr [] \<and>
   Audience_UnmarshalJSON (JNum n) = Inl ErrAudience \<and>
   Audience_UnmarshalJSON (JBool b) = Inl ErrAudience \<and>
   Audience_UnmarshalJSON (JObj kvs) = Inl ErrAudience"
  by (simp add: Audience_UnmarshalJSON_def)

end
