(* ===== verification/MemoryCache.thy ===== *)
theory MemoryCache
  imports Claims
begin

text \<open>
  The token cache of package \<^verbatim>\<open>oidcauth\<close> (\<^verbatim>\<open>src/oidcauth/cache.go\<close>): the \<open>Cache\<close> interface as a
  locale, the in-memory implementation, and the interpretation of the one by the other.
\<close>

section \<open>Definitions\<close>

definition DefaultCacheDuration :: duration where "DefaultCacheDuration = 5 * Minute"

record memory_cache_entry =
  me_Claims :: claims
  me_ExpiresAt :: instant

text \<open>\<open>mc_stop\<close> says that the channel \<open>stop\<close> is closed.\<close>

record memory_cache =
  mc_duration :: duration
  mc_entries :: "(string, memory_cache_entry) gomap"
  mc_stop :: bool

text \<open>
  \<open>NewMemoryCache\<close> starts \<open>runCleanup\<close>, whose \<open>time.NewTicker\<close> panics on a duration that is not
  positive and takes the process down: \<open>None\<close>.
\<close>

definition NewMemoryCache :: "duration \<Rightarrow> memory_cache option" where
  "NewMemoryCache d = (if d \<le> 0 then None else Some \<lparr>mc_duration = d, mc_entries = [], mc_stop = False\<rparr>)"

definition mc_get :: "memory_cache \<Rightarrow> string \<Rightarrow> instant \<Rightarrow> claims option" where
  "mc_get c key now =
     (case map_of (mc_entries c) key of
        None \<Rightarrow> None
      | Some entry \<Rightarrow> if \<not> now < me_ExpiresAt entry then None else Some (me_Claims entry))"

definition mc_expiry :: "memory_cache \<Rightarrow> claims \<Rightarrow> instant \<Rightarrow> instant" where
  "mc_expiry c cl now =
     (let configured = time_add now (mc_duration c) in
      if cl_Exp cl \<le> 0 then configured
      else (let tokenExp = claims_expiry (cl_Exp cl) in
            if tokenExp < configured then tokenExp else configured))"

definition mc_set :: "memory_cache \<Rightarrow> string \<Rightarrow> claims \<Rightarrow> instant \<Rightarrow> memory_cache" where
  "mc_set c key cl now =
     c\<lparr>mc_entries := AList.update key \<lparr>me_Claims = cl, me_ExpiresAt = mc_expiry c cl now\<rparr> (mc_entries c)\<rparr>"

definition mc_close :: "memory_cache \<Rightarrow> memory_cache" where
  "mc_close c = c\<lparr>mc_stop := True\<rparr>"

definition mc_evict :: "memory_cache \<Rightarrow> instant \<Rightarrow> memory_cache" where
  "mc_evict c now = c\<lparr>mc_entries := filter (\<lambda>(k, e). now < me_ExpiresAt e) (mc_entries c)\<rparr>"

text \<open>
  \<open>runCleanup\<close>: the loop takes one ready branch of its \<open>select\<close> at a time. A branch is a tick with
  the clock's reading, the closed \<open>stop\<close> channel or the done context; the last two end the loop.
\<close>

datatype cleanup_event = Tick instant | StopClosed | CtxDone

fun mc_runCleanup :: "memory_cache \<Rightarrow> cleanup_event list \<Rightarrow> memory_cache" where
  "mc_runCleanup c [] = c"
| "mc_runCleanup c (Tick now # es) = mc_runCleanup (mc_evict c now) es"
| "mc_runCleanup c (StopClosed # es) = c"
| "mc_runCleanup c (CtxDone # es) = c"

section \<open>The interface\<close>

text \<open>
  What the verifier relies on: \<open>get\<close> after \<open>set\<close> under the same key answers the stored claims until
  an instant the store fixes when it stores, which never lies after the token's own expiry, and
  other keys are not affected.
\<close>

locale claims_cache =
  fixes get :: "'c \<Rightarrow> string \<Rightarrow> instant \<Rightarrow> claims option"
    and set :: "'c \<Rightarrow> string \<Rightarrow> claims \<Rightarrow> instant \<Rightarrow> 'c"
    and fresh_until :: "'c \<Rightarrow> claims \<Rightarrow> instant \<Rightarrow> instant"
    and invar :: "'c \<Rightarrow> bool"
  assumes get_set: "invar c \<Longrightarrow> get (set c k cl t0) k' t =
      (if k' = k then (if t < fresh_until c cl t0 then Some cl else None) else get c k' t)"
    and fresh_until_exp: "0 < cl_Exp cl \<Longrightarrow> fresh_until c cl t \<le> claims_expiry (cl_Exp cl)"
    and invar_set: "invar c \<Longrightarrow> invar (set c k cl t)"
begin

lemma get_after_expiry:
  assumes "invar c" and "0 < cl_Exp cl" and "claims_expiry (cl_Exp cl) \<le> t"
  shows "get (set c k cl t0) k t = None"
  using assms fresh_until_exp [of cl c t0] by (simp add: get_set)

lemma get_set_overwrite:
  "invar c \<Longrightarrow> get (set (set c k cl t0) k cl' t1) k t =
     (if t < fresh_until (set c k cl t0) cl' t1 then Some cl' else None)"
  by (simp add: get_set invar_set)

end

section \<open>The implementation satisfies it\<close>

definition mc_invar :: "memory_cache \<Rightarrow> bool" where
  "mc_invar c \<longleftrightarrow> wf_map (mc_entries c)"

lemma mc_invar_ops [simp]:
  "mc_invar c \<Longrightarrow> mc_invar (mc_set c k cl t)"
  "mc_invar c \<Longrightarrow> mc_invar (mc_evict c t)"
  "mc_invar c \<Longrightarrow> mc_invar (mc_close c)"
  by (simp_all add: mc_invar_def mc_set_def mc_evict_def mc_close_def)

lemma mc_expiry_bounds:
  "mc_expiry c cl t \<le> t + mc_duration c"
  "0 < cl_Exp cl \<Longrightarrow> mc_expiry c cl t \<le> claims_expiry (cl_Exp cl)"
  by (auto simp: mc_expiry_def Let_def clock_simps)

lemma mc_get_set:
  "mc_get (mc_set c k cl t0) k' t =
     (if k' = k then (if t < mc_expiry c cl t0 then Some cl else None) else mc_get c k' t)"
  by (auto simp: mc_get_def mc_set_def)

interpretation mem: claims_cache mc_get mc_set mc_expiry mc_invar
  by unfold_locales (simp_all add: mc_get_set mc_expiry_bounds)

text \<open>Eviction removes only what a later lookup would refuse anyway.\<close>

lemma mc_get_evict:
  assumes "mc_invar c" and "t \<le> now"
  shows "mc_get (mc_evict c t) k now = mc_get c k now"
  using assms
  by (auto simp: mc_get_def mc_evict_def mc_invar_def map_of_filter_value split: option.splits)

lemma mc_runCleanup_invar [simp]: "mc_invar c \<Longrightarrow> mc_invar (mc_runCleanup c es)"
  by (induction c es rule: mc_runCleanup.induct) simp_all

lemma mc_get_runCleanup:
  assumes "mc_invar c" and "\<And>t. Tick t \<in> set es \<Longrightarrow> t \<le> now"
  shows "mc_get (mc_runCleanup c es) k now = mc_get c k now"
  using assms by (induction c es rule: mc_runCleanup.induct) (auto simp: mc_get_evict)

section \<open>Properties\<close>

text \<open>
  A lookup in the memory cache, made at t after a store made at t0 and any run of the eviction
  loop in between, answers the stored claims exactly while t is before t0 + duration and, for a
  token with an exp claim, before that expiry; so a cached token never outlives either.
\<close>

lemma memory_cache_lookup:
  assumes "mc_invar c" and "\<And>u. Tick u \<in> set es \<Longrightarrow> u \<le> t"
  shows "mc_get (mc_runCleanup (mc_set c key cl t0) es) key t =
    (if t < t0 + mc_duration c \<and> (0 < cl_Exp cl \<longrightarrow> t < claims_expiry (cl_Exp cl)) then Some cl else None)"
proof -
  have "mc_get (mc_runCleanup (mc_set c key cl t0) es) key t = mc_get (mc_set c key cl t0) key t"
    using assms by (intro mc_get_runCleanup) auto
  also have "\<dots> = (if t < mc_expiry c cl t0 then Some cl else None)"
    using assms(1) by (simp add: mem.get_set)
  finally show ?thesis by (auto simp: mc_expiry_def Let_def clock_simps)
qed

theorem memory_cache_lookup_witness:
  "mc_get (mc_runCleanup (mc_set \<lparr>mc_duration = 5 * Minute, mc_entries = [], mc_stop = False\<rparr> ''k'' no_claims 0)
     [Tick Minute]) ''k'' (2 * Minute) = Some no_claims \<and>
   mc_get (mc_runCleanup (mc_set \<lparr>mc_duration = 5 * Minute, mc_entries = [], mc_stop = False\<rparr> ''k'' no_claims 0)
     [Tick Minute]) ''k'' (5 * Minute) = None"
  using memory_cache_lookup [of "\<lparr>mc_duration = 5 * Minute, mc_entries = [], mc_stop = False\<rparr>"
      "[Tick Minute]" "2 * Minute" "''k''" no_claims 0]
    memory_cache_lookup [of "\<lparr>mc_duration = 5 * Minute, mc_entries = [], mc_stop = False\<rparr>"
      "[Tick Minute]" "5 * Minute" "''k''" no_claims 0]
  by (simp add: mc_invar_def no_claims_def clock_simps)

end
