(* ===== verification/Steps.thy ===== *)
theory Steps
  imports Prelude
begin

text \<open>
  What the step relations of the concurrent components share: invariants of the reachable states, in the
  locale \<open>preserved\<close>, and eventuality. A run is an infinite sequence of
  states in which every step is one of the relation or leaves the state as it is. An action is treated
  fairly when it is not enabled forever without being taken. The locale \<open>ranked\<close> extends \<open>preserved\<close> by the
  usual rule for such an action: what is waited for cannot be lost, the action stays enabled while it has not come
  about, and taking the action brings it nearer in a measure; \<open>helpful\<close> is the case in which taking it once is enough.
\<close>

definition enabled_in :: "('s \<Rightarrow> 's \<Rightarrow> bool) \<Rightarrow> 's \<Rightarrow> bool" where
  "enabled_in act s \<longleftrightarrow> (\<exists>s'. act s s')"

definition run_of :: "('s \<Rightarrow> 's \<Rightarrow> bool) \<Rightarrow> (nat \<Rightarrow> 's) \<Rightarrow> bool" where
  "run_of step r \<longleftrightarrow> (\<forall>n. r (Suc n) = r n \<or> step (r n) (r (Suc n)))"

definition weakly_fair :: "('s \<Rightarrow> 's \<Rightarrow> bool) \<Rightarrow> (nat \<Rightarrow> 's) \<Rightarrow> bool" where
  "weakly_fair act r \<longleftrightarrow> (\<forall>n. (\<forall>m \<ge> n. enabled_in act (r m)) \<longrightarrow> (\<exists>m \<ge> n. act (r m) (r (Suc m))))"

definition leads_to :: "(nat \<Rightarrow> 's) \<Rightarrow> ('s \<Rightarrow> bool) \<Rightarrow> ('s \<Rightarrow> bool) \<Rightarrow> bool" where
  "leads_to r P Q \<longleftrightarrow> (\<forall>n. P (r n) \<longrightarrow> (\<exists>m \<ge> n. Q (r m)))"

lemma leads_toD: "leads_to r P Q \<Longrightarrow> P (r n) \<Longrightarrow> \<exists>m \<ge> n. Q (r m)"
  by (simp add: leads_to_def)

lemma leads_to_weaken: "leads_to r P Q \<Longrightarrow> (\<And>s. Q s \<Longrightarrow> Q' s) \<Longrightarrow> leads_to r P Q'"
  unfolding leads_to_def by blast

lemma leads_to_chain:
  assumes "leads_to r P (\<lambda>s. Q s \<or> R s)" and "leads_to r Q R"
  shows "leads_to r P R"
  using assms unfolding leads_to_def by (meson order_trans)

text \<open>A property that every step preserves holds in all reachable states and all along a run.\<close>

locale preserved =
  fixes step :: "'s \<Rightarrow> 's \<Rightarrow> bool" and inv :: "'s \<Rightarrow> bool"
  assumes step_keeps: "inv s \<Longrightarrow> step s s' \<Longrightarrow> inv s'"
begin

lemma reachable_keeps:
  assumes "step\<^sup>*\<^sup>* s s'" and "inv s"
  shows "inv s'"
  using assms by (induction rule: rtranclp_induct) (auto intro: step_keeps)

lemma run_keeps:
  assumes "run_of step r" and "inv (r 0)"
  shows "inv (r n)"
proof (induction n)
  case (Suc n)
  with assms(1) step_keeps show ?case unfolding run_of_def by metis
qed (rule assms(2))

end

lemma run_suffix: "run_of step r \<Longrightarrow> run_of step (\<lambda>n. r (k + n))"
  by (simp add: run_of_def)

text \<open>A finite execution followed by its last state forever: the runs of the concrete examples.\<close>

definition run_list :: "'s list \<Rightarrow> nat \<Rightarrow> 's" where
  "run_list ss n = (if n < length ss then ss ! n else last ss)"

lemma run_list_last: "ss \<noteq> [] \<Longrightarrow> length ss \<le> Suc n \<Longrightarrow> run_list ss n = last ss"
  by (auto simp: run_list_def last_conv_nth le_Suc_eq)

lemma run_of_list:
  assumes "\<And>n. Suc n < length ss \<Longrightarrow> step (ss ! n) (ss ! Suc n)" and "ss \<noteq> []"
  shows "run_of step (run_list ss)"
  unfolding run_of_def
proof
  fix n
  show "run_list ss (Suc n) = run_list ss n \<or> step (run_list ss n) (run_list ss (Suc n))"
  proof (cases "Suc n < length ss")
    case True
    with assms(1) [OF True] show ?thesis by (simp add: run_list_def)
  next
    case False
    with assms(2) have "run_list ss n = last ss" and "run_list ss (Suc n) = last ss"
      by (simp_all add: run_list_last)
    then show ?thesis by simp
  qed
qed

lemma weakly_fair_list:
  assumes "\<not> enabled_in act (last ss)" and "ss \<noteq> []"
  shows "weakly_fair act (run_list ss)"
  unfolding weakly_fair_def
proof (intro allI impI)
  fix n
  assume "\<forall>m \<ge> n. enabled_in act (run_list ss m)"
  then have "enabled_in act (run_list ss (n + length ss))" by simp
  with assms show "\<exists>m \<ge> n. act (run_list ss m) (run_list ss (Suc m))" by (simp add: run_list_last)
qed

text \<open>
  An action that has to be taken again and again: each time it brings what is waited for, or brings it nearer in a
  measure that no other step puts up.
\<close>

locale ranked = preserved step inv for step :: "'s \<Rightarrow> 's \<Rightarrow> bool" and inv :: "'s \<Rightarrow> bool" +
  fixes act :: "'s \<Rightarrow> 's \<Rightarrow> bool" and pending :: "'s \<Rightarrow> bool" and goal :: "'s \<Rightarrow> bool" and rank :: "'s \<Rightarrow> nat"
  assumes nearer: "inv s \<Longrightarrow> pending s \<Longrightarrow> step s s' \<Longrightarrow> goal s' \<or> pending s' \<and> rank s' \<le> rank s"
    and ready: "inv s \<Longrightarrow> pending s \<Longrightarrow> enabled_in act s"
    and advances: "inv s \<Longrightarrow> pending s \<Longrightarrow> act s s' \<Longrightarrow> goal s' \<or> pending s' \<and> rank s' < rank s"
begin

lemma pending_until:
  assumes run: "run_of step r" and inv: "inv (r 0)" and "pending (r n)"
    and never: "\<And>m. n \<le> m \<Longrightarrow> \<not> goal (r m)"
  shows "n \<le> m \<Longrightarrow> pending (r m) \<and> rank (r m) \<le> rank (r n)"
proof (induction m rule: dec_induct)
  case (step m)
  have "inv (r m)" using run inv by (rule run_keeps)
  moreover have "\<not> goal (r (Suc m))" using never step(1) by simp
  ultimately show ?case using step(3) nearer [of "r m" "r (Suc m)"] run unfolding run_of_def by (metis order_trans)
qed (simp add: assms(3))

lemma eventually_goal:
  assumes run: "run_of step r" and inv: "inv (r 0)" and fair: "weakly_fair act r"
  shows "leads_to r pending goal"
proof -
  have ok: "inv (r m)" for m using run inv by (rule run_keeps)
  have "\<exists>m \<ge> n. goal (r m)" if "pending (r n)" for n
    using that
  proof (induction "rank (r n)" arbitrary: n rule: less_induct)
    case less
    show ?case
    proof (rule ccontr)
      assume "\<not> (\<exists>m \<ge> n. goal (r m))"
      then have never: "\<And>m. n \<le> m \<Longrightarrow> \<not> goal (r m)" by blast
      have held: "pending (r m) \<and> rank (r m) \<le> rank (r n)" if "n \<le> m" for m
        using run inv less.prems never that by (rule pending_until)
      with ok ready have "\<forall>m \<ge> n. enabled_in act (r m)" by blast
      with fair obtain m where m: "n \<le> m" and taken: "act (r m) (r (Suc m))" unfolding weakly_fair_def by blast
      with advances [OF ok _ taken] held [OF m] never [of "Suc m"]
      have "pending (r (Suc m))" and "rank (r (Suc m)) < rank (r n)" by auto
      with less.hyps [of "Suc m"] never m show False by (meson Suc_leD order_trans)
    qed
  qed
  then show ?thesis unfolding leads_to_def by blast
qed

end

text \<open>One helpful action, taken once.\<close>

locale helpful = preserved step inv for step :: "'s \<Rightarrow> 's \<Rightarrow> bool" and inv :: "'s \<Rightarrow> bool" +
  fixes act :: "'s \<Rightarrow> 's \<Rightarrow> bool" and pending :: "'s \<Rightarrow> bool" and goal :: "'s \<Rightarrow> bool"
  assumes persists: "inv s \<Longrightarrow> pending s \<Longrightarrow> step s s' \<Longrightarrow> pending s' \<or> goal s'"
    and ready: "inv s \<Longrightarrow> pending s \<Longrightarrow> enabled_in act s"
    and helps: "inv s \<Longrightarrow> pending s \<Longrightarrow> act s s' \<Longrightarrow> goal s'"

sublocale helpful \<subseteq> once: ranked step inv act pending goal "\<lambda>s. 0"
  by unfold_locales (auto dest: persists ready helps)

end
