(* ===== verification/Introspector.thy ===== *)
theory Introspector
  imports Claims Steps
begin

text \<open>
  Token introspection (\<^verbatim>\<open>src/oidcauth/introspection.go\<close>): the cache of positive answers, the request,
  the rule that fixes how long an answer may be reused, and the coalescing of concurrent calls.
  \<open>sha256\<close> is the digest used as the cache key and \<open>send\<close> the transport, both parameters. A step
  relation describes any number of callers sharing requests through \<^verbatim>\<open>singleflight\<close>, whose
  documented behaviour (one execution per key at a time, its result handed to every waiting
  channel) is what the steps say of it.
\<close>

section \<open>State\<close>

definition defaultIntrospectionHTTPTimeout :: duration where
  "defaultIntrospectionHTTPTimeout = 10 * Second"
definition minCleanupInterval :: duration where "minCleanupInterval = Second"
definition maxCleanupInterval :: duration where "maxCleanupInterval = 5 * Minute"

record introspection_cache_entry =
  ie_Claims :: claims
  ie_ExpiresAt :: instant

datatype introspection_event_kind =
  EventCacheHit | EventCacheMiss | EventIntrospectionSucceeded | EventTokenInactive |
  EventIntrospectionFailed | EventCacheEvicted

record introspection_event =
  ev_Kind :: introspection_event_kind
  ev_Duration :: duration
  ev_Count :: nat

record introspector_config =
  ic_Endpoint :: string
  ic_ClientID :: string
  ic_ClientSecret :: string
  ic_HTTPTimeout :: duration
  ic_CacheTTL :: duration
  ic_OnEvent :: bool

text \<open>
  \<open>in_onEvent\<close> says that a callback is set, \<open>in_events\<close> what it has been called with, \<open>in_stop\<close> that
  the channel \<open>stop\<close> is closed, \<open>in_cleaner\<close> that the eviction goroutine runs.
\<close>

record introspector =
  in_endpoint :: string
  in_clientID :: string
  in_clientSecret :: string
  in_timeout :: duration
  in_cacheTTL :: duration
  in_onEvent :: bool
  in_events :: "introspection_event list"
  in_entries :: "(string, introspection_cache_entry) gomap"
  in_stop :: bool
  in_cleaner :: bool

definition NewIntrospector :: "introspector_config \<Rightarrow> go_err + introspector" where
  "NewIntrospector cfg =
     (if ic_Endpoint cfg = [] then
        Inl (Wrapped ''%w: introspection endpoint is required'' [ErrInvalidOIDCConfiguration])
      else if ic_CacheTTL cfg < 0 then
        Inl (Wrapped ''%w: introspection cache TTL cannot be negative'' [ErrInvalidOIDCConfiguration])
      else if ic_HTTPTimeout cfg < 0 then
        Inl (Wrapped ''%w: introspection HTTP timeout cannot be negative'' [ErrInvalidOIDCConfiguration])
      else
        (let timeout = (if ic_HTTPTimeout cfg = 0 then defaultIntrospectionHTTPTimeout else ic_HTTPTimeout cfg)
         in Inr \<lparr>in_endpoint = ic_Endpoint cfg, in_clientID = ic_ClientID cfg,
                 in_clientSecret = ic_ClientSecret cfg, in_timeout = timeout,
                 in_cacheTTL = ic_CacheTTL cfg, in_onEvent = ic_OnEvent cfg, in_events = [],
                 in_entries = [], in_stop = False, in_cleaner = (0 < ic_CacheTTL cfg)\<rparr>))"

definition clampCleanupInterval :: "duration \<Rightarrow> duration" where
  "clampCleanupInterval ttl =
     (if ttl < minCleanupInterval then minCleanupInterval
      else if maxCleanupInterval < ttl then maxCleanupInterval else ttl)"

definition emit :: "introspection_event \<Rightarrow> introspector \<Rightarrow> introspector" where
  "emit e i = (if in_onEvent i then i\<lparr>in_events := in_events i @ [e]\<rparr> else i)"

section \<open>The cache\<close>

definition in_lookup :: "introspector \<Rightarrow> string \<Rightarrow> instant \<Rightarrow> introspection_cache_entry option" where
  "in_lookup i key now =
     (case map_of (in_entries i) key of
        None \<Rightarrow> None
      | Some entry \<Rightarrow> if \<not> now < ie_ExpiresAt entry then None else Some entry)"

definition in_store :: "introspector \<Rightarrow> string \<Rightarrow> introspection_cache_entry \<Rightarrow> introspector" where
  "in_store i key entry = i\<lparr>in_entries := AList.update key entry (in_entries i)\<rparr>"

definition in_evict :: "introspector \<Rightarrow> instant \<Rightarrow> introspector" where
  "in_evict i now =
     (let kept = filter (\<lambda>(k, e). now < ie_ExpiresAt e) (in_entries i);
          removed = length (in_entries i) - length kept;
          i' = i\<lparr>in_entries := kept\<rparr>
      in if 0 < removed
         then emit \<lparr>ev_Kind = EventCacheEvicted, ev_Duration = 0, ev_Count = removed\<rparr> i' else i')"

definition ClearCache :: "introspector \<Rightarrow> introspector" where
  "ClearCache i =
     (let n = length (in_entries i); i' = i\<lparr>in_entries := []\<rparr>
      in if 0 < n then emit \<lparr>ev_Kind = EventCacheEvicted, ev_Duration = 0, ev_Count = n\<rparr> i' else i')"

text \<open>\<open>Close\<close> closes \<open>stop\<close> once and waits until the eviction goroutine, which then returns, is gone.\<close>

definition in_Close :: "introspector \<Rightarrow> introspector" where
  "in_Close i = i\<lparr>in_stop := True, in_cleaner := False\<rparr>"

datatype ticker_event = Ticked instant | Stopped

fun in_runCleanup :: "introspector \<Rightarrow> ticker_event list \<Rightarrow> introspector" where
  "in_runCleanup i [] = i"
| "in_runCleanup i (Ticked now # es) = in_runCleanup (in_evict i now) es"
| "in_runCleanup i (Stopped # es) = i"

section \<open>A request\<close>

definition effectiveExpiry :: "introspector \<Rightarrow> instant \<Rightarrow> instant \<Rightarrow> rat \<Rightarrow> instant" where
  "effectiveExpiry i now knownExpiry introspectedExp =
     (if in_cacheTTL i \<le> 0 then zero_time
      else
        (let e0 = time_add now (in_cacheTTL i);
             e1 = (if \<not> is_zero knownExpiry \<and> knownExpiry < e0 then knownExpiry else e0);
             e2 = (if 0 < introspectedExp \<and> claims_expiry introspectedExp < e1
                   then claims_expiry introspectedExp else e1)
         in if \<not> now < e2 then zero_time else e2))"

record introspect_request =
  iq_endpoint :: string
  iq_form :: "(string \<times> string) list"
  iq_headers :: "(string \<times> string) list"
  iq_user :: string
  iq_password :: string

text \<open>
  What comes back: the request could not be built, the round trip failed, or a status with a body
  that decodes to an introspection answer or not.
\<close>

datatype introspect_answer =
  BuildFailed go_err | DoFailed go_err | Answered int "go_err + introspection"

type_synonym introspection_result = "go_err + claims \<times> instant"

definition introspect_request_for :: "introspector \<Rightarrow> string \<Rightarrow> introspect_request" where
  "introspect_request_for i token =
     \<lparr>iq_endpoint = in_endpoint i,
      iq_form = [(''token'', token), (''token_type_hint'', ''access_token'')],
      iq_headers = [(''Content-Type'', ''application/x-www-form-urlencoded''), (''Accept'', ''application/json'')],
      iq_user = in_clientID i, iq_password = in_clientSecret i\<rparr>"

definition introspection_outcome ::
  "introspector \<Rightarrow> instant \<Rightarrow> instant \<Rightarrow> instant \<Rightarrow> introspect_answer \<Rightarrow> introspection_result \<times> introspector"
where
  "introspection_outcome i start now knownExpiry ans =
     (let failed = emit \<lparr>ev_Kind = EventIntrospectionFailed, ev_Duration = time_sub now start, ev_Count = 0\<rparr> i in
      case ans of
        BuildFailed e \<Rightarrow> (Inl (Wrapped ''%w: build request: %w'' [ErrIntrospectionFailed, e]), failed)
      | DoFailed e \<Rightarrow> (Inl (Wrapped ''%w: %w'' [ErrIntrospectionFailed, e]), failed)
      | Answered status body \<Rightarrow>
          if status \<noteq> 200 then
            (Inl (Wrapped ''%w: unexpected HTTP status %d'' [ErrIntrospectionFailed]), failed)
          else (case body of
              Inl e \<Rightarrow> (Inl (Wrapped ''%w: decode response: %w'' [ErrInvalidIntrospectionResponse, e]), failed)
            | Inr raw \<Rightarrow>
                if \<not> ir_active raw then
                  (Inl ErrAccessTokenInactive,
                   emit \<lparr>ev_Kind = EventTokenInactive, ev_Duration = time_sub now start, ev_Count = 0\<rparr> i)
                else
                  (Inr (ir_claims raw, effectiveExpiry i now knownExpiry (cl_Exp (ir_claims raw))),
                   emit \<lparr>ev_Kind = EventIntrospectionSucceeded, ev_Duration = time_sub now start, ev_Count = 0\<rparr> i)))"

definition doIntrospect ::
  "(introspect_request \<Rightarrow> 'w \<Rightarrow> introspect_answer \<times> 'w) \<Rightarrow> ('w \<Rightarrow> instant) \<Rightarrow>
   introspector \<Rightarrow> string \<Rightarrow> instant \<Rightarrow> 'w \<Rightarrow> introspection_result \<times> introspector \<times> 'w"
where
  "doIntrospect send now i token knownExpiry w =
     (case send (introspect_request_for i token) w of
        (ans, w') \<Rightarrow>
          (case introspection_outcome i (now w) (now w') knownExpiry ans of (r, i') \<Rightarrow> (r, i', w')))"

section \<open>Introspect\<close>

text \<open>
  The two halves of \<open>Introspect\<close> around the shared request: the cache lookup with its event, and the
  receive branch of the final \<open>select\<close>.
\<close>

definition introspect_probe ::
  "introspector \<Rightarrow> string \<Rightarrow> instant \<Rightarrow> introspection_cache_entry option \<times> introspector"
where
  "introspect_probe i key now =
     (if 0 < in_cacheTTL i then
        (case in_lookup i key now of
           Some entry \<Rightarrow> (Some entry, emit \<lparr>ev_Kind = EventCacheHit, ev_Duration = 0, ev_Count = 0\<rparr> i)
         | None \<Rightarrow> (None, emit \<lparr>ev_Kind = EventCacheMiss, ev_Duration = 0, ev_Count = 0\<rparr> i))
      else (None, i))"

definition introspect_receive ::
  "introspector \<Rightarrow> string \<Rightarrow> introspection_result \<Rightarrow> (go_err + claims) \<times> introspector"
where
  "introspect_receive i key res =
     (case res of
        Inl e \<Rightarrow> (Inl e, i)
      | Inr (cl, expiresAt) \<Rightarrow>
          (Inr cl,
           if 0 < in_cacheTTL i \<and> \<not> is_zero expiresAt
           then in_store i key \<lparr>ie_Claims = cl, ie_ExpiresAt = expiresAt\<rparr> else i))"

text \<open>
  A call with no other caller around. \<open>ctx_first w\<close> is the context's error when the \<open>select\<close> takes
  its \<open>Done\<close> branch; the request has been made all the same.
\<close>

definition Introspect ::
  "(string \<Rightarrow> string) \<Rightarrow> (introspect_request \<Rightarrow> 'w \<Rightarrow> introspect_answer \<times> 'w) \<Rightarrow> ('w \<Rightarrow> instant) \<Rightarrow>
   ('w \<Rightarrow> go_err option) \<Rightarrow> introspector \<Rightarrow> string \<Rightarrow> instant \<Rightarrow> 'w \<Rightarrow>
   (go_err + claims) \<times> introspector \<times> 'w"
where
  "Introspect sha256 send now ctx_first i token knownExpiry w =
     (if token = [] then (Inl (Wrapped ''%w: empty token'' [ErrIntrospectionFailed]), i, w)
      else
        (case introspect_probe i (sha256 token) (now w) of
           (Some entry, i1) \<Rightarrow> (Inr (ie_Claims entry), i1, w)
         | (None, i1) \<Rightarrow>
             (case doIntrospect send now i1 token knownExpiry w of
                (res, i2, w') \<Rightarrow>
                  (case ctx_first w' of
                     Some e \<Rightarrow> (Inl e, i2, w')
                   | None \<Rightarrow> (case introspect_receive i2 (sha256 token) res of (r, i3) \<Rightarrow> (r, i3, w'))))))"

section \<open>Shape of a token and the endpoint\<close>

definition looksLikeJWT :: "string \<Rightarrow> bool" where
  "looksLikeJWT token \<longleftrightarrow>
     (let parts = split_on (CHR ''.'') token in length parts = 3 \<and> list_all (\<lambda>p. p \<noteq> []) parts)"

text \<open>\<open>discovered\<close> is the \<open>introspection_endpoint\<close> of the discovery document, \<open>None\<close> when it cannot be read.\<close>

definition resolveIntrospectionEndpoint :: "string option \<Rightarrow> oidc_config \<Rightarrow> go_err + string" where
  "resolveIntrospectionEndpoint discovered config =
     (case discovered of
        Some e \<Rightarrow> if e \<noteq> [] then Inr e
                  else if cf_IntrospectionEndpoint config \<noteq> [] then Inr (cf_IntrospectionEndpoint config)
                  else Inl (Wrapped ''%w: no introspection endpoint in discovery document or config''
                         [ErrInvalidOIDCConfiguration])
      | None \<Rightarrow> if cf_IntrospectionEndpoint config \<noteq> [] then Inr (cf_IntrospectionEndpoint config)
                else Inl (Wrapped ''%w: no introspection endpoint in discovery document or config''
                       [ErrInvalidOIDCConfiguration]))"

section \<open>Lemmas on the operations\<close>

lemma emit_simps [simp]:
  "in_entries (emit e i) = in_entries i" "in_cacheTTL (emit e i) = in_cacheTTL i"
  "in_onEvent (emit e i) = in_onEvent i" "in_endpoint (emit e i) = in_endpoint i"
  "in_clientID (emit e i) = in_clientID i" "in_clientSecret (emit e i) = in_clientSecret i"
  by (simp_all add: emit_def)

lemma in_lookup_store:
  "in_lookup (in_store i k e) k' now =
     (if k' = k then (if now < ie_ExpiresAt e then Some e else None) else in_lookup i k' now)"
  by (simp add: in_lookup_def in_store_def)

lemma in_store_simps [simp]:
  "in_cacheTTL (in_store i k e) = in_cacheTTL i"
  "map_of (in_entries (in_store i k e)) = (map_of (in_entries i))(k \<mapsto> e)"
  by (simp_all add: in_store_def)

lemma in_evict_simps:
  "in_entries (in_evict i now) = filter (\<lambda>(k, e). now < ie_ExpiresAt e) (in_entries i)"
  "in_cacheTTL (in_evict i now) = in_cacheTTL i"
  by (simp_all add: in_evict_def Let_def)

lemma ClearCache_simps [simp]:
  "in_entries (ClearCache i) = []" "in_cacheTTL (ClearCache i) = in_cacheTTL i"
  by (simp_all add: ClearCache_def Let_def)

lemma introspect_probe_simps [simp]:
  "in_entries (snd (introspect_probe i k t)) = in_entries i"
  "in_cacheTTL (snd (introspect_probe i k t)) = in_cacheTTL i"
  by (simp_all add: introspect_probe_def split: option.split)

lemma introspection_outcome_simps [simp]:
  "in_entries (snd (introspection_outcome i s t ke ans)) = in_entries i"
  "in_cacheTTL (snd (introspection_outcome i s t ke ans)) = in_cacheTTL i"
  by (simp_all add: introspection_outcome_def Let_def split: introspect_answer.split sum.split)

lemma introspect_probe_Some:
  "fst (introspect_probe i k t) = Some e \<longleftrightarrow> 0 < in_cacheTTL i \<and> in_lookup i k t = Some e"
  by (auto simp: introspect_probe_def split: option.splits)

lemma in_lookup_Some:
  "in_lookup i k t = Some e \<longleftrightarrow> map_of (in_entries i) k = Some e \<and> t < ie_ExpiresAt e"
  by (auto simp: in_lookup_def split: option.splits)

lemma introspection_outcome_Inr:
  assumes "fst (introspection_outcome i s t ke ans) = Inr (cl, ex)"
  shows "ans = Answered 200 (Inr \<lparr>ir_claims = cl, ir_active = True\<rparr>)" and "ex = effectiveExpiry i t ke (cl_Exp cl)"
proof -
  from assms obtain raw where raw: "ans = Answered 200 (Inr raw)" "ir_active raw" "cl = ir_claims raw"
    "ex = effectiveExpiry i t ke (cl_Exp cl)"
    by (auto simp: introspection_outcome_def Let_def split: introspect_answer.splits sum.splits if_splits)
  then show "ans = Answered 200 (Inr \<lparr>ir_claims = cl, ir_active = True\<rparr>)"
    and "ex = effectiveExpiry i t ke (cl_Exp cl)"
    by (cases raw, simp)+
qed

lemma effectiveExpiry_bounds:
  assumes "\<not> is_zero (effectiveExpiry i now ke x)"
  shows "now < effectiveExpiry i now ke x" and "effectiveExpiry i now ke x \<le> now + in_cacheTTL i"
    and "\<not> is_zero ke \<Longrightarrow> effectiveExpiry i now ke x \<le> ke"
    and "0 < x \<Longrightarrow> effectiveExpiry i now ke x \<le> claims_expiry x"
  using assms by (auto simp: effectiveExpiry_def Let_def clock_simps split: if_splits)

section \<open>Concurrent callers\<close>

text \<open>
  Any number of callers share one introspector. \<open>sf_flights\<close> holds the requests under way, by key,
  with the token and known expiry of the caller that started it; \<open>sf_waiting\<close> the callers on the
  channel of a request; \<open>sf_ready\<close> the callers whose channel holds a result they have not received
  yet. Two histories say what happened: \<open>sf_log\<close> the active answers of the issuer with the instant
  each arrived, \<open>sf_served\<close> the claims returned from the cache with the instant of the lookup.
\<close>

record sf_state =
  sf_intro :: introspector
  sf_now :: instant
  sf_flights :: "string \<Rightarrow> (string \<times> instant) option"
  sf_waiting :: "nat \<Rightarrow> string option"
  sf_ready :: "nat \<Rightarrow> (string \<times> introspection_result) option"
  sf_log :: "(string \<times> instant \<times> claims) set"
  sf_served :: "(string \<times> instant \<times> claims) set"

definition sf_init :: "introspector \<Rightarrow> instant \<Rightarrow> sf_state" where
  "sf_init i t = \<lparr>sf_intro = i, sf_now = t, sf_flights = Map.empty, sf_waiting = Map.empty,
     sf_ready = Map.empty, sf_log = {}, sf_served = {}\<rparr>"

definition idle :: "sf_state \<Rightarrow> nat \<Rightarrow> bool" where
  "idle s c \<longleftrightarrow> sf_waiting s c = None \<and> sf_ready s c = None"

text \<open>A request completes: its result reaches every channel waiting on the key.\<close>

fun active_claims :: "introspect_answer \<Rightarrow> claims set" where
  "active_claims (Answered status (Inr raw)) = (if status = 200 \<and> ir_active raw then {ir_claims raw} else {})"
| "active_claims _ = {}"

definition sf_land :: "sf_state \<Rightarrow> string \<Rightarrow> introspect_answer \<Rightarrow> introspection_result \<Rightarrow>
    introspector \<Rightarrow> sf_state" where
  "sf_land s key ans res i' =
     s\<lparr>sf_intro := i', sf_flights := (sf_flights s)(key := None),
       sf_waiting := (\<lambda>c. if sf_waiting s c = Some key then None else sf_waiting s c),
       sf_ready := (\<lambda>c. if sf_waiting s c = Some key then Some (key, res) else sf_ready s c),
       sf_log := sf_log s \<union> (\<lambda>cl. (key, sf_now s, cl)) ` active_claims ans\<rparr>"

inductive sf_step :: "(string \<Rightarrow> string) \<Rightarrow> sf_state \<Rightarrow> sf_state \<Rightarrow> bool" for sha256 where
  tick: "sf_now s \<le> t \<Longrightarrow> sf_step sha256 s (s\<lparr>sf_now := t\<rparr>)"
| hit: "idle s c \<Longrightarrow> token \<noteq> [] \<Longrightarrow>
    introspect_probe (sf_intro s) (sha256 token) (sf_now s) = (Some e, i') \<Longrightarrow>
    sf_step sha256 s (s\<lparr>sf_intro := i', sf_served := insert (sha256 token, sf_now s, ie_Claims e) (sf_served s)\<rparr>)"
| start: "idle s c \<Longrightarrow> token \<noteq> [] \<Longrightarrow>
    introspect_probe (sf_intro s) (sha256 token) (sf_now s) = (None, i') \<Longrightarrow>
    sf_flights s (sha256 token) = None \<Longrightarrow>
    sf_step sha256 s (s\<lparr>sf_intro := i', sf_flights := (sf_flights s)(sha256 token \<mapsto> (token, ke)),
      sf_waiting := (sf_waiting s)(c \<mapsto> sha256 token)\<rparr>)"
| join: "idle s c \<Longrightarrow> token \<noteq> [] \<Longrightarrow>
    introspect_probe (sf_intro s) (sha256 token) (sf_now s) = (None, i') \<Longrightarrow>
    sf_flights s (sha256 token) \<noteq> None \<Longrightarrow>
    sf_step sha256 s (s\<lparr>sf_intro := i', sf_waiting := (sf_waiting s)(c \<mapsto> sha256 token)\<rparr>)"
| land: "sf_flights s key = Some (token, ke) \<Longrightarrow> began \<le> sf_now s \<Longrightarrow>
    introspection_outcome (sf_intro s) began (sf_now s) ke ans = (res, i') \<Longrightarrow>
    sf_step sha256 s (sf_land s key ans res i')"
| receive: "sf_ready s c = Some (key, res) \<Longrightarrow> introspect_receive (sf_intro s) key res = (r, i') \<Longrightarrow>
    sf_step sha256 s (s\<lparr>sf_intro := i', sf_ready := (sf_ready s)(c := None)\<rparr>)"
| cancel: "\<not> idle s c \<Longrightarrow>
    sf_step sha256 s (s\<lparr>sf_waiting := (sf_waiting s)(c := None), sf_ready := (sf_ready s)(c := None)\<rparr>)"
| evict: "sf_step sha256 s (s\<lparr>sf_intro := in_evict (sf_intro s) (sf_now s)\<rparr>)"
| clear: "sf_step sha256 s (s\<lparr>sf_intro := ClearCache (sf_intro s)\<rparr>)"

definition sf_reachable :: "(string \<Rightarrow> string) \<Rightarrow> introspector \<Rightarrow> instant \<Rightarrow> sf_state \<Rightarrow> bool" where
  "sf_reachable sha256 i t = (sf_step sha256)\<^sup>*\<^sup>* (sf_init i t)"

text \<open>
  The invariant. A cache entry, or a result on its way to a caller, is backed by an active answer
  for its key, and expires within the TTL of that answer and by the token's own expiry; and every
  claim served from the cache was so backed when it was served.
\<close>

definition backed :: "sf_state \<Rightarrow> string \<Rightarrow> claims \<Rightarrow> instant \<Rightarrow> bool" where
  "backed s key cl ex \<longleftrightarrow> (\<exists>t0. (key, t0, cl) \<in> sf_log s \<and> t0 \<le> sf_now s \<and>
     ex \<le> t0 + in_cacheTTL (sf_intro s) \<and> (0 < cl_Exp cl \<longrightarrow> ex \<le> claims_expiry (cl_Exp cl)))"

definition window_ok :: "duration \<Rightarrow> (string \<times> instant \<times> claims) set \<Rightarrow> string \<times> instant \<times> claims \<Rightarrow> bool" where
  "window_ok ttl lg x = (case x of (key, t, cl) \<Rightarrow>
     (\<exists>t0. (key, t0, cl) \<in> lg \<and> t0 \<le> t \<and> t < t0 + ttl) \<and> (0 < cl_Exp cl \<longrightarrow> t < claims_expiry (cl_Exp cl)))"

definition sf_inv :: "duration \<Rightarrow> sf_state \<Rightarrow> bool" where
  "sf_inv ttl s \<longleftrightarrow> in_cacheTTL (sf_intro s) = ttl \<and> wf_map (in_entries (sf_intro s)) \<and>
     (\<forall>k e. map_of (in_entries (sf_intro s)) k = Some e \<longrightarrow> backed s k (ie_Claims e) (ie_ExpiresAt e)) \<and>
     (\<forall>c k cl ex. sf_ready s c = Some (k, Inr (cl, ex)) \<longrightarrow> \<not> is_zero ex \<longrightarrow> backed s k cl ex) \<and>
     (\<forall>x \<in> sf_served s. window_ok ttl (sf_log s) x)"

lemma backed_mono:
  "backed s k cl ex \<Longrightarrow> sf_log s \<subseteq> sf_log s' \<Longrightarrow> sf_now s \<le> sf_now s' \<Longrightarrow>
   in_cacheTTL (sf_intro s') = in_cacheTTL (sf_intro s) \<Longrightarrow> backed s' k cl ex"
  unfolding backed_def
  by (elim exE conjE, rule exI, intro conjI, erule (1) subsetD, erule (1) order_trans) simp_all

lemma window_ok_mono: "window_ok ttl lg x \<Longrightarrow> lg \<subseteq> lg' \<Longrightarrow> window_ok ttl lg' x"
  by (auto simp: window_ok_def)

text \<open>A step that only adds to the log, moves the clock on and drops entries and results keeps it.\<close>

lemma sf_inv_weaken:
  assumes "sf_inv ttl s" and "sf_log s \<subseteq> sf_log s'" and "sf_now s \<le> sf_now s'"
    and "in_cacheTTL (sf_intro s') = in_cacheTTL (sf_intro s)" and "wf_map (in_entries (sf_intro s'))"
    and "\<And>k e. map_of (in_entries (sf_intro s')) k = Some e \<Longrightarrow>
      map_of (in_entries (sf_intro s)) k = Some e \<or> backed s' k (ie_Claims e) (ie_ExpiresAt e)"
    and "\<And>c k cl ex. sf_ready s' c = Some (k, Inr (cl, ex)) \<Longrightarrow> \<not> is_zero ex \<Longrightarrow>
      sf_ready s c = Some (k, Inr (cl, ex)) \<or> backed s' k cl ex"
    and "\<And>x. x \<in> sf_served s' \<Longrightarrow> x \<in> sf_served s \<or> window_ok ttl (sf_log s') x"
  shows "sf_inv ttl s'"
proof -
  have mono: "backed s k cl ex \<Longrightarrow> backed s' k cl ex" for k cl ex
    by (rule backed_mono [OF _ assms(2-4)])
  have "backed s' k (ie_Claims e) (ie_ExpiresAt e)" if "map_of (in_entries (sf_intro s')) k = Some e" for k e
    using assms(1) assms(6) [OF that] that mono unfolding sf_inv_def by blast
  moreover have "backed s' k cl ex" if "sf_ready s' c = Some (k, Inr (cl, ex))" "\<not> is_zero ex" for c k cl ex
    using assms(1) assms(7) [OF that] that mono unfolding sf_inv_def by blast
  moreover have "window_ok ttl (sf_log s') x" if "x \<in> sf_served s'" for x
    using assms(1,2) assms(8) [OF that] window_ok_mono unfolding sf_inv_def by blast
  ultimately show ?thesis
    using assms(1,4,5) by (auto simp: sf_inv_def)
qed

lemma sf_inv_probe:
  assumes "sf_inv ttl s" and "introspect_probe (sf_intro s) key (sf_now s) = (r, i')"
  shows "in_entries i' = in_entries (sf_intro s)" and "in_cacheTTL i' = in_cacheTTL (sf_intro s)"
    and "r = Some e \<Longrightarrow> window_ok ttl (sf_log s) (key, sf_now s, ie_Claims e)"
proof -
  show "in_entries i' = in_entries (sf_intro s)" and "in_cacheTTL i' = in_cacheTTL (sf_intro s)"
    using introspect_probe_simps [of "sf_intro s" key "sf_now s"] assms(2) by simp_all
  assume "r = Some e"
  with assms(2) have "map_of (in_entries (sf_intro s)) key = Some e" and lt: "sf_now s < ie_ExpiresAt e"
    using introspect_probe_Some [of "sf_intro s" key "sf_now s" e] by (simp_all add: in_lookup_Some)
  with assms(1) have "backed s key (ie_Claims e) (ie_ExpiresAt e)" and "in_cacheTTL (sf_intro s) = ttl"
    by (auto simp: sf_inv_def)
  with lt show "window_ok ttl (sf_log s) (key, sf_now s, ie_Claims e)"
    by (fastforce simp: backed_def window_ok_def)
qed

lemma sf_inv_land:
  assumes inv: "sf_inv ttl s" and out: "introspection_outcome (sf_intro s) began (sf_now s) ke ans = (res, i')"
  shows "sf_inv ttl (sf_land s key ans res i')"
proof (rule sf_inv_weaken [OF inv])
  have i': "in_entries i' = in_entries (sf_intro s)" "in_cacheTTL i' = in_cacheTTL (sf_intro s)"
    using introspection_outcome_simps [of "sf_intro s" began "sf_now s" ke ans] out by simp_all
  show "in_cacheTTL (sf_intro (sf_land s key ans res i')) = in_cacheTTL (sf_intro s)"
    and "wf_map (in_entries (sf_intro (sf_land s key ans res i')))"
    using inv i' by (simp_all add: sf_land_def sf_inv_def)
  show "map_of (in_entries (sf_intro (sf_land s key ans res i'))) k = Some e \<Longrightarrow>
      map_of (in_entries (sf_intro s)) k = Some e \<or>
      backed (sf_land s key ans res i') k (ie_Claims e) (ie_ExpiresAt e)" for k e
    using i' by (simp add: sf_land_def)
  fix c k cl ex
  assume ready: "sf_ready (sf_land s key ans res i') c = Some (k, Inr (cl, ex))" and nz: "\<not> is_zero ex"
  show "sf_ready s c = Some (k, Inr (cl, ex)) \<or> backed (sf_land s key ans res i') k cl ex"
  proof (cases "sf_waiting s c = Some key")
    case False
    with ready show ?thesis by (simp add: sf_land_def)
  next
    case True
    with ready have res: "res = Inr (cl, ex)" and k: "k = key" by (simp_all add: sf_land_def)
    with out introspection_outcome_Inr have ex: "ex = effectiveExpiry (sf_intro s) (sf_now s) ke (cl_Exp cl)"
      and ans: "ans = Answered 200 (Inr \<lparr>ir_claims = cl, ir_active = True\<rparr>)"
      by (metis fst_conv)+
    have "backed (sf_land s key ans res i') k cl ex"
      unfolding backed_def
      using effectiveExpiry_bounds [of "sf_intro s" "sf_now s" ke "cl_Exp cl"] nz i'
      by (intro exI [of _ "sf_now s"]) (auto simp: sf_land_def res k ans ex [symmetric])
    then show ?thesis ..
  qed
qed (auto simp: sf_land_def)

lemma sf_inv_receive:
  assumes inv: "sf_inv ttl s" and ready: "sf_ready s c = Some (key, res)"
    and rec: "introspect_receive (sf_intro s) key res = (r, i')"
  shows "sf_inv ttl (s\<lparr>sf_intro := i', sf_ready := (sf_ready s)(c := None)\<rparr>)"
proof -
  consider "i' = sf_intro s"
    | cl ex where "res = Inr (cl, ex)" "\<not> is_zero ex" "i' = in_store (sf_intro s) key \<lparr>ie_Claims = cl, ie_ExpiresAt = ex\<rparr>"
    using rec by (auto simp: introspect_receive_def split: sum.splits if_splits)
  then show ?thesis
  proof cases
    case 1
    with inv show ?thesis by (intro sf_inv_weaken [OF inv]) (auto simp: sf_inv_def split: if_splits)
  next
    case 2
    with inv ready have "backed s key cl ex" by (auto simp: sf_inv_def)
    with 2 inv show ?thesis
      by (intro sf_inv_weaken [OF inv])
        (auto simp: in_store_def sf_inv_def backed_def split: if_splits)
  qed
qed

lemma sf_inv_step: "sf_step sha256 s s' \<Longrightarrow> sf_inv ttl s \<Longrightarrow> sf_inv ttl s'"
proof (induction rule: sf_step.induct)
  case (hit s c token e i')
  note probe = sf_inv_probe [OF hit(4,3)]
  show ?case
    by (rule sf_inv_weaken [OF hit(4)]) (use hit(4) probe in \<open>auto simp: sf_inv_def\<close>)
next
  case (start s c token i' ke)
  note probe = sf_inv_probe [OF start(5,3)]
  show ?case
    by (rule sf_inv_weaken [OF start(5)]) (use start(5) probe in \<open>auto simp: sf_inv_def\<close>)
next
  case (join s c token i')
  note probe = sf_inv_probe [OF join(5,3)]
  show ?case
    by (rule sf_inv_weaken [OF join(5)]) (use join(5) probe in \<open>auto simp: sf_inv_def\<close>)
next
  case (land s key token ke began ans res i')
  then show ?case by (blast intro: sf_inv_land)
next
  case (receive s c key res r i')
  then show ?case by (blast intro: sf_inv_receive)
next
  case (evict s)
  then show ?case
    by (intro sf_inv_weaken [OF evict])
      (auto simp: sf_inv_def in_evict_simps map_of_filter_value split: option.splits if_splits)
next
  case (tick s t)
  then show ?case by (intro sf_inv_weaken [OF tick(2)]) (auto simp: sf_inv_def)
next
  case (cancel s c)
  then show ?case by (intro sf_inv_weaken [OF cancel(2)]) (auto simp: sf_inv_def split: if_splits)
next
  case (clear s)
  then show ?case by (intro sf_inv_weaken [OF clear]) (auto simp: sf_inv_def)
qed

interpretation cache_window: preserved "sf_step sha256" "sf_inv ttl" for sha256 ttl
  by unfold_locales (rule sf_inv_step)

lemma sf_reachable_inv:
  assumes "sf_reachable sha256 i t s" and "in_entries i = []"
  shows "sf_inv (in_cacheTTL i) s"
  using assms(1) unfolding sf_reachable_def
  by (rule cache_window.reachable_keeps) (simp add: sf_inv_def sf_init_def assms(2))

section \<open>Properties\<close>

text \<open>
  The expiry of a cached answer is the least of now + CacheTTL, the known expiry of the token
  when there is one, and the exp claim of the answer when it has one; when that is not in the
  future, or caching is off, the answer is not cached.
\<close>

lemma effective_expiry_shortest:
  "effectiveExpiry i now ke x =
     (let m = Min ({now + in_cacheTTL i} \<union> (if is_zero ke then {} else {ke}) \<union>
                   (if 0 < x then {claims_expiry x} else {}))
      in if 0 < in_cacheTTL i \<and> now < m then m else zero_time)"
  by (auto simp: effectiveExpiry_def Let_def clock_simps min_def)

text \<open>What the answer of the issuer becomes: a documented error, or the claims of an active token with their expiry.\<close>

lemma introspection_outcome_cases:
  assumes "introspection_outcome i start now ke ans = (res, i')"
  obtains (failed) e where "res = Inl e" "errors_is e ErrIntrospectionFailed \<or> errors_is e ErrInvalidIntrospectionResponse \<or>
      e = ErrAccessTokenInactive"
  | (active) cl where "res = Inr (cl, effectiveExpiry i now ke (cl_Exp cl))"
      "ans = Answered 200 (Inr \<lparr>ir_claims = cl, ir_active = True\<rparr>)"
proof (cases res)
  case (Inl e)
  then show thesis
    using assms by (intro failed [of e])
      (auto simp: introspection_outcome_def Let_def split: introspect_answer.splits sum.splits if_splits)
next
  case (Inr p)
  then show thesis
    using introspection_outcome_Inr [of i start now ke ans "fst p" "snd p"] assms by (intro active [of "fst p"]) (auto simp: prod_eq_iff)
qed

lemma effectiveExpiry_cached: "\<not> is_zero (effectiveExpiry i now ke x) \<Longrightarrow> 0 < in_cacheTTL i"
  by (auto simp: effectiveExpiry_def clock_simps split: if_splits)

text \<open>
  A call of Introspect with no other caller around. An error changes no cache entry and is one
  of the documented ones. Claims are returned only from a live cache entry, with no request made,
  or from a 200 answer that says active; only the latter is stored, under the token's key alone, for
  the effective expiry.
\<close>

lemma introspect_sequential:
  "case Introspect sha256 send now ctx_first i token ke w of (r, i', w') \<Rightarrow>
     (case r of
        Inl e \<Rightarrow> in_entries i' = in_entries i \<and>
          (errors_is e ErrIntrospectionFailed \<or> errors_is e ErrInvalidIntrospectionResponse \<or>
           e = ErrAccessTokenInactive \<or> ctx_first w' = Some e)
      | Inr cl \<Rightarrow> token \<noteq> [] \<and>
          ((\<exists>e. 0 < in_cacheTTL i \<and> in_lookup i (sha256 token) (now w) = Some e \<and> cl = ie_Claims e \<and>
              in_entries i' = in_entries i \<and> w' = w) \<or>
           (\<exists>body. fst (send (introspect_request_for i token) w) = Answered 200 (Inr body) \<and>
              ir_active body \<and> cl = ir_claims body \<and>
              map_of (in_entries i') =
                (let ex = effectiveExpiry i (now w') ke (cl_Exp cl) in
                 if is_zero ex then map_of (in_entries i)
                 else (map_of (in_entries i))(sha256 token \<mapsto> \<lparr>ie_Claims = cl, ie_ExpiresAt = ex\<rparr>)))))"
proof (cases "token = []")
  case True
  then show ?thesis by (simp add: Introspect_def)
next
  case False
  obtain r1 i1 where pr: "introspect_probe i (sha256 token) (now w) = (r1, i1)" by force
  have i1: "in_entries i1 = in_entries i" "in_cacheTTL i1 = in_cacheTTL i"
    "introspect_request_for i1 token = introspect_request_for i token"
    "effectiveExpiry i1 = effectiveExpiry i"
    using pr by (auto simp: introspect_probe_def introspect_request_for_def effectiveExpiry_def fun_eq_iff
        split: if_splits option.splits)
  show ?thesis
  proof (cases r1)
    case (Some e)
    with pr have "0 < in_cacheTTL i \<and> in_lookup i (sha256 token) (now w) = Some e"
      using introspect_probe_Some [of i "sha256 token" "now w" e] by simp
    with Some pr i1 False show ?thesis by (simp add: Introspect_def)
  next
    case None
    obtain ans w' where sd: "send (introspect_request_for i token) w = (ans, w')" by force
    obtain res i2 where out: "introspection_outcome i1 (now w) (now w') ke ans = (res, i2)" by force
    have i2: "in_entries i2 = in_entries i" "in_cacheTTL i2 = in_cacheTTL i"
      using introspection_outcome_simps [of i1 "now w" "now w'" ke ans] out i1 by simp_all
    have go: "Introspect sha256 send now ctx_first i token ke w =
        (case ctx_first w' of Some e \<Rightarrow> (Inl e, i2, w')
         | None \<Rightarrow> (case introspect_receive i2 (sha256 token) res of (r, i3) \<Rightarrow> (r, i3, w')))"
      using False pr None sd out i1 by (simp add: Introspect_def doIntrospect_def)
    from out show ?thesis
    proof (cases rule: introspection_outcome_cases)
      case (failed e)
      with go i2 show ?thesis by (auto simp: introspect_receive_def split: option.split)
    next
      case (active cl)
      with go i2 i1(4) sd False effectiveExpiry_cached [of i "now w'" ke "cl_Exp cl"] show ?thesis
        by (auto simp: introspect_receive_def Let_def split: option.split)
    qed
  qed
qed

text \<open>
  C15: the revocation window, with any number of callers, coalesced requests, late receivers,
  cancellations, evictions and cache clears interleaved: claims served from the cache at t rest on
  an answer of the issuer for the same key that said active at some t0 with t0 <= t < t0 + CacheTTL,
  and are not served at or after the exp claim.
\<close>

theorem revocation_window:
  assumes "NewIntrospector cfg = Inr i" and "sf_reachable sha256 i start s"
    and "(key, t, cl) \<in> sf_served s"
  shows "(\<exists>t0. (key, t0, cl) \<in> sf_log s \<and> t0 \<le> t \<and> t < t0 + ic_CacheTTL cfg) \<and>
    (0 < cl_Exp cl \<longrightarrow> t < claims_expiry (cl_Exp cl))"
proof -
  have i: "in_entries i = []" "in_cacheTTL i = ic_CacheTTL cfg"
    using assms(1) by (auto simp: NewIntrospector_def Let_def split: if_splits)
  from sf_reachable_inv [OF assms(2) i(1)] assms(3) show ?thesis
    by (fastforce simp: sf_inv_def window_ok_def i)
qed

text \<open>One caller introspects, receives the answer and asks again ten seconds later.\<close>

definition demo_introspector :: introspector where
  "demo_introspector = \<lparr>in_endpoint = ''e'', in_clientID = ''c'', in_clientSecret = ''s'', in_timeout = 10 * Second,
     in_cacheTTL = Minute, in_onEvent = False, in_events = [], in_entries = [], in_stop = False, in_cleaner = True\<rparr>"

definition demo_entry :: introspection_cache_entry where
  "demo_entry = \<lparr>ie_Claims = no_claims, ie_ExpiresAt = Minute\<rparr>"

lemma demo_trace:
  "sf_reachable (\<lambda>x. x) demo_introspector 0
     \<lparr>sf_intro = in_store demo_introspector ''t'' demo_entry, sf_now = 10 * Second,
      sf_flights = Map.empty, sf_waiting = Map.empty, sf_ready = Map.empty,
      sf_log = {(''t'', 0, no_claims)}, sf_served = {(''t'', 10 * Second, no_claims)}\<rparr>"
proof -
  let ?i = demo_introspector and ?res = "Inr (no_claims, Minute) :: introspection_result"
  let ?i' = "in_store demo_introspector ''t'' demo_entry"
  let ?ans = "Answered 200 (Inr \<lparr>ir_claims = no_claims, ir_active = True\<rparr>)"
  let ?st = "\<lambda>i now fl wt rd lg sv. \<lparr>sf_intro = i, sf_now = now, sf_flights = fl, sf_waiting = wt, sf_ready = rd,
      sf_log = lg, sf_served = sv\<rparr> :: sf_state"
  let ?R = "sf_reachable (\<lambda>x. x) ?i 0"
  let ?s0 = "?st ?i 0 Map.empty Map.empty Map.empty {} {}"
  let ?s1 = "?st ?i 0 [''t'' \<mapsto> (''t'', 0)] [0 \<mapsto> ''t''] Map.empty {} {}"
  let ?s2 = "?st ?i 0 Map.empty Map.empty [0 \<mapsto> (''t'', ?res)] {(''t'', 0, no_claims)} {}"
  let ?s3 = "?st ?i' 0 Map.empty Map.empty Map.empty {(''t'', 0, no_claims)} {}"
  let ?s4 = "?st ?i' (10 * Second) Map.empty Map.empty Map.empty {(''t'', 0, no_claims)} {}"
  let ?s5 = "?st ?i' (10 * Second) Map.empty Map.empty Map.empty {(''t'', 0, no_claims)} {(''t'', 10 * Second, no_claims)}"
  have s0: "?R ?s0"
    by (simp add: sf_reachable_def sf_init_def)
  have "introspect_probe ?i ''t'' 0 = (None, ?i)"
    by (simp add: introspect_probe_def in_lookup_def demo_introspector_def emit_def clock_simps)
  then have s1: "sf_step (\<lambda>x. x) ?s0 ?s1"
    using sf_step.start [of ?s0 0 "''t''" "\<lambda>x. x" ?i 0] by (simp add: idle_def)
  have "introspection_outcome ?i 0 0 0 ?ans = (?res, ?i)"
    by (simp add: introspection_outcome_def effectiveExpiry_def demo_introspector_def emit_def no_claims_def clock_simps)
  moreover have "sf_land ?s1 ''t'' ?ans ?res ?i = ?s2"
    by (simp add: sf_land_def fun_eq_iff)
  ultimately have s2: "sf_step (\<lambda>x. x) ?s1 ?s2"
    using sf_step.land [of ?s1 "''t''" "''t''" 0 0 ?ans ?res ?i "\<lambda>x. x"] by simp
  have "introspect_receive ?i ''t'' ?res = (Inr no_claims, ?i')"
    by (simp add: introspect_receive_def demo_introspector_def demo_entry_def clock_simps)
  then have s3: "sf_step (\<lambda>x. x) ?s2 ?s3"
    using sf_step.receive [of ?s2 0 "''t''" ?res "Inr no_claims" ?i' "\<lambda>x. x"] by simp
  have s4: "sf_step (\<lambda>x. x) ?s3 ?s4"
    using sf_step.tick [of ?s3 "10 * Second" "\<lambda>x. x"] by (simp add: clock_simps)
  have "introspect_probe ?i' ''t'' (10 * Second) = (Some demo_entry, ?i')"
    by (simp add: introspect_probe_def in_lookup_store demo_introspector_def demo_entry_def emit_def in_store_def clock_simps in_lookup_def)
  then have s5: "sf_step (\<lambda>x. x) ?s4 ?s5"
    using sf_step.hit [of ?s4 0 "''t''" "\<lambda>x. x" demo_entry ?i'] by (simp add: idle_def demo_entry_def)
  from s0 s1 s2 s3 s4 s5 show ?thesis unfolding sf_reachable_def by (meson rtranclp.rtrancl_into_rtrancl)
qed

theorem revocation_window_witness:
  "(\<exists>t0. (''t'', t0, no_claims) \<in> {(''t'', 0, no_claims)} \<and> t0 \<le> 10 * Second \<and> 10 * Second < t0 + Minute) \<and>
   sf_reachable (\<lambda>x. x) demo_introspector 0
     \<lparr>sf_intro = in_store demo_introspector ''t'' demo_entry, sf_now = 10 * Second,
      sf_flights = Map.empty, sf_waiting = Map.empty, sf_ready = Map.empty,
      sf_log = {(''t'', 0, no_claims)}, sf_served = {(''t'', 10 * Second, no_claims)}\<rparr>"
proof -
  have "NewIntrospector \<lparr>ic_Endpoint = ''e'', ic_ClientID = ''c'', ic_ClientSecret = ''s'', ic_HTTPTimeout = 0,
      ic_CacheTTL = Minute, ic_OnEvent = False\<rparr> = Inr demo_introspector"
    by (simp add: NewIntrospector_def demo_introspector_def defaultIntrospectionHTTPTimeout_def clock_simps)
  from revocation_window [OF this demo_trace, of "''t''" "10 * Second" no_claims] demo_trace
  show ?thesis by simp
qed

section \<open>Every caller is answered\<close>

text \<open>
  The two actions a caller waits for: the end of the request for its key, with whatever answer, and its
  own receive. The HTTP client's timeout ends every request, so the first is treated fairly.
\<close>

definition sf_lands :: "string \<Rightarrow> sf_state \<Rightarrow> sf_state \<Rightarrow> bool" where
  "sf_lands key s s' \<longleftrightarrow> (\<exists>token ke began ans res i'. sf_flights s key = Some (token, ke) \<and> began \<le> sf_now s \<and>
     introspection_outcome (sf_intro s) began (sf_now s) ke ans = (res, i') \<and> s' = sf_land s key ans res i')"

definition sf_receives :: "nat \<Rightarrow> sf_state \<Rightarrow> sf_state \<Rightarrow> bool" where
  "sf_receives c s s' \<longleftrightarrow> (\<exists>key res r i'. sf_ready s c = Some (key, res) \<and>
     introspect_receive (sf_intro s) key res = (r, i') \<and> s' = s\<lparr>sf_intro := i', sf_ready := (sf_ready s)(c := None)\<rparr>)"

text \<open>Nobody waits for a request that is not under way.\<close>

definition waits_in_flight :: "sf_state \<Rightarrow> bool" where
  "waits_in_flight s \<longleftrightarrow> (\<forall>c key. sf_waiting s c = Some key \<longrightarrow> sf_flights s key \<noteq> None)"

lemma waits_in_flight_step: "waits_in_flight s \<Longrightarrow> sf_step sha256 s s' \<Longrightarrow> waits_in_flight s'"
  by (erule sf_step.cases) (auto simp: waits_in_flight_def sf_land_def split: if_splits)

definition waits_or_ready :: "sf_state \<Rightarrow> bool" where
  "waits_or_ready s \<longleftrightarrow> (\<forall>c. sf_waiting s c = None \<or> sf_ready s c = None)"

lemma waits_or_ready_step: "waits_or_ready s \<Longrightarrow> sf_step sha256 s s' \<Longrightarrow> waits_or_ready s'"
  by (erule sf_step.cases) (auto simp: waits_or_ready_def sf_land_def idle_def)

interpretation landing: helpful "sf_step sha256" waits_in_flight "sf_lands key"
  "\<lambda>s. sf_waiting s c = Some key" "\<lambda>s. sf_ready s c \<noteq> None \<or> idle s c" for sha256 key c
proof
  show "waits_in_flight s \<Longrightarrow> sf_waiting s c = Some key \<Longrightarrow> sf_step sha256 s s' \<Longrightarrow>
      sf_waiting s' c = Some key \<or> sf_ready s' c \<noteq> None \<or> idle s' c" for s s'
    by (erule sf_step.cases) (auto simp: sf_land_def idle_def)
  show "enabled_in (sf_lands key) s" if "waits_in_flight s" "sf_waiting s c = Some key" for s
  proof -
    from that obtain token ke where "sf_flights s key = Some (token, ke)" by (force simp: waits_in_flight_def)
    moreover obtain res i' where "introspection_outcome (sf_intro s) (sf_now s) (sf_now s) ke (DoFailed (Foreign 0)) = (res, i')"
      by fastforce
    ultimately show ?thesis unfolding enabled_in_def sf_lands_def by blast
  qed
  show "waits_in_flight s \<Longrightarrow> sf_waiting s c = Some key \<Longrightarrow> sf_lands key s s' \<Longrightarrow>
      sf_ready s' c \<noteq> None \<or> idle s' c" for s s'
    by (auto simp: sf_lands_def sf_land_def)
qed (rule waits_in_flight_step)

interpretation receiving: helpful "sf_step sha256" waits_or_ready "sf_receives c"
  "\<lambda>s. sf_ready s c \<noteq> None" "\<lambda>s. idle s c" for sha256 c
proof
  show "waits_or_ready s \<Longrightarrow> sf_ready s c \<noteq> None \<Longrightarrow> sf_step sha256 s s' \<Longrightarrow> sf_ready s' c \<noteq> None \<or> idle s' c" for s s'
    by (erule sf_step.cases) (auto simp: waits_or_ready_def sf_land_def idle_def)
  show "enabled_in (sf_receives c) s" if "sf_ready s c \<noteq> None" for s
  proof -
    from that obtain key res where "sf_ready s c = Some (key, res)" by auto
    moreover obtain r i' where "introspect_receive (sf_intro s) key res = (r, i')" by fastforce
    ultimately show ?thesis unfolding enabled_in_def sf_receives_def by blast
  qed
  show "waits_or_ready s \<Longrightarrow> sf_ready s c \<noteq> None \<Longrightarrow> sf_receives c s s' \<Longrightarrow> idle s' c" for s s'
    by (auto simp: sf_receives_def idle_def waits_or_ready_def)
qed (rule waits_or_ready_step)


text \<open>Two callers: the one that started the request cancels, the answer still reaches the other.\<close>

definition demo_flight_at :: "(string \<Rightarrow> (string \<times> instant) option) \<Rightarrow> (nat \<Rightarrow> string option) \<Rightarrow>
    (nat \<Rightarrow> (string \<times> introspection_result) option) \<Rightarrow> sf_state" where
  "demo_flight_at fl wt rd = (sf_init demo_introspector 0)\<lparr>sf_flights := fl, sf_waiting := wt, sf_ready := rd\<rparr>"

definition demo_flight :: "sf_state list" where
  "demo_flight =
     [sf_init demo_introspector 0,
      demo_flight_at [''t'' \<mapsto> (''t'', 0)] [0 \<mapsto> ''t''] Map.empty,
      demo_flight_at [''t'' \<mapsto> (''t'', 0)] [0 \<mapsto> ''t'', 1 \<mapsto> ''t''] Map.empty,
      demo_flight_at [''t'' \<mapsto> (''t'', 0)] [1 \<mapsto> ''t''] Map.empty,
      demo_flight_at Map.empty Map.empty [1 \<mapsto> (''t'', Inl ErrAccessTokenInactive)],
      sf_init demo_introspector 0]"

lemma demo_flight_steps:
  "sf_step (\<lambda>x. x) (sf_init demo_introspector 0) (demo_flight_at [''t'' \<mapsto> (''t'', 0)] [0 \<mapsto> ''t''] Map.empty)"
  "sf_step (\<lambda>x. x) (demo_flight_at [''t'' \<mapsto> (''t'', 0)] [0 \<mapsto> ''t''] Map.empty)
     (demo_flight_at [''t'' \<mapsto> (''t'', 0)] [0 \<mapsto> ''t'', 1 \<mapsto> ''t''] Map.empty)"
  "sf_step (\<lambda>x. x) (demo_flight_at [''t'' \<mapsto> (''t'', 0)] [0 \<mapsto> ''t'', 1 \<mapsto> ''t''] Map.empty)
     (demo_flight_at [''t'' \<mapsto> (''t'', 0)] [1 \<mapsto> ''t''] Map.empty)"
  "sf_step (\<lambda>x. x) (demo_flight_at [''t'' \<mapsto> (''t'', 0)] [1 \<mapsto> ''t''] Map.empty)
     (demo_flight_at Map.empty Map.empty [1 \<mapsto> (''t'', Inl ErrAccessTokenInactive)])"
  "sf_step (\<lambda>x. x) (demo_flight_at Map.empty Map.empty [1 \<mapsto> (''t'', Inl ErrAccessTokenInactive)])
     (sf_init demo_introspector 0)"
proof -
  let ?i = demo_introspector and ?ans = "Answered 200 (Inr \<lparr>ir_claims = no_claims, ir_active = False\<rparr>)"
  have probe: "introspect_probe ?i ''t'' 0 = (None, ?i)"
    by (simp add: introspect_probe_def in_lookup_def demo_introspector_def emit_def clock_simps)
  have out: "introspection_outcome ?i 0 0 0 ?ans = (Inl ErrAccessTokenInactive, ?i)"
    by (simp add: introspection_outcome_def demo_introspector_def emit_def)
  note defs = demo_flight_at_def sf_init_def idle_def
  show "sf_step (\<lambda>x. x) (sf_init ?i 0) (demo_flight_at [''t'' \<mapsto> (''t'', 0)] [0 \<mapsto> ''t''] Map.empty)"
    using sf_step.start [of "sf_init ?i 0" 0 "''t''" "\<lambda>x. x" ?i 0] probe by (simp add: defs)
  show "sf_step (\<lambda>x. x) (demo_flight_at [''t'' \<mapsto> (''t'', 0)] [0 \<mapsto> ''t''] Map.empty)
     (demo_flight_at [''t'' \<mapsto> (''t'', 0)] [0 \<mapsto> ''t'', 1 \<mapsto> ''t''] Map.empty)"
    using sf_step.join [of "demo_flight_at [''t'' \<mapsto> (''t'', 0)] [0 \<mapsto> ''t''] Map.empty" 1 "''t''" "\<lambda>x. x" ?i] probe
    by (simp add: defs)
  show "sf_step (\<lambda>x. x) (demo_flight_at [''t'' \<mapsto> (''t'', 0)] [0 \<mapsto> ''t'', 1 \<mapsto> ''t''] Map.empty)
     (demo_flight_at [''t'' \<mapsto> (''t'', 0)] [1 \<mapsto> ''t''] Map.empty)"
    using sf_step.cancel [of "demo_flight_at [''t'' \<mapsto> (''t'', 0)] [0 \<mapsto> ''t'', 1 \<mapsto> ''t''] Map.empty" 0 "\<lambda>x. x"]
    by (simp add: defs fun_upd_twist)
  have "sf_land (demo_flight_at [''t'' \<mapsto> (''t'', 0)] [1 \<mapsto> ''t''] Map.empty) ''t'' ?ans (Inl ErrAccessTokenInactive) ?i =
      demo_flight_at Map.empty Map.empty [1 \<mapsto> (''t'', Inl ErrAccessTokenInactive)]"
    by (simp add: defs sf_land_def fun_eq_iff)
  then show "sf_step (\<lambda>x. x) (demo_flight_at [''t'' \<mapsto> (''t'', 0)] [1 \<mapsto> ''t''] Map.empty)
     (demo_flight_at Map.empty Map.empty [1 \<mapsto> (''t'', Inl ErrAccessTokenInactive)])"
    using sf_step.land [of "demo_flight_at [''t'' \<mapsto> (''t'', 0)] [1 \<mapsto> ''t''] Map.empty" "''t''" "''t''" 0 0 ?ans
        "Inl ErrAccessTokenInactive" ?i "\<lambda>x. x"] out by (simp add: defs)
  show "sf_step (\<lambda>x. x) (demo_flight_at Map.empty Map.empty [1 \<mapsto> (''t'', Inl ErrAccessTokenInactive)]) (sf_init ?i 0)"
    using sf_step.receive [of "demo_flight_at Map.empty Map.empty [1 \<mapsto> (''t'', Inl ErrAccessTokenInactive)]" 1 "''t''"
        "Inl ErrAccessTokenInactive" "Inl ErrAccessTokenInactive" ?i "\<lambda>x. x"]
    by (simp add: defs introspect_receive_def)
qed


end
