(* ===== verification/Oidc.thy ===== *)
theory Oidc
  imports MemoryCache Introspector
begin

text \<open>
  The token verifier of package \<^verbatim>\<open>oidcauth\<close> (\<^verbatim>\<open>src/oidcauth/oidc.go\<close>, \<^verbatim>\<open>src/oidcauth/helper.go\<close>): its
  construction, \<open>Verify\<close> over any cache that satisfies the cache interface, and the role and scope
  checks. The provider's discovery, the local signature check of go-oidc, the digest, the transport
  and the clock are parameters.
\<close>

section \<open>Configuration\<close>

definition defaultRequestTimeout :: duration where "defaultRequestTimeout = 30 * Second"

text \<open>\<open>parse_uri\<close> is \<^verbatim>\<open>url.ParseRequestURI\<close>: scheme and host, \<open>None\<close> for an error.\<close>

definition validateConfig :: "(string \<Rightarrow> (string \<times> string) option) \<Rightarrow> oidc_config \<Rightarrow> go_err + oidc_config" where
  "validateConfig parse_uri config =
     (if cf_RealmURL config = [] then Inl ErrInvalidRealmURL
      else if (case parse_uri (cf_RealmURL config) of
                 None \<Rightarrow> True
               | Some (scheme, host) \<Rightarrow> (scheme \<noteq> ''http'' \<and> scheme \<noteq> ''https'') \<or> host = [])
        then Inl ErrInvalidRealmURL
      else if cf_ClientID config = [] then Inl ErrEmptyClientID
      else if \<not> cf_DisableIntrospection config \<and> cf_ClientSecret config = [] then Inl ErrMissingClientSecret
      else if cf_IntrospectionCacheTTL config < 0 then
        Inl (Wrapped ''%w: introspection cache TTL cannot be negative'' [ErrInvalidOIDCConfiguration])
      else if cf_IntrospectionHTTPTimeout config < 0 then
        Inl (Wrapped ''%w: introspection HTTP timeout cannot be negative'' [ErrInvalidOIDCConfiguration])
      else
        (let c1 = (if cf_RequestTimeout config \<le> 0
                   then config\<lparr>cf_RequestTimeout := defaultRequestTimeout\<rparr> else config)
         in Inr (if cf_IntrospectionHTTPTimeout c1 = 0
                 then c1\<lparr>cf_IntrospectionHTTPTimeout := defaultIntrospectionHTTPTimeout\<rparr> else c1)))"

section \<open>The verifier\<close>

text \<open>The settings of go-oidc's \<open>IDTokenVerifier\<close>.\<close>

record id_token_verifier =
  iv_ClientID :: string
  iv_SkipClientIDCheck :: bool
  iv_SkipExpiryCheck :: bool
  iv_SkipIssuerCheck :: bool

record 'c oidc =
  oi_config :: oidc_config
  oi_verifier :: id_token_verifier
  oi_cache :: "'c option"
  oi_introspector :: "introspector option"

definition WithCache :: "'c \<Rightarrow> 'c oidc \<Rightarrow> 'c oidc" where
  "WithCache c o' = o'\<lparr>oi_cache := Some c\<rparr>"

text \<open>
  \<open>discover\<close> is \<^verbatim>\<open>oidc.NewProvider\<close>: an error, or the provider's \<open>introspection_endpoint\<close> (\<open>None\<close> when
  the metadata does not decode).
\<close>

definition NewOIDC ::
  "(string \<Rightarrow> (string \<times> string) option) \<Rightarrow> (string \<Rightarrow> go_err + string option) \<Rightarrow> oidc_config \<Rightarrow>
   ('c oidc \<Rightarrow> 'c oidc) list \<Rightarrow> go_err + 'c oidc"
where
  "NewOIDC parse_uri discover config0 opts =
     (case validateConfig parse_uri config0 of
        Inl e \<Rightarrow> Inl e
      | Inr config \<Rightarrow>
          (case discover (cf_RealmURL config) of
             Inl e \<Rightarrow> Inl (Wrapped ''%w: %w'' [ErrProviderInitFailed, e])
           | Inr provider \<Rightarrow>
               (let o' = \<lparr>oi_config = config,
                          oi_verifier = \<lparr>iv_ClientID = cf_ClientID config,
                             iv_SkipClientIDCheck = cf_SkipClientIDCheck config,
                             iv_SkipExpiryCheck = cf_SkipExpiryCheck config,
                             iv_SkipIssuerCheck = cf_SkipIssuerCheck config\<rparr>,
                          oi_cache = None, oi_introspector = None\<rparr>
                in if \<not> cf_DisableIntrospection config then
                     (case resolveIntrospectionEndpoint provider config of
                        Inl e \<Rightarrow> Inl e
                      | Inr endpoint \<Rightarrow>
                          (case NewIntrospector \<lparr>ic_Endpoint = endpoint, ic_ClientID = cf_ClientID config,
                                  ic_ClientSecret = cf_ClientSecret config,
                                  ic_HTTPTimeout = cf_IntrospectionHTTPTimeout config,
                                  ic_CacheTTL = cf_IntrospectionCacheTTL config, ic_OnEvent = False\<rparr> of
                             Inl e \<Rightarrow> Inl e
                           | Inr i \<Rightarrow> Inr (fold (\<lambda>opt. opt) opts (o'\<lparr>oi_introspector := Some i\<rparr>))))
                   else Inr (fold (\<lambda>opt. opt) opts o'))))"

definition oi_Close :: "'c oidc \<Rightarrow> 'c oidc" where
  "oi_Close o' = o'\<lparr>oi_introspector := map_option in_Close (oi_introspector o')\<rparr>"

text \<open>\<^verbatim>\<open>hex.EncodeToString\<close> and the cache key.\<close>

definition hex_digit :: "nat \<Rightarrow> char" where
  "hex_digit n = ''0123456789abcdef'' ! (n mod 16)"

definition hex_encode :: "string \<Rightarrow> string" where
  "hex_encode s = concat (map (\<lambda>c. [hex_digit (of_char c div 16), hex_digit (of_char c)]) s)"

definition hashToken :: "(string \<Rightarrow> string) \<Rightarrow> string \<Rightarrow> string" where
  "hashToken sha256 token = hex_encode (sha256 token)"

text \<open>
  What \<open>Verify\<close> calls: the digest, the two methods of the attached cache, go-oidc's local check (an
  error, or the decoded claims or decoding error with the token's expiry), the transport, the clock
  and the context.
\<close>

record ('c, 'w) oidc_env =
  ve_sha256 :: "string \<Rightarrow> string"
  ve_get :: "'c \<Rightarrow> string \<Rightarrow> instant \<Rightarrow> claims option"
  ve_set :: "'c \<Rightarrow> string \<Rightarrow> claims \<Rightarrow> instant \<Rightarrow> 'c"
  ve_local :: "id_token_verifier \<Rightarrow> string \<Rightarrow> 'w \<Rightarrow> (go_err + (go_err + claims) \<times> instant) \<times> 'w"
  ve_send :: "introspect_request \<Rightarrow> 'w \<Rightarrow> introspect_answer \<times> 'w"
  ve_now :: "'w \<Rightarrow> instant"
  ve_ctx :: "'w \<Rightarrow> go_err option"

definition NilDereference :: go_err where
  "NilDereference = Sentinel ''runtime error: invalid memory address or nil pointer dereference''"

text \<open>The local check: \<open>Inr None\<close> for a token that is not JWT-shaped.\<close>

definition verify_local ::
  "('c, 'w) oidc_env \<Rightarrow> 'c oidc \<Rightarrow> string \<Rightarrow> 'w \<Rightarrow> (go_err + (claims \<times> instant) option) \<times> 'w"
where
  "verify_local env o' token w =
     (if looksLikeJWT token then
        (case ve_local env (oi_verifier o') token w of
           (Inl e, w') \<Rightarrow> (Inl (Wrapped ''%w: %w'' [ErrTokenValidationFailed, e]), w')
         | (Inr (Inl e, expiry), w') \<Rightarrow> (Inl (Wrapped ''%w: %w'' [ErrTokenValidationFailed, e]), w')
         | (Inr (Inr cl, expiry), w') \<Rightarrow> (Inr (Some (cl, expiry)), w'))
      else (Inr None, w))"

text \<open>The remote check and the choice of the claims; a nil introspector is a nil dereference.\<close>

definition verify_remote ::
  "('c, 'w) oidc_env \<Rightarrow> 'c oidc \<Rightarrow> string \<Rightarrow> (claims \<times> instant) option \<Rightarrow> 'w \<Rightarrow> (go_err + claims) \<times> 'c oidc \<times> 'w"
where
  "verify_remote env o' token localClaims w =
     (if cf_DisableIntrospection (oi_config o') then
        (case localClaims of
           None \<Rightarrow> (Inl (Wrapped ''%w: token is opaque and introspection is disabled, so it cannot be verified''
                       [ErrTokenValidationFailed]), o', w)
         | Some (cl, _) \<Rightarrow> (Inr cl, o', w))
      else
        (case oi_introspector o' of
           None \<Rightarrow> (Inl NilDereference, o', w)
         | Some i \<Rightarrow>
             (case Introspect (ve_sha256 env) (ve_send env) (ve_now env) (ve_ctx env) i token
                     (case localClaims of None \<Rightarrow> zero_time | Some (_, expiry) \<Rightarrow> expiry) w of
                (res, i', w') \<Rightarrow>
                  (let o'' = o'\<lparr>oi_introspector := Some i'\<rparr> in
                   case res of
                     Inl e \<Rightarrow>
                       (Inl (if errors_is e ErrAccessTokenInactive then e
                             else Wrapped ''%w: %w'' [ErrTokenValidationFailed, e]), o'', w')
                   | Inr introspected \<Rightarrow>
                       (Inr (case localClaims of None \<Rightarrow> introspected | Some (cl, _) \<Rightarrow> cl), o'', w')))))"

definition Verify ::
  "('c, 'w) oidc_env \<Rightarrow> 'c oidc \<Rightarrow> string \<Rightarrow> 'w \<Rightarrow> (go_err + claims) \<times> 'c oidc \<times> 'w"
where
  "Verify env o' token w =
     (let now = ve_now env w; cacheKey = hashToken (ve_sha256 env) token in
      case (case oi_cache o' of None \<Rightarrow> None | Some c \<Rightarrow> ve_get env c cacheKey now) of
        Some cl \<Rightarrow> (Inr cl, o', w)
      | None \<Rightarrow>
          (case verify_local env o' token w of
             (Inl e, w1) \<Rightarrow> (Inl e, o', w1)
           | (Inr localClaims, w1) \<Rightarrow>
               (case verify_remote env o' token localClaims w1 of
                  (Inl e, o'', w2) \<Rightarrow> (Inl e, o'', w2)
                | (Inr cl, o'', w2) \<Rightarrow>
                    (Inr cl, o''\<lparr>oi_cache := map_option (\<lambda>c. ve_set env c cacheKey cl now) (oi_cache o'')\<rparr>, w2))))"

section \<open>Roles and scopes\<close>

definition oi_HasRole :: "'c oidc \<Rightarrow> claims \<Rightarrow> string \<Rightarrow> bool" where
  "oi_HasRole o' cl role =
     (case client_roles cl (cf_ClientID (oi_config o')) of None \<Rightarrow> False | Some rs \<Rightarrow> role \<in> set rs)"

definition HasScope :: "claims \<Rightarrow> string \<Rightarrow> bool" where
  "HasScope cl scope \<longleftrightarrow> scope \<in> set (strings_fields (cl_Scope cl))"

fun HasAllScopes :: "claims \<Rightarrow> string list \<Rightarrow> bool" where
  "HasAllScopes cl [] = True"
| "HasAllScopes cl (scope # scopes) = (if \<not> HasScope cl scope then False else HasAllScopes cl scopes)"

definition IsAuthorizedParty :: "claims \<Rightarrow> string \<Rightarrow> bool" where
  "IsAuthorizedParty cl azp \<longleftrightarrow> cl_Azp cl = azp"

section \<open>Lemmas\<close>

text \<open>A verifier that \<open>New\<close> returned has an introspector unless introspection is disabled.\<close>

definition oidc_wf :: "'c oidc \<Rightarrow> bool" where
  "oidc_wf o' \<longleftrightarrow> cf_DisableIntrospection (oi_config o') \<or> oi_introspector o' \<noteq> None"

lemma fold_WithCache:
  "oi_introspector (fold (\<lambda>opt. opt) (map WithCache cs) o') = oi_introspector o'"
  "oi_config (fold (\<lambda>opt. opt) (map WithCache cs) o') = oi_config o'"
  by (induction cs arbitrary: o') (simp_all add: WithCache_def)

lemma NewOIDC_wf: "NewOIDC parse_uri discover config (map WithCache cs) = Inr o' \<Longrightarrow> oidc_wf o'"
  by (auto simp: NewOIDC_def oidc_wf_def Let_def fold_WithCache split: sum.splits if_splits)

lemma verify_remote_keeps:
  assumes "verify_remote env o' token lc w = (r, o'', w')"
  shows "oi_cache o'' = oi_cache o'" and "oi_config o'' = oi_config o'" and "oidc_wf o' \<Longrightarrow> oidc_wf o''"
  using assms
  by (auto simp: verify_remote_def Let_def oidc_wf_def split: if_splits option.splits prod.splits sum.splits)

lemma verify_remote_Inr:
  assumes "verify_remote env o' token lc w = (Inr cl, o'', w')"
  shows "case lc of None \<Rightarrow> \<not> cf_DisableIntrospection (oi_config o') | Some (cl', _) \<Rightarrow> cl = cl'"
    and "\<not> cf_DisableIntrospection (oi_config o') \<Longrightarrow> \<exists>i cl' i'. oi_introspector o' = Some i \<and>
      Introspect (ve_sha256 env) (ve_send env) (ve_now env) (ve_ctx env) i token
        (case lc of None \<Rightarrow> zero_time | Some (_, expiry) \<Rightarrow> expiry) w = (Inr cl', i', w') \<and>
      (lc = None \<longrightarrow> cl = cl')"
  using assms
  by (auto simp: verify_remote_def Let_def split: if_splits option.splits prod.splits sum.splits)

lemma verify_remote_Inl:
  assumes "verify_remote env o' token lc w = (Inl e, o'', w')" and "oidc_wf o'"
  shows "errors_is e ErrTokenValidationFailed \<or> errors_is e ErrAccessTokenInactive"
  using assms
  by (auto simp: verify_remote_def Let_def oidc_wf_def split: if_splits option.splits prod.splits sum.splits)

lemma verify_local_Inl:
  "verify_local env o' token w = (Inl e, w') \<Longrightarrow> errors_is e ErrTokenValidationFailed"
  by (auto simp: verify_local_def split: if_splits prod.splits sum.splits)

lemma verify_local_Inr_iff:
  "verify_local env o' token w = (Inr lc, w') \<longleftrightarrow>
   (case lc of None \<Rightarrow> \<not> looksLikeJWT token \<and> w' = w
    | Some (cl, expiry) \<Rightarrow> looksLikeJWT token \<and> ve_local env (oi_verifier o') token w = (Inr (Inr cl, expiry), w'))"
  by (auto simp: verify_local_def split: if_splits prod.splits sum.splits option.splits)

lemmas verify_local_Inr = verify_local_Inr_iff [THEN iffD1]

lemma verify_remote_Inr_iff:
  "fst (verify_remote env o' token lc w) = Inr cl \<longleftrightarrow>
   (if cf_DisableIntrospection (oi_config o') then \<exists>expiry. lc = Some (cl, expiry)
    else \<exists>i cl'. oi_introspector o' = Some i \<and>
      fst (Introspect (ve_sha256 env) (ve_send env) (ve_now env) (ve_ctx env) i token
        (case lc of None \<Rightarrow> zero_time | Some (_, expiry) \<Rightarrow> expiry) w) = Inr cl' \<and>
      cl = (case lc of None \<Rightarrow> cl' | Some (cl'', _) \<Rightarrow> cl''))"
  by (auto simp: verify_remote_def Let_def split: option.splits prod.splits sum.splits)

text \<open>The four ways a call of \<open>Verify\<close> goes.\<close>

lemma Verify_cases:
  obtains (hit) c cl where "oi_cache o' = Some c"
      "ve_get env c (hashToken (ve_sha256 env) token) (ve_now env w) = Some cl" "Verify env o' token w = (Inr cl, o', w)"
  | (local_failed) e w1 where "verify_local env o' token w = (Inl e, w1)" "Verify env o' token w = (Inl e, o', w1)"
  | (remote_failed) lc w1 e o'' w2 where "verify_local env o' token w = (Inr lc, w1)"
      "verify_remote env o' token lc w1 = (Inl e, o'', w2)" "Verify env o' token w = (Inl e, o'', w2)"
  | (verified) lc w1 cl o'' w2 where "verify_local env o' token w = (Inr lc, w1)"
      "verify_remote env o' token lc w1 = (Inr cl, o'', w2)"
      "Verify env o' token w = (Inr cl, o''\<lparr>oi_cache := map_option (\<lambda>c. ve_set env c
         (hashToken (ve_sha256 env) token) cl (ve_now env w)) (oi_cache o')\<rparr>, w2)"
proof -
  let ?look = "case oi_cache o' of None \<Rightarrow> None | Some c \<Rightarrow> ve_get env c (hashToken (ve_sha256 env) token) (ve_now env w)"
  show thesis
  proof (cases ?look)
    case (Some cl)
    then obtain c where "oi_cache o' = Some c"
      and "ve_get env c (hashToken (ve_sha256 env) token) (ve_now env w) = Some cl"
      by (auto split: option.splits)
    then show thesis by (intro hit) (auto simp: Verify_def Let_def)
  next
    case None
    obtain r1 w1 where l: "verify_local env o' token w = (r1, w1)" by force
    show thesis
    proof (cases r1)
      case (Inl e)
      with l None show thesis by (intro local_failed) (auto simp: Verify_def Let_def)
    next
      case (Inr lc)
      obtain r o'' w2 where rm: "verify_remote env o' token lc w1 = (r, o'', w2)" by (cases "verify_remote env o' token lc w1")
      show thesis
      proof (cases r)
        case (Inl e)
        with l rm Inr None show thesis by (intro remote_failed) (auto simp: Verify_def Let_def)
      next
        case (Inr cl)
        with l rm \<open>r1 = Inr lc\<close> None verify_remote_keeps(1) [OF rm] show thesis
          by (intro verified) (auto simp: Verify_def Let_def)
      qed
    qed
  qed
qed

text \<open>Over any cache that keeps its contract, a verified token is answered from the cache until the
  store forgets it, without a local check or a request.\<close>

context claims_cache
begin

lemma verify_replay:
  assumes "invar c" and "oi_cache o' = Some c" and "ve_get env = get" and "ve_set env = set"
    and miss: "get c (hashToken (ve_sha256 env) token) (ve_now env w) = None"
    and ok: "Verify env o' token w = (Inr cl, o1, w1)"
  shows "\<exists>c1. oi_cache o1 = Some c1 \<and> invar c1 \<and>
    (\<forall>t. get c1 (hashToken (ve_sha256 env) token) t =
       (if t < fresh_until c cl (ve_now env w) then Some cl else None)) \<and>
    (\<forall>w2. ve_now env w2 < fresh_until c cl (ve_now env w) \<longrightarrow> Verify env o1 token w2 = (Inr cl, o1, w2))"
proof (rule Verify_cases [of o' env token w])
  fix lc w1' cl' o'' w2
  assume "verify_local env o' token w = (Inr lc, w1')"
    and rm: "verify_remote env o' token lc w1' = (Inr cl', o'', w2)"
    and v: "Verify env o' token w = (Inr cl', o''\<lparr>oi_cache := map_option (\<lambda>c. ve_set env c
         (hashToken (ve_sha256 env) token) cl' (ve_now env w)) (oi_cache o')\<rparr>, w2)"
  let ?k = "hashToken (ve_sha256 env) token" and ?t = "ve_now env w"
  from v ok assms(2,4) have c1: "oi_cache o1 = Some (set c ?k cl ?t)" by auto
  have g: "get (set c ?k cl ?t) ?k t = (if t < fresh_until c cl ?t then Some cl else None)" for t
    using assms(1) by (simp add: get_set)
  have "Verify env o1 token w2 = (Inr cl, o1, w2)" if "ve_now env w2 < fresh_until c cl ?t" for w2
    using that c1 g assms(3) by (simp add: Verify_def Let_def)
  with c1 g invar_set [OF assms(1)] show ?thesis by blast
qed (use assms in \<open>auto\<close>)

end

section \<open>Properties\<close>

text \<open>
  C17: exactly when Verify accepts a token. A hit of the attached cache is answered as it is, with nothing else
  consulted or changed. Without one, claims are returned exactly when a JWT-shaped token passes the local check
  (its own claims are then the ones returned) or an opaque one does not need it, and the introspector accepts the
  token now (its claims are returned for an opaque one); with introspection disabled, exactly the JWT-shaped tokens
  that pass the local check are accepted.
\<close>

theorem verify_exact:
  "case (case oi_cache o' of None \<Rightarrow> None | Some c \<Rightarrow> ve_get env c (hashToken (ve_sha256 env) token) (ve_now env w)) of
     Some cl \<Rightarrow> Verify env o' token w = (Inr cl, o', w)
   | None \<Rightarrow>
       (\<forall>cl. fst (Verify env o' token w) = Inr cl \<longleftrightarrow>
          (\<exists>lc w1.
             (case lc of
                None \<Rightarrow> \<not> looksLikeJWT token \<and> w1 = w
              | Some (cl', expiry) \<Rightarrow> looksLikeJWT token \<and>
                  ve_local env (oi_verifier o') token w = (Inr (Inr cl', expiry), w1)) \<and>
             (if cf_DisableIntrospection (oi_config o') then \<exists>expiry. lc = Some (cl, expiry)
              else \<exists>i cl'. oi_introspector o' = Some i \<and>
                fst (Introspect (ve_sha256 env) (ve_send env) (ve_now env) (ve_ctx env) i token
                  (case lc of None \<Rightarrow> zero_time | Some (_, expiry) \<Rightarrow> expiry) w1) = Inr cl' \<and>
                cl = (case lc of None \<Rightarrow> cl' | Some (cl'', _) \<Rightarrow> cl''))))"
proof (cases "case oi_cache o' of None \<Rightarrow> None | Some c \<Rightarrow> ve_get env c (hashToken (ve_sha256 env) token) (ve_now env w)")
  case (Some cl)
  then show ?thesis by (simp add: Verify_def Let_def)
next
  case None
  have "fst (Verify env o' token w) = Inr cl \<longleftrightarrow>
      (\<exists>lc w1. verify_local env o' token w = (Inr lc, w1) \<and> fst (verify_remote env o' token lc w1) = Inr cl)" for cl
    using None by (auto simp: Verify_def Let_def split: prod.splits sum.splits)
  then show ?thesis
    unfolding None option.case verify_local_Inr_iff verify_remote_Inr_iff by (simp only: simp_thms)
qed

text \<open>
  A failed Verify of a verifier built by New leaves the attached cache as it was, and its error
  wraps ErrTokenValidationFailed or, for a token the issuer calls inactive, ErrAccessTokenInactive;
  in every case the verifier keeps its introspector, so that no call dereferences nil.
\<close>

lemma verify_errors:
  assumes "oidc_wf o'"
  shows "case Verify env o' token w of (r, o'', w') \<Rightarrow> oidc_wf o'' \<and>
    (case r of
       Inr cl \<Rightarrow> True
     | Inl e \<Rightarrow> oi_cache o'' = oi_cache o' \<and>
         (errors_is e ErrTokenValidationFailed \<or> errors_is e ErrAccessTokenInactive))"
proof (rule Verify_cases [of o' env token w])
  fix lc w1 cl o'' w2
  assume rm: "verify_remote env o' token lc w1 = (Inr cl, o'', w2)"
    and v: "Verify env o' token w = (Inr cl, o''\<lparr>oi_cache := map_option (\<lambda>c. ve_set env c
         (hashToken (ve_sha256 env) token) cl (ve_now env w)) (oi_cache o')\<rparr>, w2)"
  from verify_remote_keeps(3) [OF rm assms] have "oidc_wf o''" .
  with v show ?thesis by (simp add: oidc_wf_def)
next
  fix lc w1 e o'' w2
  assume rm: "verify_remote env o' token lc w1 = (Inl e, o'', w2)" and v: "Verify env o' token w = (Inl e, o'', w2)"
  with verify_remote_keeps [OF rm] verify_remote_Inl [OF rm assms] assms show ?thesis by auto
qed (use assms verify_local_Inl in auto)

definition demo_config :: oidc_config where
  "demo_config = \<lparr>cf_RealmURL = ''https://i'', cf_ClientID = ''app'', cf_ClientSecret = [], cf_RequestTimeout = 0,
     cf_SkipIssuerCheck = False, cf_SkipClientIDCheck = False, cf_SkipExpiryCheck = False,
     cf_DisableIntrospection = True, cf_IntrospectionEndpoint = [], cf_IntrospectionCacheTTL = 0,
     cf_IntrospectionHTTPTimeout = 0\<rparr>"

definition demo_oidc :: "memory_cache oidc" where
  "demo_oidc = \<lparr>oi_config = demo_config,
     oi_verifier = \<lparr>iv_ClientID = ''app'', iv_SkipClientIDCheck = False, iv_SkipExpiryCheck = False,
       iv_SkipIssuerCheck = False\<rparr>,
     oi_cache = Some \<lparr>mc_duration = Minute, mc_entries = [], mc_stop = False\<rparr>, oi_introspector = None\<rparr>"

text \<open>The world is the clock; the local check accepts every token.\<close>

definition demo_env :: "(memory_cache, instant) oidc_env" where
  "demo_env = \<lparr>ve_sha256 = (\<lambda>s. s), ve_get = mc_get, ve_set = mc_set,
     ve_local = (\<lambda>v token w. (Inr (Inr no_claims, 0), w)),
     ve_send = (\<lambda>q w. (DoFailed (Foreign 1), w)), ve_now = (\<lambda>w. w), ve_ctx = (\<lambda>w. None)\<rparr>"

theorem verify_errors_witness:
  "oidc_wf demo_oidc \<and>
   (case Verify demo_env demo_oidc ''opaque'' 0 of (r, o'', w') \<Rightarrow> oidc_wf o'' \<and>
     (case r of Inr cl \<Rightarrow> True | Inl e \<Rightarrow> oi_cache o'' = oi_cache demo_oidc \<and>
        (errors_is e ErrTokenValidationFailed \<or> errors_is e ErrAccessTokenInactive)))"
proof -
  have "oidc_wf demo_oidc" by (simp add: oidc_wf_def demo_oidc_def demo_config_def)
  with verify_errors [OF this, of demo_env "''opaque''" 0] show ?thesis by simp
qed

text \<open>
  With the memory cache attached, a token verified at t0 is answered from the cache, with the same
  claims and without any local or remote check, exactly until t0 + duration or the token's own exp,
  whichever comes first; from then on the cache misses and the token is checked again.
\<close>

lemma verify_cached_window:
  assumes "mc_invar c" and "oi_cache o' = Some c" and "ve_get env = mc_get" and "ve_set env = mc_set"
    and "mc_get c (hashToken (ve_sha256 env) token) (ve_now env w) = None"
    and "Verify env o' token w = (Inr cl, o1, w1)"
  shows "\<exists>c1. oi_cache o1 = Some c1 \<and>
    (let live = (\<lambda>t. t < ve_now env w + mc_duration c \<and> (0 < cl_Exp cl \<longrightarrow> t < claims_expiry (cl_Exp cl))) in
     \<forall>w2. if live (ve_now env w2) then Verify env o1 token w2 = (Inr cl, o1, w2)
       else mc_get c1 (hashToken (ve_sha256 env) token) (ve_now env w2) = None)"
proof -
  have "t < mc_expiry c cl (ve_now env w) \<longleftrightarrow>
      t < ve_now env w + mc_duration c \<and> (0 < cl_Exp cl \<longrightarrow> t < claims_expiry (cl_Exp cl))" for t
    by (auto simp: mc_expiry_def Let_def clock_simps)
  with mem.verify_replay [OF assms] show ?thesis by (fastforce simp: Let_def)
qed

theorem verify_cached_window_witness:
  "\<exists>o1 c1. oi_cache o1 = Some c1 \<and>
    Verify demo_env demo_oidc ''a.b.c'' 5 = (Inr no_claims, o1, 5) \<and>
    Verify demo_env o1 ''a.b.c'' 7 = (Inr no_claims, o1, 7) \<and>
    mc_get c1 (hashToken (\<lambda>s. s) ''a.b.c'') (5 + Minute) = None"
proof -
  let ?c = "\<lparr>mc_duration = Minute, mc_entries = [], mc_stop = False\<rparr>"
  obtain r o1 w1 where v: "Verify demo_env demo_oidc ''a.b.c'' 5 = (r, o1, w1)"
    by (cases "Verify demo_env demo_oidc ''a.b.c'' 5")
  then have ok: "r = Inr no_claims" "w1 = 5"
    by (simp_all add: Verify_def verify_local_def verify_remote_def looksLikeJWT_def demo_env_def demo_oidc_def
        demo_config_def mc_get_def Let_def)
  have "\<exists>c1. oi_cache o1 = Some c1 \<and>
    (let live = (\<lambda>t. t < ve_now demo_env 5 + mc_duration ?c \<and>
        (0 < cl_Exp no_claims \<longrightarrow> t < claims_expiry (cl_Exp no_claims))) in
     \<forall>w2. if live (ve_now demo_env w2) then Verify demo_env o1 ''a.b.c'' w2 = (Inr no_claims, o1, w2)
       else mc_get c1 (hashToken (ve_sha256 demo_env) ''a.b.c'') (ve_now demo_env w2) = None)"
    by (rule verify_cached_window [of ?c demo_oidc _ _ 5 _ _ w1])
      (use v ok in \<open>simp_all add: mc_invar_def demo_env_def demo_oidc_def mc_get_def\<close>)
  then obtain c1 where "oi_cache o1 = Some c1" and all: "\<forall>w2. if w2 < 5 + Minute
      then Verify demo_env o1 ''a.b.c'' w2 = (Inr no_claims, o1, w2)
      else mc_get c1 (hashToken (\<lambda>s. s) ''a.b.c'') w2 = None"
    by (auto simp: demo_env_def Let_def no_claims_def cong: if_cong)
  with spec [OF all, of 7] spec [OF all, of "5 + Minute"] v ok show ?thesis
    by (auto simp: clock_simps)
qed

text \<open>
  The configuration check accepts exactly an http or https realm URL with a host, a client id, a
  client secret unless introspection is disabled, and non-negative introspection durations; it
  changes only the two timeouts, which it makes positive.
\<close>

lemma validate_config_iff:
  "validateConfig parse_uri cfg = Inr cfg' \<longleftrightarrow>
     (\<exists>scheme host. cf_RealmURL cfg \<noteq> [] \<and> parse_uri (cf_RealmURL cfg) = Some (scheme, host) \<and>
        scheme \<in> {''http'', ''https''} \<and> host \<noteq> []) \<and>
     cf_ClientID cfg \<noteq> [] \<and> (cf_DisableIntrospection cfg \<or> cf_ClientSecret cfg \<noteq> []) \<and>
     0 \<le> cf_IntrospectionCacheTTL cfg \<and> 0 \<le> cf_IntrospectionHTTPTimeout cfg \<and>
     cfg' = cfg\<lparr>cf_RequestTimeout := (if cf_RequestTimeout cfg \<le> 0 then 30 * Second else cf_RequestTimeout cfg),
                cf_IntrospectionHTTPTimeout := (if cf_IntrospectionHTTPTimeout cfg = 0 then 10 * Second
                   else cf_IntrospectionHTTPTimeout cfg)\<rparr>"
  by (auto simp: validateConfig_def Let_def defaultRequestTimeout_def defaultIntrospectionHTTPTimeout_def
      split: option.splits if_splits)

end
