(* ===== verification/Session.thy ===== *)
theory Session
  imports Oidc
begin

text \<open>
  Server-side sessions (\<^verbatim>\<open>src/oidcauth/session.go\<close>, \<^verbatim>\<open>session_manager.go\<close>, \<^verbatim>\<open>cleanup.go\<close>). The session
  store is an interface the application implements: a record of operations in the model, with its
  documented contract as a locale. The manager is written over any such store; the contract is
  interpreted on the in-memory store of the package's tests.
\<close>

section \<open>Data\<close>

record token_set =
  ts_AccessToken :: string
  ts_RefreshToken :: string
  ts_IDToken :: string
  ts_TokenType :: string
  ts_Scopes :: "string list"
  ts_AccessTokenExpiresAt :: instant
  ts_RefreshTokenExpiresAt :: instant

record session =
  se_ID :: string
  se_Tokens :: token_set
  se_Claims :: claims
  se_ExpiresAt :: instant
  se_CreatedAt :: instant
  se_UpdatedAt :: instant
  se_LastSeenAt :: instant

definition no_tokens :: token_set where
  "no_tokens = \<lparr>ts_AccessToken = [], ts_RefreshToken = [], ts_IDToken = [], ts_TokenType = [], ts_Scopes = [],
     ts_AccessTokenExpiresAt = zero_time, ts_RefreshTokenExpiresAt = zero_time\<rparr>"

text \<open>\<^verbatim>\<open>oauth2.Token\<close>: \<open>ot_Extra\<close> holds the other fields of the token response.\<close>

record oauth2_token =
  ot_AccessToken :: string
  ot_TokenType :: string
  ot_RefreshToken :: string
  ot_Expiry :: instant
  ot_Extra :: "string \<Rightarrow> json option"

text \<open>
  The store. \<open>ss_WithLock\<close> runs a function on the locked session; the function threads the state it
  shares with its creator, here the variable \<open>resolved\<close> and the outside world.
\<close>

type_synonym 'w lock_state = "session option \<times> 'w"
type_synonym 'w locked_fn = "session \<Rightarrow> 'w lock_state \<Rightarrow> (go_err + session option) \<times> 'w lock_state"

record ('st, 'w) session_store =
  ss_Create :: "'st \<Rightarrow> session \<Rightarrow> go_err option \<times> 'st"
  ss_Get :: "'st \<Rightarrow> string \<Rightarrow> go_err + session"
  ss_Touch :: "'st \<Rightarrow> string \<Rightarrow> instant \<Rightarrow> go_err option \<times> 'st"
  ss_WithLock :: "'st \<Rightarrow> string \<Rightarrow> 'w locked_fn \<Rightarrow> 'w lock_state \<Rightarrow> go_err option \<times> 'st \<times> 'w lock_state"
  ss_Delete :: "'st \<Rightarrow> string \<Rightarrow> go_err option \<times> 'st"
  ss_DeleteExpired :: "'st \<Rightarrow> instant \<Rightarrow> (go_err + int) \<times> 'st"

section \<open>The manager\<close>

definition defaultAccessTokenTTL :: duration where "defaultAccessTokenTTL = 5 * Minute"
definition defaultRefreshTokenTTL :: duration where "defaultRefreshTokenTTL = 30 * 24 * Hour"

text \<open>
  \<open>sm_refresh\<close> is the method \<open>Refresh\<close> of the manager's flow, \<open>sm_verifier\<close> the optional
  revalidation, \<open>sm_now\<close> the clock.
\<close>

record ('st, 'w) session_manager =
  sm_store :: "('st, 'w) session_store"
  sm_refresh :: "string \<Rightarrow> 'w \<Rightarrow> (go_err + oauth2_token) \<times> 'w"
  sm_verifier :: "(string \<Rightarrow> 'w \<Rightarrow> (go_err + claims) \<times> 'w) option"
  sm_clientID :: string
  sm_idleTimeout :: duration
  sm_absoluteTimeout :: duration
  sm_now :: "'w \<Rightarrow> instant"

record ('st, 'w) session_manager_config =
  sc_Store :: "('st, 'w) session_store option"
  sc_Flow :: "(string \<Rightarrow> 'w \<Rightarrow> (go_err + oauth2_token) \<times> 'w) option"
  sc_Verifier :: "(string \<Rightarrow> 'w \<Rightarrow> (go_err + claims) \<times> 'w) option"
  sc_ClientID :: string
  sc_IdleTimeout :: duration
  sc_AbsoluteTimeout :: duration

text \<open>\<open>None\<close> is the panic for a missing store or flow.\<close>

definition NewSessionManager ::
  "('w \<Rightarrow> instant) \<Rightarrow> ('st, 'w) session_manager_config \<Rightarrow> ('st, 'w) session_manager option"
where
  "NewSessionManager time_now cfg =
     (case sc_Store cfg of
        None \<Rightarrow> None
      | Some store \<Rightarrow>
          (case sc_Flow cfg of
             None \<Rightarrow> None
           | Some flow \<Rightarrow>
               Some \<lparr>sm_store = store, sm_refresh = flow, sm_verifier = sc_Verifier cfg, sm_clientID = sc_ClientID cfg,
                     sm_idleTimeout = sc_IdleTimeout cfg, sm_absoluteTimeout = sc_AbsoluteTimeout cfg,
                     sm_now = time_now\<rparr>))"

text \<open>
  \<open>now\<close> is what \<^verbatim>\<open>time.Now()\<close> answers; the conversion and the product of \<open>refresh_expires_in\<close> are
  64-bit.
\<close>

definition tokenSetFrom :: "instant \<Rightarrow> oauth2_token \<Rightarrow> token_set \<Rightarrow> token_set" where
  "tokenSetFrom now token previous =
     (let ts0 = \<lparr>ts_AccessToken = ot_AccessToken token, ts_RefreshToken = ts_RefreshToken previous,
            ts_IDToken = ts_IDToken previous, ts_TokenType = ot_TokenType token, ts_Scopes = ts_Scopes previous,
            ts_AccessTokenExpiresAt = ot_Expiry token,
            ts_RefreshTokenExpiresAt = ts_RefreshTokenExpiresAt previous\<rparr>;
          ts1 = (if is_zero (ts_AccessTokenExpiresAt ts0)
                 then ts0\<lparr>ts_AccessTokenExpiresAt := time_add now defaultAccessTokenTTL\<rparr> else ts0);
          ts2 = (if ot_RefreshToken token \<noteq> [] then ts1\<lparr>ts_RefreshToken := ot_RefreshToken token\<rparr> else ts1);
          ts3 = (case ot_Extra token ''id_token'' of
                   Some (JStr idToken) \<Rightarrow> if idToken \<noteq> [] then ts2\<lparr>ts_IDToken := idToken\<rparr> else ts2
                 | _ \<Rightarrow> ts2);
          ts4 = (case ot_Extra token ''refresh_expires_in'' of
                   Some (JNum secs) \<Rightarrow>
                     if 0 < secs
                     then ts3\<lparr>ts_RefreshTokenExpiresAt := time_add now (wrap64 (float_to_int64 secs * Second))\<rparr>
                     else ts3
                 | _ \<Rightarrow> ts3)
      in case ot_Extra token ''scope'' of
           Some (JStr scope) \<Rightarrow> if scope \<noteq> [] then ts4\<lparr>ts_Scopes := strings_fields scope\<rparr> else ts4
         | _ \<Rightarrow> ts4)"

definition isExpired :: "('st, 'w) session_manager \<Rightarrow> session \<Rightarrow> instant \<Rightarrow> bool" where
  "isExpired m s now =
     (if \<not> now < se_ExpiresAt s then True
      else if 0 < sm_idleTimeout m \<and> \<not> is_zero (se_LastSeenAt s) \<and>
        sm_idleTimeout m < time_sub now (se_LastSeenAt s) then True
      else False)"

definition computeExpiresAt :: "('st, 'w) session_manager \<Rightarrow> session \<Rightarrow> instant" where
  "computeExpiresAt m s =
     (let ceiling =
        (if ts_RefreshToken (se_Tokens s) = [] then ts_AccessTokenExpiresAt (se_Tokens s)
         else if \<not> is_zero (ts_RefreshTokenExpiresAt (se_Tokens s)) then ts_RefreshTokenExpiresAt (se_Tokens s)
         else time_add (se_CreatedAt s) defaultRefreshTokenTTL)
      in if 0 < sm_absoluteTimeout m \<and> time_add (se_CreatedAt s) (sm_absoluteTimeout m) < ceiling
         then time_add (se_CreatedAt s) (sm_absoluteTimeout m) else ceiling)"

definition notFound :: "go_err \<Rightarrow> go_err" where
  "notFound e = (if errors_is e ErrSessionNotFound then e else Wrapped ''%w: %w'' [ErrSessionNotFound, e])"

text \<open>\<open>new_uuid\<close> is \<^verbatim>\<open>uuid.NewString\<close>.\<close>

definition sm_Create ::
  "('w \<Rightarrow> string \<times> 'w) \<Rightarrow> ('st, 'w) session_manager \<Rightarrow> 'st \<Rightarrow> oauth2_token \<Rightarrow> claims \<Rightarrow> 'w \<Rightarrow>
   (go_err + session) \<times> 'st \<times> 'w"
where
  "sm_Create new_uuid m st token cl w =
     (let now = sm_now m w in
      case new_uuid w of
        (uuid, w') \<Rightarrow>
          (let s0 = \<lparr>se_ID = uuid, se_Tokens = tokenSetFrom (sm_now m w') token no_tokens, se_Claims = cl,
                 se_ExpiresAt = zero_time, se_CreatedAt = now, se_UpdatedAt = now, se_LastSeenAt = zero_time\<rparr>;
               s = s0\<lparr>se_ExpiresAt := computeExpiresAt m s0\<rparr>
           in case ss_Create (sm_store m) st s of
                (Some e, st') \<Rightarrow> (Inl (Wrapped ''oidcauth: create session: %w'' [e]), st', w')
              | (None, st') \<Rightarrow> (Inr s, st', w')))"

text \<open>The session with the tokens of a refresh, and the function \<open>refresh\<close> hands to \<open>WithLock\<close>.\<close>

definition renewed :: "('st, 'w) session_manager \<Rightarrow> instant \<Rightarrow> instant \<Rightarrow> oauth2_token \<Rightarrow> session \<Rightarrow> session" where
  "renewed m now received token locked =
     (let l1 = locked\<lparr>se_Tokens := tokenSetFrom received token (se_Tokens locked)\<rparr>
      in l1\<lparr>se_ExpiresAt := computeExpiresAt m l1, se_UpdatedAt := now, se_LastSeenAt := now\<rparr>)"

definition refresh_locked :: "('st, 'w) session_manager \<Rightarrow> instant \<Rightarrow> 'w locked_fn" where
  "refresh_locked m now locked x =
     (case x of (resolved, w) \<Rightarrow>
        if now < ts_AccessTokenExpiresAt (se_Tokens locked) then (Inr None, (Some locked, w))
        else if isExpired m locked now then (Inl (Wrapped ''%w: expired'' [ErrSessionNotFound]), (resolved, w))
        else if ts_RefreshToken (se_Tokens locked) = [] then
          (Inl (Wrapped ''%w: access token expired and session has no refresh token'' [ErrSessionNotFound]), (resolved, w))
        else
          (case sm_refresh m (ts_RefreshToken (se_Tokens locked)) w of
             (Inl e, w') \<Rightarrow> (Inl (Wrapped ''%w: refresh rejected'' [ErrSessionNotFound]), (resolved, w'))
           | (Inr token, w') \<Rightarrow>
               (let l = renewed m now (sm_now m w') token locked in (Inr (Some l), (Some l, w')))))"

text \<open>A nil session with a nil error is \<open>Inr None\<close>.\<close>

definition refresh_session ::
  "('st, 'w) session_manager \<Rightarrow> 'st \<Rightarrow> string \<Rightarrow> instant \<Rightarrow> 'w \<Rightarrow> (go_err + session option) \<times> 'st \<times> 'w"
where
  "refresh_session m st k now w =
     (case ss_WithLock (sm_store m) st k (refresh_locked m now) (None, w) of
        (Some e, st', (_, w')) \<Rightarrow>
          (Inl (notFound e),
           if errors_is e ErrSessionNotFound then snd (ss_Delete (sm_store m) st' k) else st', w')
      | (None, st', (resolved, w')) \<Rightarrow> (Inr resolved, st', w'))"

text \<open>\<open>uuid_ok\<close> says that \<^verbatim>\<open>uuid.Parse\<close> accepts the string.\<close>

definition Resolve ::
  "(string \<Rightarrow> bool) \<Rightarrow> ('st, 'w) session_manager \<Rightarrow> 'st \<Rightarrow> string \<Rightarrow> 'w \<Rightarrow>
   (go_err + session option) \<times> 'st \<times> 'w"
where
  "Resolve uuid_ok m st k w =
     (if \<not> uuid_ok k then (Inl (Wrapped ''%w: malformed session id'' [ErrSessionNotFound]), st, w)
      else
        (let now = sm_now m w in
         case ss_Get (sm_store m) st k of
           Inl e \<Rightarrow> (Inl (notFound e), st, w)
         | Inr s \<Rightarrow>
             if isExpired m s now then
               (Inl (Wrapped ''%w: expired'' [ErrSessionNotFound]), snd (ss_Delete (sm_store m) st k), w)
             else if now < ts_AccessTokenExpiresAt (se_Tokens s) then
               (case (case sm_verifier m of
                        None \<Rightarrow> (None, w)
                      | Some verify \<Rightarrow>
                          (case verify (ts_AccessToken (se_Tokens s)) w of
                             (Inl e, w') \<Rightarrow> (Some e, w') | (Inr cl, w') \<Rightarrow> (None, w'))) of
                  (Some e, w') \<Rightarrow>
                    (Inl (Wrapped ''%w: revalidation rejected: %w'' [ErrSessionNotFound, e]),
                     snd (ss_Delete (sm_store m) st k), w')
                | (None, w') \<Rightarrow>
                    (Inr (Some (s\<lparr>se_LastSeenAt := now\<rparr>)), snd (ss_Touch (sm_store m) st k now), w'))
             else refresh_session m st k now w))"

definition Peek :: "('st, 'w) session_manager \<Rightarrow> 'st \<Rightarrow> string \<Rightarrow> go_err + session" where
  "Peek m st k = ss_Get (sm_store m) st k"

definition sm_Delete :: "('st, 'w) session_manager \<Rightarrow> 'st \<Rightarrow> string \<Rightarrow> go_err option \<times> 'st" where
  "sm_Delete m st k = ss_Delete (sm_store m) st k"

definition CleanupExpired :: "('st, 'w) session_manager \<Rightarrow> 'st \<Rightarrow> instant \<Rightarrow> (go_err + int) \<times> 'st" where
  "CleanupExpired m st now = ss_DeleteExpired (sm_store m) st now"

definition sm_Verify ::
  "(string \<Rightarrow> bool) \<Rightarrow> ('st, 'w) session_manager \<Rightarrow> 'st \<Rightarrow> string \<Rightarrow> 'w \<Rightarrow> (go_err + claims) \<times> 'st \<times> 'w"
where
  "sm_Verify uuid_ok m st sessionID w =
     (case Resolve uuid_ok m st sessionID w of
        (Inl e, st', w') \<Rightarrow> (Inl e, st', w')
      | (Inr None, st', w') \<Rightarrow> (Inl NilDereference, st', w')
      | (Inr (Some s), st', w') \<Rightarrow> (Inr (se_Claims s), st', w'))"

definition sm_HasRole :: "('st, 'w) session_manager \<Rightarrow> claims \<Rightarrow> string \<Rightarrow> bool" where
  "sm_HasRole m cl role = (case client_roles cl (sm_clientID m) of None \<Rightarrow> False | Some rs \<Rightarrow> role \<in> set rs)"

section \<open>Periodic cleanup\<close>

definition defaultCleanupTimeout :: duration where "defaultCleanupTimeout = 30 * Second"

record cleanup_result =
  cr_Removed :: int
  cr_Duration :: duration
  cr_Err :: "go_err option"

text \<open>
  One pass with its three readings of the clock: before, for the store, and after. An error of \<open>DeleteExpired\<close> comes with the count 0; the
  pass hands its report to \<open>onResult\<close>, when there is one, and returns the deadline given to the store.
\<close>

definition runCleanupOnce ::
  "('st, 'w) session_manager \<Rightarrow> duration \<Rightarrow> bool \<Rightarrow> instant \<times> instant \<times> instant \<Rightarrow> 'st \<Rightarrow> cleanup_result list \<times> duration \<times> 'st"
where
  "runCleanupOnce m timeout has_callback clock st =
     (case clock of (start, now, fin) \<Rightarrow>
      let timeout' = (if timeout \<le> 0 then defaultCleanupTimeout else timeout) in
      case CleanupExpired m st now of
        (r, st') \<Rightarrow>
          (if has_callback
           then [\<lparr>cr_Removed = (case r of Inl _ \<Rightarrow> 0 | Inr n \<Rightarrow> n), cr_Duration = time_sub fin start,
                  cr_Err = (case r of Inl e \<Rightarrow> Some e | Inr _ \<Rightarrow> None)\<rparr>] else [],
           timeout', st'))"

text \<open>The loop, with the ticks it takes; \<open>None\<close> is the context's end.\<close>

fun cleanup_ticks ::
  "('st, 'w) session_manager \<Rightarrow> duration \<Rightarrow> bool \<Rightarrow> (instant \<times> instant \<times> instant) option list \<Rightarrow> 'st \<Rightarrow> cleanup_result list \<times> 'st"
where
  "cleanup_ticks m timeout cb [] st = ([], st)"
| "cleanup_ticks m timeout cb (None # es) st = ([], st)"
| "cleanup_ticks m timeout cb (Some clock # es) st =
     (case runCleanupOnce m timeout cb clock st of
        (rs, _, st') \<Rightarrow> (case cleanup_ticks m timeout cb es st' of (rs', st'') \<Rightarrow> (rs @ rs', st'')))"

text \<open>With the interval of the ticker.\<close>

definition RunSessionCleanup ::
  "('st, 'w) session_manager \<Rightarrow> duration \<Rightarrow> duration \<Rightarrow> bool \<Rightarrow> (instant \<times> instant \<times> instant) option list \<Rightarrow> 'st \<Rightarrow>
   duration \<times> cleanup_result list \<times> 'st"
where
  "RunSessionCleanup m interval timeout cb es st =
     (if interval \<le> 0 then Hour else interval, cleanup_ticks m timeout cb es st)"

section \<open>The in-memory store of the tests\<close>

record fake_store =
  fs_data :: "(string, session) gomap"
  fs_withLockCall :: int

definition fs_Create :: "fake_store \<Rightarrow> session \<Rightarrow> go_err option \<times> fake_store" where
  "fs_Create s sess = (None, s\<lparr>fs_data := AList.update (se_ID sess) sess (fs_data s)\<rparr>)"

definition fs_Get :: "fake_store \<Rightarrow> string \<Rightarrow> go_err + session" where
  "fs_Get s k = (case map_of (fs_data s) k of None \<Rightarrow> Inl ErrSessionNotFound | Some sess \<Rightarrow> Inr sess)"

definition fs_Touch :: "fake_store \<Rightarrow> string \<Rightarrow> instant \<Rightarrow> go_err option \<times> fake_store" where
  "fs_Touch s k t =
     (None, (case map_of (fs_data s) k of
               None \<Rightarrow> s
             | Some sess \<Rightarrow> s\<lparr>fs_data := AList.update k (sess\<lparr>se_LastSeenAt := t\<rparr>) (fs_data s)\<rparr>))"

definition fs_Delete :: "fake_store \<Rightarrow> string \<Rightarrow> go_err option \<times> fake_store" where
  "fs_Delete s k = (None, s\<lparr>fs_data := AList.delete k (fs_data s)\<rparr>)"

definition fs_DeleteExpired :: "fake_store \<Rightarrow> instant \<Rightarrow> (go_err + int) \<times> fake_store" where
  "fs_DeleteExpired s now =
     (let kept = filter (\<lambda>(k, sess). now < se_ExpiresAt sess) (fs_data s)
      in (Inr (int (length (fs_data s)) - int (length kept)), s\<lparr>fs_data := kept\<rparr>))"

definition fs_WithLock ::
  "fake_store \<Rightarrow> string \<Rightarrow> 'w locked_fn \<Rightarrow> 'w lock_state \<Rightarrow> go_err option \<times> fake_store \<times> 'w lock_state"
where
  "fs_WithLock s k fn x =
     (let s1 = s\<lparr>fs_withLockCall := fs_withLockCall s + 1\<rparr> in
      case map_of (fs_data s1) k of
        None \<Rightarrow> (Some ErrSessionNotFound, s1, x)
      | Some sess \<Rightarrow>
          (case fn sess x of
             (Inl e, x') \<Rightarrow> (Some e, s1, x')
           | (Inr None, x') \<Rightarrow> (None, s1, x')
           | (Inr (Some updated), x') \<Rightarrow> (None, s1\<lparr>fs_data := AList.update k updated (fs_data s1)\<rparr>, x')))"

definition fake_ops :: "(fake_store, 'w) session_store" where
  "fake_ops = \<lparr>ss_Create = fs_Create, ss_Get = fs_Get, ss_Touch = fs_Touch, ss_WithLock = fs_WithLock,
     ss_Delete = fs_Delete, ss_DeleteExpired = fs_DeleteExpired\<rparr>"

section \<open>Interleavings\<close>

text \<open>
  Requests run concurrently; what is atomic is one call of the store, \<open>WithLock\<close> with its function
  included. The steps are those calls with the arguments the manager passes, at any moment and for
  any reading of the clock, and changes of the outside world.
\<close>

inductive sm_step ::
  "('w \<Rightarrow> string \<times> 'w) \<Rightarrow> ('st, 'w) session_manager \<Rightarrow> 'st \<times> 'w \<Rightarrow> 'st \<times> 'w \<Rightarrow> bool"
  for new_uuid m where
  sm_created: "sm_Create new_uuid m st token cl w = (r, st', w') \<Longrightarrow> sm_step new_uuid m (st, w) (st', w')"
| sm_touched: "ss_Touch (sm_store m) st k now = (e, st') \<Longrightarrow> sm_step new_uuid m (st, w) (st', w)"
| sm_deleted: "ss_Delete (sm_store m) st k = (e, st') \<Longrightarrow> sm_step new_uuid m (st, w) (st', w)"
| sm_locked: "ss_WithLock (sm_store m) st k (refresh_locked m now) (None, w) = (e, st', x, w') \<Longrightarrow>
    sm_step new_uuid m (st, w) (st', w')"
| sm_cleaned: "CleanupExpired m st now = (r, st') \<Longrightarrow> sm_step new_uuid m (st, w) (st', w)"
| sm_world: "sm_step new_uuid m (st, w) (st, w')"

definition sm_reachable ::
  "('w \<Rightarrow> string \<times> 'w) \<Rightarrow> ('st, 'w) session_manager \<Rightarrow> 'st \<times> 'w \<Rightarrow> 'st \<times> 'w \<Rightarrow> bool"
where
  "sm_reachable new_uuid m = (sm_step new_uuid m)\<^sup>*\<^sup>*"

section \<open>Lemmas on the manager's functions\<close>

definition ceiling_ok :: "('st, 'w) session_manager \<Rightarrow> session \<Rightarrow> bool" where
  "ceiling_ok m s \<longleftrightarrow> se_ExpiresAt s = computeExpiresAt m s"

lemma computeExpiresAt_update [simp]:
  "computeExpiresAt m (s\<lparr>se_ExpiresAt := a\<rparr>) = computeExpiresAt m s"
  "computeExpiresAt m (s\<lparr>se_UpdatedAt := b\<rparr>) = computeExpiresAt m s"
  "computeExpiresAt m (s\<lparr>se_LastSeenAt := c\<rparr>) = computeExpiresAt m s"
  by (simp_all add: computeExpiresAt_def Let_def)

lemma computeExpiresAt_absolute:
  "0 < sm_absoluteTimeout m \<Longrightarrow> computeExpiresAt m s \<le> se_CreatedAt s + sm_absoluteTimeout m"
  by (auto simp: computeExpiresAt_def Let_def clock_simps)

lemma renewed_simps [simp]:
  "se_CreatedAt (renewed m now t token s) = se_CreatedAt s" "se_ID (renewed m now t token s) = se_ID s"
  "se_Claims (renewed m now t token s) = se_Claims s" "ceiling_ok m (renewed m now t token s)"
  by (simp_all add: renewed_def Let_def ceiling_ok_def)

lemma notFound_is [simp]: "errors_is (notFound e) ErrSessionNotFound"
  by (simp add: notFound_def)

lemma refresh_locked_Inr:
  assumes "refresh_locked m now s (r, w) = (Inr ret, r', w')"
  obtains (current) "now < ts_AccessTokenExpiresAt (se_Tokens s)" "ret = None" "r' = Some s" "w' = w"
  | (renew) token where "\<not> now < ts_AccessTokenExpiresAt (se_Tokens s)" "\<not> isExpired m s now"
      "ts_RefreshToken (se_Tokens s) \<noteq> []" "sm_refresh m (ts_RefreshToken (se_Tokens s)) w = (Inr token, w')"
      "ret = Some (renewed m now (sm_now m w') token s)" "r' = Some (renewed m now (sm_now m w') token s)"
  using assms by (auto simp: refresh_locked_def Let_def split: if_splits prod.splits sum.splits)

lemma refresh_locked_ceiling:
  "refresh_locked m now s x = (Inr (Some s'), x') \<Longrightarrow> ceiling_ok m s'"
  by (auto simp: refresh_locked_def Let_def split: if_splits prod.splits sum.splits)

lemma sm_Create_ceiling:
  assumes "sm_Create new_uuid m st token cl w = (r, st', w')"
  shows "\<exists>s oe. ss_Create (sm_store m) st s = (oe, st') \<and> ceiling_ok m s"
proof -
  obtain uuid wu where u: "new_uuid w = (uuid, wu)" by force
  let ?s0 = "\<lparr>se_ID = uuid, se_Tokens = tokenSetFrom (sm_now m wu) token no_tokens, se_Claims = cl,
    se_ExpiresAt = zero_time, se_CreatedAt = sm_now m w, se_UpdatedAt = sm_now m w, se_LastSeenAt = zero_time\<rparr>"
  let ?s = "?s0\<lparr>se_ExpiresAt := computeExpiresAt m ?s0\<rparr>"
  have "ceiling_ok m ?s" by (simp add: ceiling_ok_def computeExpiresAt_def Let_def)
  moreover from assms u have "\<exists>oe. ss_Create (sm_store m) st ?s = (oe, st')"
    by (auto simp: sm_Create_def Let_def split: prod.splits option.splits)
  ultimately show ?thesis by blast
qed

section \<open>The contract of the store\<close>

text \<open>
  What the documentation of \<open>SessionStore\<close> asks of an implementation, with \<open>lookup\<close> the sessions it
  holds. Every operation may fail, and then changes nothing.
\<close>

locale session_contract =
  fixes ops :: "('st, 'w) session_store"
    and lookup :: "'st \<Rightarrow> string \<Rightarrow> session option"
    and invar :: "'st \<Rightarrow> bool"
  assumes create: "invar st \<Longrightarrow> ss_Create ops st s = (oe, st') \<Longrightarrow>
      invar st' \<and> lookup st' = (case oe of None \<Rightarrow> (lookup st)(se_ID s \<mapsto> s) | Some _ \<Rightarrow> lookup st)"
    and get: "invar st \<Longrightarrow> ss_Get ops st k = Inr s \<Longrightarrow> lookup st k = Some s"
    and get_absent: "invar st \<Longrightarrow> lookup st k = None \<Longrightarrow>
      \<exists>e. ss_Get ops st k = Inl e \<and> errors_is e ErrSessionNotFound"
    and touch: "invar st \<Longrightarrow> ss_Touch ops st k t = (oe, st') \<Longrightarrow>
      invar st' \<and> lookup st' = (case oe of
          None \<Rightarrow> (lookup st)(k := map_option (\<lambda>s. s\<lparr>se_LastSeenAt := t\<rparr>) (lookup st k))
        | Some _ \<Rightarrow> lookup st)"
    and lock_ok: "invar st \<Longrightarrow> ss_WithLock ops st k fn x = (None, st', x') \<Longrightarrow>
      invar st' \<and> (\<exists>s ret. lookup st k = Some s \<and> fn s x = (Inr ret, x') \<and>
        lookup st' = (case ret of None \<Rightarrow> lookup st | Some s' \<Rightarrow> (lookup st)(k \<mapsto> s')))"
    and lock_err: "invar st \<Longrightarrow> ss_WithLock ops st k fn x = (Some e, st', x') \<Longrightarrow>
      invar st' \<and> lookup st' = lookup st"
    and delete: "invar st \<Longrightarrow> ss_Delete ops st k = (oe, st') \<Longrightarrow>
      invar st' \<and> lookup st' = (case oe of None \<Rightarrow> (lookup st)(k := None) | Some _ \<Rightarrow> lookup st)"
    and delete_expired: "invar st \<Longrightarrow> ss_DeleteExpired ops st now = (r, st') \<Longrightarrow>
      invar st' \<and> (case r of
          Inl _ \<Rightarrow> lookup st' = lookup st
        | Inr n \<Rightarrow> lookup st' = (\<lambda>k. case lookup st k of None \<Rightarrow> None
                     | Some s \<Rightarrow> if now < se_ExpiresAt s then Some s else None) \<and>
            n = int (card {k. \<exists>s. lookup st k = Some s \<and> \<not> now < se_ExpiresAt s}))"
begin

lemma delete_keeps:
  assumes "invar st"
  shows "invar (snd (ss_Delete ops st k))"
    and "\<forall>k'. k' \<noteq> k \<longrightarrow> lookup (snd (ss_Delete ops st k)) k' = lookup st k'"
    and "lookup (snd (ss_Delete ops st k)) k = None \<or> lookup (snd (ss_Delete ops st k)) k = lookup st k"
  using delete [OF assms, of k] by (cases "ss_Delete ops st k"; auto split: option.splits)+

lemma touch_keeps:
  assumes "invar st"
  shows "invar (snd (ss_Touch ops st k t))"
    and "\<forall>k'. k' \<noteq> k \<longrightarrow> lookup (snd (ss_Touch ops st k t)) k' = lookup st k'"
  using touch [OF assms, of k t] by (cases "ss_Touch ops st k t"; auto split: option.splits)+

lemma refresh_session_ok:
  assumes "invar st" and "sm_store m = ops" and "refresh_session m st k now w = (Inr r, st', w')"
  obtains (current) s where "lookup st k = Some s" "r = Some s" "now < ts_AccessTokenExpiresAt (se_Tokens s)"
      "lookup st' = lookup st" "invar st'" "w' = w"
  | (renew) s token where "lookup st k = Some s" "r = Some (renewed m now (sm_now m w') token s)"
      "\<not> now < ts_AccessTokenExpiresAt (se_Tokens s)" "\<not> isExpired m s now" "ts_RefreshToken (se_Tokens s) \<noteq> []"
      "sm_refresh m (ts_RefreshToken (se_Tokens s)) w = (Inr token, w')"
      "lookup st' = (lookup st)(k \<mapsto> renewed m now (sm_now m w') token s)" "invar st'"
proof -
  from assms(2,3) have lock: "ss_WithLock ops st k (refresh_locked m now) (None, w) = (None, st', (r, w'))"
    by (auto simp: refresh_session_def split: prod.splits option.splits)
  from lock_ok [OF assms(1) lock] obtain s ret where s: "invar st'" "lookup st k = Some s"
      "refresh_locked m now s (None, w) = (Inr ret, r, w')"
      "lookup st' = (case ret of None \<Rightarrow> lookup st | Some s' \<Rightarrow> (lookup st)(k \<mapsto> s'))"
    by auto
  from s(3) show thesis
    by (cases rule: refresh_locked_Inr) (use s current renew in auto)
qed

lemma refresh_session_err:
  assumes "invar st" and "sm_store m = ops" and "refresh_session m st k now w = (Inl e, st', w')"
  shows "errors_is e ErrSessionNotFound \<and> invar st' \<and> (\<forall>k'. k' \<noteq> k \<longrightarrow> lookup st' k' = lookup st k') \<and>
    (lookup st' k = None \<or> lookup st' k = lookup st k)"
proof -
  from assms(2,3) obtain e0 st1 x where lock: "ss_WithLock ops st k (refresh_locked m now) (None, w) = (Some e0, st1, x, w')"
    and "e = notFound e0" and st': "st' = (if errors_is e0 ErrSessionNotFound then snd (ss_Delete ops st1 k) else st1)"
    by (auto simp: refresh_session_def split: prod.splits option.splits)
  then show ?thesis
    using lock_err [OF assms(1) lock] delete_keeps [of st1 k] by (auto simp: st')
qed

lemma resolve_ok:
  assumes "invar st" and "sm_store m = ops" and "Resolve uuid_ok m st k w = (Inr r, st', w')"
  obtains (current) s where "uuid_ok k" "lookup st k = Some s" "\<not> isExpired m s (sm_now m w)"
      "sm_now m w < ts_AccessTokenExpiresAt (se_Tokens s)"
      "case sm_verifier m of None \<Rightarrow> w' = w
       | Some verify \<Rightarrow> \<exists>cl. verify (ts_AccessToken (se_Tokens s)) w = (Inr cl, w')"
      "r = Some (s\<lparr>se_LastSeenAt := sm_now m w\<rparr>)" "st' = snd (ss_Touch ops st k (sm_now m w))"
  | (renew) s token where "uuid_ok k" "lookup st k = Some s" "\<not> isExpired m s (sm_now m w)"
      "\<not> sm_now m w < ts_AccessTokenExpiresAt (se_Tokens s)" "ts_RefreshToken (se_Tokens s) \<noteq> []"
      "sm_refresh m (ts_RefreshToken (se_Tokens s)) w = (Inr token, w')"
      "r = Some (renewed m (sm_now m w) (sm_now m w') token s)"
      "lookup st' = (lookup st)(k \<mapsto> renewed m (sm_now m w) (sm_now m w') token s)" "invar st'"
proof -
  from assms(3) have "uuid_ok k" by (auto simp: Resolve_def split: if_splits)
  with assms(2,3) obtain s where s: "ss_Get ops st k = Inr s" "\<not> isExpired m s (sm_now m w)"
    by (auto simp: Resolve_def Let_def split: sum.splits if_splits)
  note l = get [OF assms(1) s(1)]
  show thesis
  proof (cases "sm_now m w < ts_AccessTokenExpiresAt (se_Tokens s)")
    case True
    with assms(2,3) \<open>uuid_ok k\<close> s have
      "(case sm_verifier m of None \<Rightarrow> w' = w
        | Some verify \<Rightarrow> \<exists>cl. verify (ts_AccessToken (se_Tokens s)) w = (Inr cl, w')) \<and>
       r = Some (s\<lparr>se_LastSeenAt := sm_now m w\<rparr>) \<and> st' = snd (ss_Touch ops st k (sm_now m w))"
      by (auto simp: Resolve_def Let_def split: option.splits prod.splits sum.splits)
    with True s l \<open>uuid_ok k\<close> current show thesis by blast
  next
    case False
    with assms(2,3) \<open>uuid_ok k\<close> s have "refresh_session m st k (sm_now m w) w = (Inr r, st', w')"
      by (simp add: Resolve_def Let_def)
    from assms(1,2) this show thesis
      by (cases rule: refresh_session_ok) (use False s l \<open>uuid_ok k\<close> renew in auto)
  qed
qed

lemma resolve_err:
  assumes "invar st" and "sm_store m = ops" and "Resolve uuid_ok m st k w = (Inl e, st', w')"
  shows "errors_is e ErrSessionNotFound \<and> invar st' \<and> (\<forall>k'. k' \<noteq> k \<longrightarrow> lookup st' k' = lookup st k') \<and>
    (lookup st' k = None \<or> lookup st' k = lookup st k)"
proof (cases "st' = st \<or> st' = snd (ss_Delete ops st k)")
  case True
  moreover have "errors_is e ErrSessionNotFound"
    using assms refresh_session_err [OF assms(1,2), of k "sm_now m w" w e st' w']
    by (auto simp: Resolve_def Let_def split: if_splits sum.splits option.splits prod.splits)
  ultimately show ?thesis using delete_keeps [OF assms(1), of k] assms(1) by auto
next
  case False
  with assms(2,3) have "refresh_session m st k (sm_now m w) w = (Inl e, st', w')"
    by (auto simp: Resolve_def Let_def split: if_splits sum.splits option.splits prod.splits)
  from refresh_session_err [OF assms(1,2) this] show ?thesis .
qed

text \<open>Every atomic step keeps each stored session's ceiling what \<open>computeExpiresAt\<close> says.\<close>

definition ceilings_ok :: "('st, 'w) session_manager \<Rightarrow> 'st \<Rightarrow> bool" where
  "ceilings_ok m st \<longleftrightarrow> invar st \<and> (\<forall>k s. lookup st k = Some s \<longrightarrow> ceiling_ok m s)"

lemma ceilings_ok_step:
  assumes "sm_step new_uuid m a b" and "sm_store m = ops" and "ceilings_ok m (fst a)"
  shows "ceilings_ok m (fst b)"
  using assms
proof (induction rule: sm_step.induct)
  case (sm_created st token cl w r st' w')
  then obtain s oe where "ss_Create ops st s = (oe, st')" "ceiling_ok m s"
    using sm_Create_ceiling [OF sm_created(1)] by auto
  with sm_created(3) create [of st s oe st'] show ?case
    by (auto simp: ceilings_ok_def split: option.splits if_splits)
next
  case (sm_touched st k now e st' w)
  with touch [of st k now e st'] show ?case
    by (auto simp: ceilings_ok_def ceiling_ok_def split: option.splits if_splits)
next
  case (sm_deleted st k e st' w)
  with delete [of st k e st'] show ?case
    by (auto simp: ceilings_ok_def split: option.splits if_splits)
next
  case (sm_locked st k now w e st' x w')
  then have lock: "ss_WithLock ops st k (refresh_locked m now) (None, w) = (e, st', x, w')" and iv: "invar st"
    by (simp_all add: ceilings_ok_def)
  show ?case
  proof (cases e)
    case (Some e')
    with lock_err [OF iv] lock sm_locked(3) show ?thesis by (simp add: ceilings_ok_def)
  next
    case None
    with lock_ok [OF iv] lock obtain s ret where "invar st'" "refresh_locked m now s (None, w) = (Inr ret, x, w')"
      "lookup st' = (case ret of None \<Rightarrow> lookup st | Some s' \<Rightarrow> (lookup st)(k \<mapsto> s'))" by blast
    with sm_locked(3) refresh_locked_ceiling [of m now s "(None, w)"] show ?thesis
      by (auto simp: ceilings_ok_def split: option.splits if_splits)
  qed
next
  case (sm_cleaned st now r st' w)
  with delete_expired [of st now r st'] show ?case
    by (auto simp: CleanupExpired_def ceilings_ok_def split: option.splits sum.splits if_splits)
next
  case (sm_world st w w')
  then show ?case by simp
qed

lemma ceilings_ok_reachable:
  assumes "sm_reachable new_uuid m a b" and "sm_store m = ops" and "ceilings_ok m (fst a)"
  shows "ceilings_ok m (fst b)"
proof -
  have "preserved (sm_step new_uuid m) (\<lambda>s. ceilings_ok m (fst s))"
    by unfold_locales (use assms(2) ceilings_ok_step in blast)
  from preserved.reachable_keeps [OF this] assms(1,3) show ?thesis by (simp add: sm_reachable_def)
qed

end

section \<open>The in-memory store keeps the contract\<close>

lemma wf_map_card_dropped:
  assumes "wf_map m"
  shows "int (length m) - int (length (filter (\<lambda>(k, v). P v) m)) = int (card {k. \<exists>v. map_of m k = Some v \<and> \<not> P v})"
proof -
  have "{k. \<exists>v. map_of m k = Some v \<and> \<not> P v} = fst ` set (filter (\<lambda>(k, v). \<not> P v) m)"
    using assms by (force simp: wf_map_def image_iff map_of_eq_Some_iff)
  moreover have "card (fst ` set (filter (\<lambda>(k, v). \<not> P v) m)) = length (filter (\<lambda>(k, v). \<not> P v) m)"
    using distinct_card [of "map fst (filter (\<lambda>(k, v). \<not> P v) m)"] assms
    by (simp add: wf_map_def distinct_map_filter)
  moreover have "length (filter (\<lambda>(k, v). P v) m) + length (filter (\<lambda>(k, v). \<not> P v) m) = length m"
    using sum_length_filter_compl [of "\<lambda>(k, v). P v" m] by (simp add: case_prod_unfold)
  ultimately show ?thesis by simp
qed

lemmas fake_defs = fs_Create_def fs_Get_def fs_Touch_def fs_Delete_def fs_DeleteExpired_def fs_WithLock_def

lemma fake_ops_simps [simp]:
  "ss_Create fake_ops = fs_Create" "ss_Get fake_ops = fs_Get" "ss_Touch fake_ops = fs_Touch"
  "ss_WithLock fake_ops = fs_WithLock" "ss_Delete fake_ops = fs_Delete" "ss_DeleteExpired fake_ops = fs_DeleteExpired"
  by (simp_all add: fake_ops_def)

interpretation fake: session_contract fake_ops "\<lambda>st. map_of (fs_data st)" "\<lambda>st. wf_map (fs_data st)"
proof unfold_locales
  fix st k fn x st' x'
  assume "wf_map (fs_data st)" and "ss_WithLock fake_ops st k fn x = (None, st', x')"
  then show "wf_map (fs_data st') \<and> (\<exists>s ret. map_of (fs_data st) k = Some s \<and> fn s x = (Inr ret, x') \<and>
      map_of (fs_data st') = (case ret of None \<Rightarrow> map_of (fs_data st) | Some s' \<Rightarrow> (map_of (fs_data st))(k \<mapsto> s')))"
    by (auto simp: fs_WithLock_def Let_def split: option.splits sum.splits prod.splits)
next
  fix st now r st'
  assume "wf_map (fs_data st)" and "ss_DeleteExpired fake_ops st now = (r, st')"
  then show "wf_map (fs_data st') \<and> (case r of
      Inl _ \<Rightarrow> map_of (fs_data st') = map_of (fs_data st)
    | Inr n \<Rightarrow> map_of (fs_data st') = (\<lambda>k. case map_of (fs_data st) k of None \<Rightarrow> None
                 | Some s \<Rightarrow> if now < se_ExpiresAt s then Some s else None) \<and>
        n = int (card {k. \<exists>s. map_of (fs_data st) k = Some s \<and> \<not> now < se_ExpiresAt s}))"
    using wf_map_card_dropped [of "fs_data st" "\<lambda>s. now < se_ExpiresAt s"]
    by (auto simp: fs_DeleteExpired_def Let_def map_of_filter_value fun_eq_iff)
qed (auto simp: fake_defs Let_def fun_upd_idem split: option.splits sum.splits prod.splits)

section \<open>Properties\<close>

text \<open>
  C9: over any store that keeps its contract, Resolve hands out a session only for a well-formed id, a
  stored session that has reached neither its ceiling nor the idle timeout, and either an access
  token that has not expired and that the verifier, if there is one, accepts now, or a successful
  refresh whose tokens the session then carries and the store holds; it never returns nil without an
  error.
\<close>

theorem resolve_sound:
  assumes "session_contract (sm_store m) lookup invar" and "invar st"
    and "Resolve uuid_ok m st k w = (Inr r, st', w')"
  shows "\<exists>s s'. r = Some s' \<and> uuid_ok k \<and> lookup st k = Some s \<and> sm_now m w < se_ExpiresAt s \<and>
    (sm_idleTimeout m \<le> 0 \<or> is_zero (se_LastSeenAt s) \<or> time_sub (sm_now m w) (se_LastSeenAt s) \<le> sm_idleTimeout m) \<and>
    se_Claims s' = se_Claims s \<and> se_LastSeenAt s' = sm_now m w \<and>
    (if sm_now m w < ts_AccessTokenExpiresAt (se_Tokens s)
     then se_Tokens s' = se_Tokens s \<and>
       (case sm_verifier m of None \<Rightarrow> w' = w | Some verify \<Rightarrow> \<exists>cl. verify (ts_AccessToken (se_Tokens s)) w = (Inr cl, w'))
     else \<exists>token. ts_RefreshToken (se_Tokens s) \<noteq> [] \<and>
       sm_refresh m (ts_RefreshToken (se_Tokens s)) w = (Inr token, w') \<and>
       se_Tokens s' = tokenSetFrom (sm_now m w') token (se_Tokens s) \<and> lookup st' = (lookup st)(k \<mapsto> s'))"
  by (rule session_contract.resolve_ok [OF assms(1,2) refl assms(3)])
    (auto simp: isExpired_def renewed_def Let_def split: if_splits)

text \<open>A manager over the in-memory store, whose world is the clock; the refresh grants one hour.\<close>

definition demo_token :: oauth2_token where
  "demo_token = \<lparr>ot_AccessToken = ''a2'', ot_TokenType = ''Bearer'', ot_RefreshToken = ''r2'', ot_Expiry = 5 * Hour,
     ot_Extra = [''refresh_expires_in'' \<mapsto> JNum 3600]\<rparr>"

definition demo_manager :: "(fake_store, instant) session_manager" where
  "demo_manager = \<lparr>sm_store = fake_ops, sm_refresh = (\<lambda>rt w. (Inr demo_token, w)), sm_verifier = None,
     sm_clientID = ''app'', sm_idleTimeout = 0, sm_absoluteTimeout = 12 * Hour, sm_now = (\<lambda>w. w)\<rparr>"

definition demo_session :: session where
  "demo_session = \<lparr>se_ID = ''u'', se_Tokens = no_tokens\<lparr>ts_RefreshToken := ''r1'', ts_AccessTokenExpiresAt := Hour,
       ts_RefreshTokenExpiresAt := 4 * Hour + Minute\<rparr>,
     se_Claims = no_claims, se_ExpiresAt = 4 * Hour + Minute, se_CreatedAt = Minute, se_UpdatedAt = Minute,
     se_LastSeenAt = zero_time\<rparr>"

definition demo_store :: fake_store where
  "demo_store = \<lparr>fs_data = [(''u'', demo_session)], fs_withLockCall = 0\<rparr>"

lemma demo_manager_simps [simp]:
  "sm_store demo_manager = fake_ops" "sm_now demo_manager w = w" "sm_absoluteTimeout demo_manager = 12 * Hour"
  "sm_refresh demo_manager rt w = (Inr demo_token, w)" "sm_verifier demo_manager = None"
  "sm_idleTimeout demo_manager = 0"
  by (simp_all add: demo_manager_def)

lemma demo_contract:
  "session_contract (sm_store demo_manager) (\<lambda>st. map_of (fs_data st)) (\<lambda>st. wf_map (fs_data st))"
  using fake.session_contract_axioms by simp

lemma demo_refresh:
  "refresh_session demo_manager demo_store ''u'' (2 * Hour) (2 * Hour) =
     (Inr (Some (renewed demo_manager (2 * Hour) (2 * Hour) demo_token demo_session)),
      \<lparr>fs_data = [(''u'', renewed demo_manager (2 * Hour) (2 * Hour) demo_token demo_session)], fs_withLockCall = 1\<rparr>,
      2 * Hour)"
  by (simp add: refresh_session_def fs_WithLock_def refresh_locked_def demo_store_def demo_session_def isExpired_def
      no_tokens_def Let_def clock_simps)

lemma demo_resolve:
  "Resolve (\<lambda>k. True) demo_manager demo_store ''u'' (2 * Hour) =
     (Inr (Some (renewed demo_manager (2 * Hour) (2 * Hour) demo_token demo_session)),
      \<lparr>fs_data = [(''u'', renewed demo_manager (2 * Hour) (2 * Hour) demo_token demo_session)], fs_withLockCall = 1\<rparr>,
      2 * Hour)"
proof -
  have "fs_Get demo_store ''u'' = Inr demo_session"
    by (simp add: fs_Get_def demo_store_def)
  moreover have "\<not> isExpired demo_manager demo_session (2 * Hour)"
    and "\<not> 2 * Hour < ts_AccessTokenExpiresAt (se_Tokens demo_session)"
    by (simp_all add: isExpired_def demo_session_def clock_simps)
  ultimately show ?thesis using demo_refresh by (simp add: Resolve_def Let_def)
qed

theorem resolve_sound_witness:
  "\<exists>s (s' :: session). map_of (fs_data demo_store) ''u'' = Some s \<and> 2 * Hour < se_ExpiresAt s \<and>
     se_Claims s' = se_Claims s \<and> se_LastSeenAt s' = 2 * Hour"
proof -
  have "wf_map (fs_data demo_store)" by (simp add: demo_store_def wf_map_def)
  from resolve_sound [OF demo_contract this demo_resolve] show ?thesis
    unfolding demo_manager_simps by blast
qed

text \<open>
  A failed Resolve always wraps ErrSessionNotFound; over the in-memory store it removes the
  session, and no other, unless the id is malformed, when nothing is touched.
\<close>

lemma resolve_failure_deletes:
  assumes "sm_store m = fake_ops" and "wf_map (fs_data st)" and "Resolve uuid_ok m st k w = (Inl e, st', w')"
  shows "errors_is e ErrSessionNotFound \<and>
    (if uuid_ok k then map_of (fs_data st') = (map_of (fs_data st))(k := None) else st' = st)"
proof -
  have locked: "errors_is e' ErrSessionNotFound \<and> map_of (fs_data st1) = map_of (fs_data st)"
    if "fs_WithLock st k (refresh_locked m (sm_now m w)) (None, w) = (Some e', st1, x)" for e' st1 x
    using that by (auto simp: fs_WithLock_def refresh_locked_def Let_def split: option.splits sum.splits prod.splits if_splits)
  have "map_of (fs_data st') = (map_of (fs_data st))(k := None)" if "uuid_ok k"
    using assms that locked
    by (auto simp: Resolve_def Let_def fs_Get_def fs_Delete_def refresh_session_def
        split: if_splits option.splits sum.splits prod.splits)
  moreover have "st' = st" if "\<not> uuid_ok k"
    using assms(3) that by (simp add: Resolve_def)
  ultimately show ?thesis
    using fake.resolve_err [OF assms(2,1,3)] by simp
qed

theorem resolve_failure_deletes_witness:
  "errors_is (Wrapped ''%w: expired'' [ErrSessionNotFound]) ErrSessionNotFound \<and>
   (if (\<lambda>k. True) ''u'' then map_of (fs_data \<lparr>fs_data = [], fs_withLockCall = 0\<rparr>) = (map_of (fs_data demo_store))(''u'' := None)
    else \<lparr>fs_data = [], fs_withLockCall = 0\<rparr> = demo_store)"
proof (rule resolve_failure_deletes [of demo_manager])
  show "Resolve (\<lambda>k. True) demo_manager demo_store ''u'' (5 * Hour) =
      (Inl (Wrapped ''%w: expired'' [ErrSessionNotFound]), \<lparr>fs_data = [], fs_withLockCall = 0\<rparr>, 5 * Hour)"
    by (simp add: Resolve_def fs_Get_def fs_Delete_def demo_store_def demo_session_def isExpired_def clock_simps)
qed (simp_all add: demo_store_def wf_map_def)

text \<open>
  With an absolute timeout no session is handed out at or after its creation plus that timeout,
  whatever requests, refreshes, cleanups and deletions were interleaved before; and the moment is
  also before the ceiling computed from the stored tokens.
\<close>

lemma session_lifetime_bound:
  assumes "session_contract (sm_store m) lookup invar" and "invar st0" and "lookup st0 = Map.empty"
    and "sm_reachable new_uuid m (st0, w0) (st, w)" and "0 < sm_absoluteTimeout m"
    and "Resolve uuid_ok m st k w = (Inr (Some s), st', w')"
  shows "sm_now m w < se_CreatedAt s + sm_absoluteTimeout m \<and>
    (\<exists>s0. lookup st k = Some s0 \<and> se_CreatedAt s0 = se_CreatedAt s \<and> sm_now m w < computeExpiresAt m s0)"
proof -
  have "session_contract.ceilings_ok lookup invar m st"
    using session_contract.ceilings_ok_reachable [OF assms(1,4) refl] assms(2,3)
    by (simp add: session_contract.ceilings_ok_def [OF assms(1)])
  then have inv: "invar st" and ceil: "lookup st k = Some s0 \<Longrightarrow> ceiling_ok m s0" for s0
    by (simp_all add: session_contract.ceilings_ok_def [OF assms(1)])
  obtain s0 where "lookup st k = Some s0" "se_CreatedAt s0 = se_CreatedAt s" "\<not> isExpired m s0 (sm_now m w)"
    by (rule session_contract.resolve_ok [OF assms(1) inv refl assms(6)]) auto
  moreover from this have "sm_now m w < computeExpiresAt m s0"
    using ceil by (simp add: isExpired_def ceiling_ok_def split: if_splits)
  ultimately show ?thesis using computeExpiresAt_absolute [OF assms(5), of s0] by auto
qed

lemma demo_reachable:
  "sm_reachable (\<lambda>w. (''u'', w)) demo_manager (\<lparr>fs_data = [], fs_withLockCall = 0\<rparr>, Minute)
     (snd (fs_Create \<lparr>fs_data = [], fs_withLockCall = 0\<rparr> (demo_session\<lparr>se_Tokens :=
        tokenSetFrom Minute (demo_token\<lparr>ot_Expiry := Hour\<rparr>) no_tokens, se_ExpiresAt := Minute + Hour\<rparr>)), 30 * Minute)"
proof -
  let ?st0 = "\<lparr>fs_data = [], fs_withLockCall = 0\<rparr>" and ?tok = "demo_token\<lparr>ot_Expiry := Hour\<rparr>"
  obtain r st w where c: "sm_Create (\<lambda>w. (''u'', w)) demo_manager ?st0 ?tok no_claims Minute = (r, st, w)"
    by (cases "sm_Create (\<lambda>w. (''u'', w)) demo_manager ?st0 ?tok no_claims Minute")
  then have "w = Minute" and "st = snd (fs_Create ?st0 (demo_session\<lparr>se_Tokens :=
      tokenSetFrom Minute ?tok no_tokens, se_ExpiresAt := Minute + Hour\<rparr>))"
    by (simp_all add: sm_Create_def fs_Create_def demo_session_def Let_def demo_token_def tokenSetFrom_def
        computeExpiresAt_def no_tokens_def float_to_int64_def is_int64_def wrap64_def clock_simps)
  with sm_step.sm_created [OF c] sm_step.sm_world show ?thesis
    unfolding sm_reachable_def by (metis converse_rtranclp_into_rtranclp rtranclp.rtrancl_refl)
qed

theorem session_lifetime_bound_witness:
  "30 * Minute < Minute + 12 * Hour \<and>
   (\<exists>st (s :: session). sm_reachable (\<lambda>w. (''u'', w)) demo_manager (\<lparr>fs_data = [], fs_withLockCall = 0\<rparr>, Minute) (st, 30 * Minute) \<and>
     30 * Minute < se_CreatedAt s + 12 * Hour)"
proof -
  let ?s = "demo_session\<lparr>se_Tokens := tokenSetFrom Minute (demo_token\<lparr>ot_Expiry := Hour\<rparr>) no_tokens,
      se_ExpiresAt := Minute + Hour\<rparr>"
  let ?st = "snd (fs_Create \<lparr>fs_data = [], fs_withLockCall = 0\<rparr> ?s)"
  have r: "Resolve (\<lambda>k. True) demo_manager ?st ''u'' (30 * Minute) =
      (Inr (Some (?s\<lparr>se_LastSeenAt := 30 * Minute\<rparr>)), snd (fs_Touch ?st ''u'' (30 * Minute)), 30 * Minute)"
    by (simp add: Resolve_def fs_Get_def fs_Create_def demo_session_def isExpired_def tokenSetFrom_def demo_token_def
        no_tokens_def Let_def clock_simps)
  have "0 < sm_absoluteTimeout demo_manager" by (simp add: clock_simps)
  from session_lifetime_bound [OF demo_contract _ _ demo_reachable this r] demo_reachable
  show ?thesis by (auto simp: clock_simps)
qed

text \<open>The requests waiting for one session's lock, one after the other.\<close>

fun refresh_queue ::
  "('st, 'w) session_manager \<Rightarrow> string \<Rightarrow> instant list \<Rightarrow> 'st \<Rightarrow> 'w \<Rightarrow> (go_err + session option) list \<times> 'st \<times> 'w"
where
  "refresh_queue m k [] st w = ([], st, w)"
| "refresh_queue m k (now # nows) st w =
     (case refresh_session m st k now w of
        (r, st', w') \<Rightarrow> (case refresh_queue m k nows st' w' of (rs, st'', w'') \<Rightarrow> (r # rs, st'', w'')))"

lemma refresh_queue_current:
  assumes "sm_store m = fake_ops" and "map_of (fs_data st) k = Some s"
    and "\<forall>now \<in> set nows. now < ts_AccessTokenExpiresAt (se_Tokens s)"
  shows "\<exists>st'. refresh_queue m k nows st w = (replicate (length nows) (Inr (Some s)), st', w) \<and> fs_data st' = fs_data st"
  using assms
proof (induction nows arbitrary: st)
  case Nil
  then show ?case by simp
next
  case (Cons now nows)
  let ?st1 = "st\<lparr>fs_withLockCall := fs_withLockCall st + 1\<rparr>"
  have "refresh_session m st k now w = (Inr (Some s), ?st1, w)"
    using Cons.prems by (simp add: refresh_session_def fs_WithLock_def refresh_locked_def Let_def)
  moreover from Cons.IH [of ?st1] Cons.prems
  obtain st' where "refresh_queue m k nows ?st1 w = (replicate (length nows) (Inr (Some s)), st', w)"
    and "fs_data st' = fs_data st" by auto
  ultimately show ?case by auto
qed

text \<open>
  Requests that queue up for the lock of one session make one refresh grant between them: once the
  first has refreshed, every later one whose reading of the clock is before the new access token's
  expiry gets the same session, and neither the issuer nor the stored session is touched again.
\<close>

lemma refresh_coalesced:
  assumes "sm_store m = fake_ops" and "wf_map (fs_data st)"
    and "refresh_session m st k now w = (Inr (Some s), st1, w1)"
    and "\<forall>t \<in> set nows. t < ts_AccessTokenExpiresAt (se_Tokens s)"
  shows "\<exists>st'. refresh_queue m k (now # nows) st w = (replicate (Suc (length nows)) (Inr (Some s)), st', w1) \<and>
    fs_data st' = fs_data st1 \<and> map_of (fs_data st1) k = Some s"
proof -
  have "map_of (fs_data st1) k = Some s"
    by (rule fake.refresh_session_ok [OF assms(2,1,3)]) auto
  with refresh_queue_current [OF assms(1) this assms(4), of w1] assms(3) show ?thesis by auto
qed

theorem refresh_coalesced_witness:
  "\<exists>st'. refresh_queue demo_manager ''u'' [2 * Hour, 2 * Hour, 3 * Hour] demo_store (2 * Hour) =
     (replicate 3 (Inr (Some (renewed demo_manager (2 * Hour) (2 * Hour) demo_token demo_session))), st', 2 * Hour)"
proof -
  have "wf_map (fs_data demo_store)" by (simp add: demo_store_def wf_map_def)
  moreover have "\<forall>t \<in> set [2 * Hour, 3 * Hour].
      t < ts_AccessTokenExpiresAt (se_Tokens (renewed demo_manager (2 * Hour) (2 * Hour) demo_token demo_session))"
    by (simp add: renewed_def tokenSetFrom_def demo_token_def demo_session_def no_tokens_def Let_def clock_simps)
  ultimately show ?thesis
    using refresh_coalesced [OF demo_manager_simps(1) _ demo_refresh, of "[2 * Hour, 3 * Hour]"]
    by (auto simp: eval_nat_numeral simp del: refresh_queue.simps)
qed

lemma string_field_kept:
  assumes "\<And>s. f (u s) = f ts"
  shows "f (case x of Some (JStr s) \<Rightarrow> if s \<noteq> [] then u s else ts | _ \<Rightarrow> ts) = f ts"
  using assms by (simp split: option.split json.split)

lemma number_field_kept:
  assumes "\<And>n. f (u n) = f ts"
  shows "f (case x of Some (JNum n) \<Rightarrow> if 0 < n then u n else ts | _ \<Rightarrow> ts) = f ts"
  using assms by (simp split: option.split json.split)

lemma tokenSetFrom_refresh:
  "ts_RefreshToken (tokenSetFrom now token prev) =
     (if ot_RefreshToken token \<noteq> [] then ot_RefreshToken token else ts_RefreshToken prev)"
proof -
  note kept = string_field_kept [of ts_RefreshToken] number_field_kept [of ts_RefreshToken]
  show ?thesis
    unfolding tokenSetFrom_def Let_def
    by (subst kept(1), simp, subst kept(2), simp, subst kept(1), simp) simp
qed

lemma tokenSetFrom_refresh_expiry:
  assumes "ot_Extra token ''refresh_expires_in'' = Some (JNum secs)" and "0 < secs"
  shows "ts_RefreshTokenExpiresAt (tokenSetFrom now token prev) = time_add now (wrap64 (float_to_int64 secs * Second))"
  unfolding tokenSetFrom_def Let_def
  by (subst string_field_kept [of ts_RefreshTokenExpiresAt], simp) (simp add: assms)

text \<open>
  A refresh whose answer reports a refresh token lifetime of n seconds sets the session's ceiling
  to n seconds after the answer, cut only by the absolute timeout: it replaces the previous ceiling,
  so without an absolute timeout every refresh can move the ceiling later.
\<close>

lemma refresh_moves_ceiling:
  assumes "ot_Extra token ''refresh_expires_in'' = Some (JNum (of_int n))" and "0 < n" and "n \<le> 9223372036"
    and "ts_RefreshToken (se_Tokens s) \<noteq> []" and "0 < received"
  shows "se_ExpiresAt (renewed m now received token s) =
    (if 0 < sm_absoluteTimeout m then min (received + n * Second) (se_CreatedAt s + sm_absoluteTimeout m)
     else received + n * Second)"
proof -
  have "wrap64 (float_to_int64 (of_int n) * Second) = n * Second"
    using assms(2,3) by (simp add: float_to_int64_def is_int64_def clock_simps)
  then have exp: "ts_RefreshTokenExpiresAt (tokenSetFrom received token (se_Tokens s)) = received + n * Second"
    using tokenSetFrom_refresh_expiry [OF assms(1)] assms(2) by (simp add: time_add_def)
  have "\<not> is_zero (received + n * Second)" using assms(2,5) by (simp add: clock_simps)
  with exp assms(4) show ?thesis
    by (simp add: renewed_def computeExpiresAt_def Let_def tokenSetFrom_refresh time_add_def)
qed

theorem refresh_moves_ceiling_witness:
  "se_ExpiresAt demo_session < se_ExpiresAt (renewed (demo_manager\<lparr>sm_absoluteTimeout := 0\<rparr>) (4 * Hour) (4 * Hour) demo_token demo_session)"
proof -
  have "ot_Extra demo_token ''refresh_expires_in'' = Some (JNum (of_int 3600))" by (simp add: demo_token_def)
  from refresh_moves_ceiling [OF this, of demo_session "4 * Hour" "demo_manager\<lparr>sm_absoluteTimeout := 0\<rparr>" "4 * Hour"]
  show ?thesis by (simp add: demo_session_def no_tokens_def clock_simps)
qed

text \<open>
  After any number of cleanup passes over the in-memory store exactly the sessions whose ceiling
  lies after every pass remain, and the counts reported to the callback add up to the number of
  sessions removed.
\<close>

lemma cleanup_accounting:
  assumes "sm_store m = fake_ops" and "wf_map (fs_data st)"
  shows "case cleanup_ticks m timeout True (map Some ticks) st of (rs, st') \<Rightarrow>
    sum_list (map cr_Removed rs) = int (length (fs_data st)) - int (length (fs_data st')) \<and>
    (\<forall>k. map_of (fs_data st') k = (case map_of (fs_data st) k of None \<Rightarrow> None
       | Some s \<Rightarrow> if (\<forall>(start, now, fin) \<in> set ticks. now < se_ExpiresAt s) then Some s else None))"
  using assms(2)
proof (induction ticks arbitrary: st)
  case Nil
  then show ?case by (auto split: option.split)
next
  case (Cons tick ticks)
  obtain start now fin where tick: "tick = (start, now, fin)" by (metis prod.collapse)
  let ?kept = "filter (\<lambda>(k, sess). now < se_ExpiresAt sess) (fs_data st)"
  let ?st1 = "st\<lparr>fs_data := ?kept\<rparr>"
  obtain rs st' where run: "cleanup_ticks m timeout True (map Some ticks) ?st1 = (rs, st')" by force
  with Cons.IH [of ?st1] Cons.prems have
    "sum_list (map cr_Removed rs) = int (length ?kept) - int (length (fs_data st'))"
    "\<forall>k. map_of (fs_data st') k = (case map_of ?kept k of None \<Rightarrow> None
       | Some s \<Rightarrow> if (\<forall>(start, now, fin) \<in> set ticks. now < se_ExpiresAt s) then Some s else None)"
    by simp_all
  with run tick assms(1) Cons.prems show ?case
    by (auto simp: runCleanupOnce_def CleanupExpired_def fs_DeleteExpired_def Let_def map_of_filter_value
        split: option.splits)
qed

end
