(* ===== verification/Flow.thy ===== *)
theory Flow
  imports Session Encoding
begin

text \<open>
  The authorization code flow (\<^verbatim>\<open>src/oidcauth/flow.go\<close>). The requests made by \<^verbatim>\<open>golang.org/x/oauth2\<close> and
  go-oidc are parameters.
\<close>

section \<open>The flow\<close>

definition defaultScopes :: "string list" where "defaultScopes = [''openid'', ''profile'', ''email'']"

text \<open>\<open>fo_endpoint\<close> stands for the provider's endpoints.\<close>

record 'e flow =
  fl_ClientID :: string
  fl_ClientSecret :: string
  fl_RedirectURL :: string
  fl_Scopes :: "string list"
  fl_Endpoint :: 'e
  fl_endSessionURL :: string

record flow_config =
  fc_IssuerURL :: string
  fc_ClientID :: string
  fc_ClientSecret :: string
  fc_RedirectURI :: string
  fc_Scopes :: "string list"

text \<open>\<open>discover\<close>: the provider's endpoints and its \<open>end_session_endpoint\<close>, or the error of reading it.\<close>

definition NewFlow :: "(string \<Rightarrow> go_err + 'e \<times> (go_err + string)) \<Rightarrow> flow_config \<Rightarrow> go_err + 'e flow" where
  "NewFlow discover cfg =
     (case discover (fc_IssuerURL cfg) of
        Inl e \<Rightarrow> Inl (Wrapped ''oidc flow: discover provider: %w'' [e])
      | Inr (endpoint, Inl e) \<Rightarrow> Inl (Wrapped ''oidc flow: read discovery claims: %w'' [e])
      | Inr (endpoint, Inr endSession) \<Rightarrow>
          Inr \<lparr>fl_ClientID = fc_ClientID cfg, fl_ClientSecret = fc_ClientSecret cfg,
               fl_RedirectURL = fc_RedirectURI cfg,
               fl_Scopes = (if fc_Scopes cfg = [] then defaultScopes else fc_Scopes cfg),
               fl_Endpoint = endpoint, fl_endSessionURL = endSession\<rparr>)"

text \<open>What \<^verbatim>\<open>oauth2.Config\<close> does for the flow: the authorize URL, and the two grants.\<close>

record ('e, 'w) oauth2_env =
  oa_AuthCodeURL :: "'e flow \<Rightarrow> string \<Rightarrow> string \<Rightarrow> string"
  oa_Exchange :: "'e flow \<Rightarrow> string \<Rightarrow> string \<Rightarrow> 'w \<Rightarrow> (go_err + oauth2_token) \<times> 'w"
  oa_Token :: "'e flow \<Rightarrow> string \<Rightarrow> 'w \<Rightarrow> (go_err + oauth2_token) \<times> 'w"

definition AuthCodeURL :: "('e, 'w) oauth2_env \<Rightarrow> 'e flow \<Rightarrow> string \<Rightarrow> string \<Rightarrow> string" where
  "AuthCodeURL env f state verifier = oa_AuthCodeURL env f state verifier"

definition Exchange ::
  "('e, 'w) oauth2_env \<Rightarrow> 'e flow \<Rightarrow> string \<Rightarrow> string \<Rightarrow> 'w \<Rightarrow> (go_err + oauth2_token) \<times> 'w"
where
  "Exchange env f code verifier w =
     (case oa_Exchange env f code verifier w of
        (Inl e, w') \<Rightarrow> (Inl (Wrapped ''oidc flow: exchange code: %w'' [e]), w')
      | (Inr token, w') \<Rightarrow> (Inr token, w'))"

definition flow_Refresh ::
  "('e, 'w) oauth2_env \<Rightarrow> 'e flow \<Rightarrow> string \<Rightarrow> 'w \<Rightarrow> (go_err + oauth2_token) \<times> 'w"
where
  "flow_Refresh env f refreshToken w =
     (case oa_Token env f refreshToken w of
        (Inl e, w') \<Rightarrow> (Inl (Wrapped ''oidc flow: refresh token: %w'' [e]), w')
      | (Inr token, w') \<Rightarrow> (Inr token, w'))"

definition EndSessionURL :: "'e flow \<Rightarrow> string \<Rightarrow> string \<Rightarrow> string" where
  "EndSessionURL f idToken postLogoutRedirectURI =
     (if fl_endSessionURL f = [] then []
      else
        (let params = [(''client_id'', fl_ClientID f), (''post_logout_redirect_uri'', postLogoutRedirectURI)];
             params' = (if idToken \<noteq> [] then AList.update ''id_token_hint'' idToken params else params)
         in fl_endSessionURL f @ ''?'' @ values_encode (map (\<lambda>(k, v). (k, [v])) params')))"

section \<open>Properties\<close>

text \<open>
  The logout URL is empty when the issuer has no end-session endpoint; otherwise it is that
  endpoint followed by a query from which a receiver reads back exactly the client id, the ID token
  when there is one, and the redirect URI, whatever characters they contain.
\<close>

lemma end_session_url:
  "if fl_endSessionURL f = [] then EndSessionURL f idToken uri = []
   else \<exists>q. EndSessionURL f idToken uri = fl_endSessionURL f @ ''?'' @ q \<and>
     parse_query q = Some ([(''client_id'', fl_ClientID f)] @
       (if idToken = [] then [] else [(''id_token_hint'', idToken)]) @ [(''post_logout_redirect_uri'', uri)])"
proof -
  have s1: "sort [''client_id'', ''post_logout_redirect_uri''] = [''client_id'', ''post_logout_redirect_uri'']"
    and s2: "sort [''client_id'', ''post_logout_redirect_uri'', ''id_token_hint''] =
      [''client_id'', ''id_token_hint'', ''post_logout_redirect_uri'']"
    by code_simp+
  show ?thesis
    by (auto simp: EndSessionURL_def Let_def parse_query_encode sorted_pairs_def s1 s2)
qed

end
