(* ===== verification/Respond.thy ===== *)
theory Respond
  imports Claims
begin

text \<open>
  Package \<^verbatim>\<open>httpserver/respond\<close>: the response envelope and its helpers (\<^verbatim>\<open>respond.go\<close>), and the table
  that turns errors into API errors (\<^verbatim>\<open>error_resolver.go\<close>). A handler is modelled by the calls it makes
  on its gin context, in order: an \<open>effect\<close> list. What gin does with them is not modelled.
\<close>

section \<open>Envelope and effects\<close>

record api_error =
  ae_Code :: string
  ae_Message :: string
  ae_Details :: "json option"

record response =
  rp_Success :: bool
  rp_Message :: string
  rp_Data :: "json option"
  rp_Errors :: "api_error list"

datatype same_site = SameSiteUnset | SameSiteDefaultMode | SameSiteLaxMode | SameSiteStrictMode | SameSiteNoneMode

record cookie =
  ck_Name :: string
  ck_Value :: string
  ck_Path :: string
  ck_Domain :: string
  ck_MaxAge :: int
  ck_Secure :: bool
  ck_HttpOnly :: bool
  ck_SameSite :: same_site

text \<open>
  The values handlers keep in a context: claims, an atom of a comparable dynamic type, or a value of
  a dynamic type that Go cannot compare (a slice or a map).
\<close>

datatype ctx_value = VClaims claims | VAtom string string | VUncomparable string

datatype effect =
  Header string string
| Status int
| JSON int response
| AbortWithStatusJSON int response
| AbortWithStatus int
| SetKey string ctx_value
| SetCookie cookie
| Redirect int string
| Next

section \<open>Helpers\<close>

definition msgOK :: string where "msgOK = ''The request was processed successfully''"
definition msgAccepted :: string where "msgAccepted = ''The request was accepted for processing''"
definition msgCreated :: string where "msgCreated = ''The resource was created successfully''"
definition msgBadRequest :: string where "msgBadRequest = ''Invalid request body''"
definition msgUnauthorized :: string where "msgUnauthorized = ''Unauthorized access''"
definition msgForbidden :: string where
  "msgForbidden = ''Access denied, you do not have permission to access this resource''"
definition msgNotFound :: string where "msgNotFound = ''Resource not found''"
definition msgConflict :: string where "msgConflict = ''Conflict with the current state of the resource''"
definition msgUnprocessable :: string where "msgUnprocessable = ''Unprocessable entity''"
definition msgTooManyRequest :: string where "msgTooManyRequest = ''Too many requests''"
definition msgInternalError :: string where "msgInternalError = ''An internal server error occurred''"
definition msgServiceUnavailable :: string where
  "msgServiceUnavailable = ''The service is currently unavailable''"

lemmas msg_defs = msgOK_def msgAccepted_def msgCreated_def msgBadRequest_def msgUnauthorized_def msgForbidden_def
  msgNotFound_def msgConflict_def msgUnprocessable_def msgTooManyRequest_def msgInternalError_def
  msgServiceUnavailable_def

definition NewError :: "string \<Rightarrow> string \<Rightarrow> json option list \<Rightarrow> api_error" where
  "NewError code message details =
     (let e = \<lparr>ae_Code = code, ae_Message = message, ae_Details = None\<rparr>
      in case details of d # _ \<Rightarrow> e\<lparr>ae_Details := d\<rparr> | [] \<Rightarrow> e)"

definition pickMessage :: "string \<Rightarrow> string list \<Rightarrow> string" where
  "pickMessage def msg = (case msg of m # _ \<Rightarrow> if m \<noteq> [] then m else def | [] \<Rightarrow> def)"

definition successResponse :: "json option \<Rightarrow> string \<Rightarrow> response" where
  "successResponse data message = \<lparr>rp_Success = True, rp_Message = message, rp_Data = data, rp_Errors = []\<rparr>"

definition errorResponse :: "api_error list \<Rightarrow> string \<Rightarrow> response" where
  "errorResponse errs message = \<lparr>rp_Success = False, rp_Message = message, rp_Data = None, rp_Errors = errs\<rparr>"

definition respond_OK :: "json option \<Rightarrow> string list \<Rightarrow> effect list" where
  "respond_OK data message = [JSON 200 (successResponse data (pickMessage msgOK message))]"

definition respond_Accepted :: "json option \<Rightarrow> string list \<Rightarrow> effect list" where
  "respond_Accepted data message = [JSON 202 (successResponse data (pickMessage msgAccepted message))]"

definition respond_Created :: "json option \<Rightarrow> string list \<Rightarrow> effect list" where
  "respond_Created data message = [JSON 201 (successResponse data (pickMessage msgCreated message))]"

definition respond_NoContent :: "effect list" where
  "respond_NoContent = [Status 204]"

definition respond_BadRequest :: "api_error list \<Rightarrow> effect list" where
  "respond_BadRequest errs = [AbortWithStatusJSON 400 (errorResponse errs msgBadRequest)]"

definition respond_Unauthorized :: "api_error list \<Rightarrow> effect list" where
  "respond_Unauthorized errs = [AbortWithStatusJSON 401 (errorResponse errs msgUnauthorized)]"

definition respond_Forbidden :: "api_error list \<Rightarrow> effect list" where
  "respond_Forbidden errs = [AbortWithStatusJSON 403 (errorResponse errs msgForbidden)]"

definition respond_NotFound :: "api_error list \<Rightarrow> effect list" where
  "respond_NotFound errs = [AbortWithStatusJSON 404 (errorResponse errs msgNotFound)]"

definition respond_Conflict :: "api_error list \<Rightarrow> effect list" where
  "respond_Conflict errs = [AbortWithStatusJSON 409 (errorResponse errs msgConflict)]"

definition respond_UnprocessableEntity :: "api_error list \<Rightarrow> effect list" where
  "respond_UnprocessableEntity errs = [AbortWithStatusJSON 422 (errorResponse errs msgUnprocessable)]"

definition respond_TooManyRequests :: "api_error list \<Rightarrow> effect list" where
  "respond_TooManyRequests errs = [AbortWithStatusJSON 429 (errorResponse errs msgTooManyRequest)]"

definition respond_InternalServerError :: "api_error list \<Rightarrow> effect list" where
  "respond_InternalServerError errs = [AbortWithStatusJSON 500 (errorResponse errs msgInternalError)]"

definition respond_ServiceUnavailable :: "api_error list \<Rightarrow> effect list" where
  "respond_ServiceUnavailable errs = [AbortWithStatusJSON 503 (errorResponse errs msgServiceUnavailable)]"

definition statusMessage :: "int \<Rightarrow> string" where
  "statusMessage status =
     (if status = 400 then msgBadRequest
      else if status = 401 then msgUnauthorized
      else if status = 403 then msgForbidden
      else if status = 404 then msgNotFound
      else if status = 409 then msgConflict
      else if status = 422 then msgUnprocessable
      else if status = 429 then msgTooManyRequest
      else if status = 503 then msgServiceUnavailable
      else msgInternalError)"

definition respond_Error :: "int \<Rightarrow> api_error list \<Rightarrow> effect list" where
  "respond_Error status errs = [AbortWithStatusJSON status (errorResponse errs (statusMessage status))]"

lemmas respond_defs = respond_OK_def respond_Accepted_def respond_Created_def respond_NoContent_def
  respond_BadRequest_def respond_Unauthorized_def respond_Forbidden_def respond_NotFound_def respond_Conflict_def
  respond_UnprocessableEntity_def respond_TooManyRequests_def respond_InternalServerError_def
  respond_ServiceUnavailable_def respond_Error_def

section \<open>The error table\<close>

record err_entry =
  ee_Err :: "go_err option"
  ee_Status :: int
  ee_Code :: string
  ee_Message :: string
  ee_Details :: "json option"

record error_resolver =
  rs_entries :: "err_entry list"
  rs_fallback :: err_entry

text \<open>\<^verbatim>\<open>errors.Is(err, target)\<close> on values that may be nil.\<close>

definition is_err :: "go_err option \<Rightarrow> go_err option \<Rightarrow> bool" where
  "is_err err target =
     (case (err, target) of (Some e, Some t) \<Rightarrow> errors_is e t | (None, None) \<Rightarrow> True | _ \<Rightarrow> False)"

definition IsErr :: "err_entry \<Rightarrow> go_err option \<Rightarrow> bool" where
  "IsErr e err = is_err err (ee_Err e)"

definition err_validate :: "err_entry \<Rightarrow> go_err option" where
  "err_validate e =
     (if ee_Err e = None then Some (Sentinel ''error cannot be nil'')
      else if ee_Code e = [] then Some (Sentinel ''code cannot be empty'')
      else if ee_Message e = [] then Some (Sentinel ''message cannot be empty'')
      else if ee_Status e \<noteq> 0 \<and> (ee_Status e < 100 \<or> 599 < ee_Status e)
        then Some (Wrapped ''invalid http status %d'' [])
      else None)"

definition apiError :: "err_entry \<Rightarrow> api_error" where
  "apiError e = \<lparr>ae_Code = ee_Code e, ae_Message = ee_Message e, ae_Details = ee_Details e\<rparr>"

definition NewErrorResolver :: error_resolver where
  "NewErrorResolver = \<lparr>rs_entries = [],
     rs_fallback = \<lparr>ee_Err = Some (Sentinel ''respond: unregistered error''), ee_Status = 500,
       ee_Code = ''INTERNAL_SERVER_ERROR'', ee_Message = msgInternalError, ee_Details = None\<rparr>\<rparr>"

definition with_status :: "err_entry \<Rightarrow> err_entry" where
  "with_status e = (if ee_Status e = 0 then e\<lparr>ee_Status := 500\<rparr> else e)"

definition SetFallback :: "error_resolver \<Rightarrow> err_entry \<Rightarrow> go_err option \<times> error_resolver" where
  "SetFallback r e =
     (case err_validate e of
        Some err \<Rightarrow> (Some (Wrapped ''respond err register: fallback: %w'' [err]), r)
      | None \<Rightarrow> (None, r\<lparr>rs_fallback := with_status e\<rparr>))"

fun aliasLocked :: "err_entry list \<Rightarrow> go_err option \<Rightarrow> err_entry option" where
  "aliasLocked [] err = None"
| "aliasLocked (e # es) err =
     (if is_err err (ee_Err e) \<and> is_err (ee_Err e) err then Some e else aliasLocked es err)"

fun AddEntries :: "error_resolver \<Rightarrow> err_entry list \<Rightarrow> go_err option \<times> error_resolver" where
  "AddEntries r [] = (None, r)"
| "AddEntries r (e # es) =
     (case err_validate e of
        Some err \<Rightarrow> (Some (Wrapped ''add error respond: entry %d: %w'' [err]), r)
      | None \<Rightarrow>
          (case aliasLocked (rs_entries r) (ee_Err e) of
             Some dup \<Rightarrow>
               (Some (Wrapped ''add error respond: entry %d (%s): sentinel already mapped to %q'' []), r)
           | None \<Rightarrow> AddEntries (r\<lparr>rs_entries := rs_entries r @ [with_status e]\<rparr>) es))"

text \<open>\<open>None\<close> is the panic.\<close>

definition MustAddEntries :: "error_resolver \<Rightarrow> err_entry list \<Rightarrow> error_resolver option" where
  "MustAddEntries r es = (case AddEntries r es of (Some err, _) \<Rightarrow> None | (None, r') \<Rightarrow> Some r')"

fun first_match :: "err_entry list \<Rightarrow> go_err option \<Rightarrow> err_entry option" where
  "first_match [] err = None"
| "first_match (e # es) err = (if IsErr e err then Some e else first_match es err)"

definition Lookup :: "error_resolver \<Rightarrow> go_err option \<Rightarrow> err_entry option" where
  "Lookup r err = (if err = None then None else first_match (rs_entries r) err)"

definition Resolve_error :: "error_resolver \<Rightarrow> go_err option \<Rightarrow> api_error \<times> int \<times> bool" where
  "Resolve_error r err =
     (case Lookup r err of
        Some e \<Rightarrow> (apiError e, ee_Status e, True)
      | None \<Rightarrow> (apiError (rs_fallback r), ee_Status (rs_fallback r), False))"

definition ResolveWithDetails :: "error_resolver \<Rightarrow> go_err option \<Rightarrow> json option \<Rightarrow> api_error \<times> int \<times> bool" where
  "ResolveWithDetails r err details =
     (case Resolve_error r err of
        (apiErr, status, ok) \<Rightarrow> (if details \<noteq> None then apiErr\<lparr>ae_Details := details\<rparr> else apiErr, status, ok))"

definition resolver_Len :: "error_resolver \<Rightarrow> nat" where
  "resolver_Len r = length (rs_entries r)"

section \<open>The table's invariant\<close>

text \<open>Every entry can be rendered, and no two entries stand for the same error.\<close>

definition renderable :: "err_entry \<Rightarrow> bool" where
  "renderable e \<longleftrightarrow> ee_Err e \<noteq> None \<and> ee_Code e \<noteq> [] \<and> ee_Message e \<noteq> [] \<and> 100 \<le> ee_Status e \<and> ee_Status e \<le> 599"

definition resolver_wf :: "error_resolver \<Rightarrow> bool" where
  "resolver_wf r \<longleftrightarrow> list_all renderable (rs_entries r) \<and> renderable (rs_fallback r) \<and>
     distinct (map ee_Err (rs_entries r))"

lemma errors_is_size: "errors_is a b \<Longrightarrow> a \<noteq> b \<Longrightarrow> size b < size a"
proof (induction a b rule: errors_is.induct)
  case (1 m es target)
  then obtain e where e: "e \<in> set es" "errors_is e target" by auto
  then have "size target \<le> size e" using 1(1) by (cases "e = target") (auto intro: less_imp_le)
  moreover have "size e < size (Wrapped m es)"
    using size_list_estimation' [OF e(1), of "size e" size] by simp
  ultimately show ?case by simp
qed auto

lemma errors_is_antisym: "errors_is a b \<Longrightarrow> errors_is b a \<Longrightarrow> a = b"
  using errors_is_size [of a b] errors_is_size [of b a] by fastforce

lemma aliasLocked_None: "aliasLocked es (Some x) = None \<longleftrightarrow> Some x \<notin> ee_Err ` set es"
  by (induction es) (auto simp: is_err_def split: option.splits dest: errors_is_antisym)

lemma with_status_simps [simp]: "ee_Err (with_status e) = ee_Err e" "ee_Code (with_status e) = ee_Code e"
  "ee_Message (with_status e) = ee_Message e" "ee_Details (with_status e) = ee_Details e"
  by (simp_all add: with_status_def)

lemma err_validate_renderable: "err_validate e = None \<Longrightarrow> renderable (with_status e)"
  by (auto simp: err_validate_def renderable_def with_status_def split: if_splits)

lemma AddEntries_wf: "resolver_wf r \<Longrightarrow> resolver_wf (snd (AddEntries r es))"
proof (induction r es rule: AddEntries.induct)
  case (2 r e es)
  show ?case
  proof (cases "err_validate e = None \<and> aliasLocked (rs_entries r) (ee_Err e) = None")
    case True
    then obtain x where "ee_Err e = Some x" by (auto simp: err_validate_def split: if_splits)
    with True 2(2) have "resolver_wf (r\<lparr>rs_entries := rs_entries r @ [with_status e]\<rparr>)"
      by (auto simp: resolver_wf_def aliasLocked_None err_validate_renderable)
    with True 2(1) show ?thesis by simp
  qed (use 2(2) in \<open>auto split: option.splits\<close>)
qed simp

lemma SetFallback_wf: "resolver_wf r \<Longrightarrow> resolver_wf (snd (SetFallback r e))"
  by (simp add: SetFallback_def resolver_wf_def err_validate_renderable split: option.splits)

lemma NewErrorResolver_wf: "resolver_wf NewErrorResolver"
  by (simp add: resolver_wf_def NewErrorResolver_def renderable_def msg_defs)

lemma first_match_nth:
  "first_match es err = Some e \<longleftrightarrow> (\<exists>i < length es. es ! i = e \<and> IsErr e err \<and> (\<forall>j < i. \<not> IsErr (es ! j) err))"
proof (induction es)
  case (Cons x es)
  then show ?case by (auto simp: All_less_Suc2 Ex_less_Suc2)
qed simp

section \<open>Properties\<close>

text \<open>
  Error with the status of one of the specific helpers is that helper, envelope message included,
  and every other status gets the internal error text.
\<close>

lemma respond_error_agrees:
  "respond_Error 400 errs = respond_BadRequest errs \<and> respond_Error 401 errs = respond_Unauthorized errs \<and>
   respond_Error 403 errs = respond_Forbidden errs \<and> respond_Error 404 errs = respond_NotFound errs \<and>
   respond_Error 409 errs = respond_Conflict errs \<and> respond_Error 422 errs = respond_UnprocessableEntity errs \<and>
   respond_Error 429 errs = respond_TooManyRequests errs \<and> respond_Error 500 errs = respond_InternalServerError errs \<and>
   respond_Error 503 errs = respond_ServiceUnavailable errs \<and>
   (status \<in> {400, 401, 403, 404, 409, 422, 429, 503} \<or>
    respond_Error status errs = [AbortWithStatusJSON status (errorResponse errs msgInternalError)])"
  by (auto simp: respond_defs statusMessage_def)

text \<open>
  Whatever was registered on a new table, Resolve answers with the first registered entry, in
  registration order, whose sentinel the error wraps, or with the fallback when there is none; the
  answer always has a code, a message and a status from 100 to 599.
\<close>

lemma resolve_error_first_match:
  assumes "resolver_wf r"
  shows "case Resolve_error r err of (api, status, known) \<Rightarrow>
    ae_Code api \<noteq> [] \<and> ae_Message api \<noteq> [] \<and> 100 \<le> status \<and> status \<le> 599 \<and>
    (if known
     then \<exists>i < length (rs_entries r). api = apiError (rs_entries r ! i) \<and> status = ee_Status (rs_entries r ! i) \<and>
       is_err err (ee_Err (rs_entries r ! i)) \<and> (\<forall>j < i. \<not> is_err err (ee_Err (rs_entries r ! j)))
     else api = apiError (rs_fallback r) \<and> status = ee_Status (rs_fallback r) \<and>
       (err = None \<or> (\<forall>e \<in> set (rs_entries r). \<not> is_err err (ee_Err e))))"
proof (cases "Lookup r err")
  case None
  have "first_match es err = None \<longleftrightarrow> (\<forall>e \<in> set es. \<not> is_err err (ee_Err e))" for es
    by (induction es) (auto simp: IsErr_def)
  with None assms show ?thesis
    by (auto simp: Resolve_error_def Lookup_def apiError_def resolver_wf_def renderable_def split: if_splits)
next
  case (Some e)
  then have "first_match (rs_entries r) err = Some e" by (simp add: Lookup_def split: if_splits)
  then obtain i where i: "i < length (rs_entries r)" "rs_entries r ! i = e" "is_err err (ee_Err e)"
    "\<forall>j < i. \<not> is_err err (ee_Err (rs_entries r ! j))"
    by (auto simp: first_match_nth IsErr_def)
  moreover from i(1,2) assms have "renderable e" by (auto simp: resolver_wf_def list_all_length)
  ultimately show ?thesis using Some by (auto simp: Resolve_error_def apiError_def renderable_def)
qed

definition demo_entry_err :: "string \<Rightarrow> int \<Rightarrow> err_entry" where
  "demo_entry_err name status = \<lparr>ee_Err = Some (Sentinel name), ee_Status = status, ee_Code = name,
     ee_Message = name, ee_Details = None\<rparr>"

theorem resolve_error_first_match_witness:
  "resolver_wf (snd (AddEntries NewErrorResolver [demo_entry_err ''a'' 404, demo_entry_err ''b'' 0])) \<and>
   ae_Code (fst (Resolve_error (snd (AddEntries NewErrorResolver [demo_entry_err ''a'' 404, demo_entry_err ''b'' 0]))
     (Some (Wrapped ''%w'' [Sentinel ''b''])))) \<noteq> []"
proof -
  let ?r = "snd (AddEntries NewErrorResolver [demo_entry_err ''a'' 404, demo_entry_err ''b'' 0])"
  have "resolver_wf ?r" by (intro AddEntries_wf NewErrorResolver_wf)
  from this resolve_error_first_match [OF this, of "Some (Wrapped ''%w'' [Sentinel ''b''])"] show ?thesis
    by (auto split: prod.splits simp del: AddEntries.simps)
qed

text \<open>
  Registration keeps the table well-formed, appends in order, and reports an error exactly when it
  stops early; the entries before the offending one stay registered.
\<close>

lemma add_entries_prefix:
  assumes "resolver_wf r"
  shows "resolver_wf (snd (AddEntries r es)) \<and>
    (\<exists>n \<le> length es. rs_entries (snd (AddEntries r es)) = rs_entries r @ map with_status (take n es) \<and>
      (fst (AddEntries r es) = None \<longleftrightarrow> n = length es) \<and>
      (n = length es \<or> err_validate (es ! n) \<noteq> None \<or>
       ee_Err (es ! n) \<in> ee_Err ` set (rs_entries r @ take n es)))"
  using assms
proof (induction r es rule: AddEntries.induct)
  case (2 r e es)
  consider (bad) err where "err_validate e = Some err"
    | (dup) d where "err_validate e = None" "aliasLocked (rs_entries r) (ee_Err e) = Some d"
    | (ok) "err_validate e = None" "aliasLocked (rs_entries r) (ee_Err e) = None"
    by (cases "err_validate e"; cases "aliasLocked (rs_entries r) (ee_Err e)") auto
  then show ?case
  proof cases
    case bad
    with 2(2) show ?thesis by (auto intro: exI [of _ 0])
  next
    case dup
    from dup(1) obtain x where x: "ee_Err e = Some x" by (auto simp: err_validate_def split: if_splits)
    with dup aliasLocked_None [of "rs_entries r" x] have "ee_Err e \<in> ee_Err ` set (rs_entries r)" by auto
    with dup 2(2) show ?thesis by (auto intro!: exI [of _ 0])
  next
    case ok
    let ?r' = "r\<lparr>rs_entries := rs_entries r @ [with_status e]\<rparr>"
    have "resolver_wf ?r'"
      using ok AddEntries_wf [OF 2(2), of "[e]"] by simp
    from 2(1) [OF ok this] obtain n where "resolver_wf (snd (AddEntries ?r' es))" "n \<le> length es"
      "rs_entries (snd (AddEntries ?r' es)) = rs_entries ?r' @ map with_status (take n es)"
      "fst (AddEntries ?r' es) = None \<longleftrightarrow> n = length es"
      "n = length es \<or> err_validate (es ! n) \<noteq> None \<or> ee_Err (es ! n) \<in> ee_Err ` set (rs_entries ?r' @ take n es)"
      by (elim conjE exE) (rule that)
    with ok show ?thesis by (intro conjI exI [of _ "Suc n"]) auto
  qed
qed (auto simp: resolver_wf_def)

theorem add_entries_prefix_witness:
  "resolver_wf NewErrorResolver \<and>
   (\<exists>n \<le> 2. rs_entries (snd (AddEntries NewErrorResolver [demo_entry_err ''a'' 404, demo_entry_err ''a'' 0])) =
      map with_status (take n [demo_entry_err ''a'' 404, demo_entry_err ''a'' 0]))"
proof -
  let ?es = "[demo_entry_err ''a'' 404, demo_entry_err ''a'' 0]"
  have e: "rs_entries NewErrorResolver = []" by (simp add: NewErrorResolver_def)
  have l: "length ?es = 2" by simp
  from add_entries_prefix [OF NewErrorResolver_wf, of ?es]
  obtain n where "n \<le> 2" "rs_entries (snd (AddEntries NewErrorResolver ?es)) = map with_status (take n ?es)"
    unfolding e l append_Nil by (elim conjE exE) (rule that)
  then show ?thesis using NewErrorResolver_wf by (intro conjI exI)
qed

end
