(* ===== verification/Authorization.thy ===== *)
theory Authorization
  imports Respond
begin

text \<open>
  The authorization and CSRF middlewares (\<^verbatim>\<open>src/httpserver/middlewares/authorization.go\<close>, \<^verbatim>\<open>csrf.go\<close>).
  A request is what the handlers read from their gin context; a handler maps it to the calls it makes
  on the context. The token verifier is the interface \<open>TokenVerifier\<close>.
\<close>

section \<open>Requests and verifiers\<close>

record request =
  rq_Method :: string
  rq_Header :: "string \<Rightarrow> string"
  rq_Cookie :: "string \<Rightarrow> string option"
  rq_Query :: "string \<Rightarrow> string"
  rq_ClientIP :: string
  rq_Keys :: "string \<Rightarrow> ctx_value option"

record 'w token_verifier =
  tv_Verify :: "string \<Rightarrow> 'w \<Rightarrow> (go_err + claims) \<times> 'w"
  tv_HasRole :: "claims \<Rightarrow> string \<Rightarrow> bool"

definition claimsKey :: string where "claimsKey = ''oidc_claims''"
definition SessionCookie :: string where "SessionCookie = ''session_id''"

definition ErrMissingToken :: go_err where "ErrMissingToken = Sentinel ''authorization: missing token''"
definition ErrForbidden :: go_err where
  "ErrForbidden = Sentinel ''authorization: token supplied via both header and cookie''"
definition ErrMissingAuthorizationHeader :: go_err where
  "ErrMissingAuthorizationHeader = Sentinel ''authorization: missing Authorization header''"
definition ErrInvalidAuthorizationFormat :: go_err where
  "ErrInvalidAuthorizationFormat = Sentinel ''authorization: invalid Authorization header format''"
definition ErrEmptyToken :: go_err where "ErrEmptyToken = Sentinel ''authorization: empty bearer token''"
definition ErrRoleContextConflict :: go_err where
  "ErrRoleContextConflict = Sentinel ''authorization: role context key conflict''"

lemmas authorization_sentinels = ErrMissingToken_def ErrForbidden_def ErrMissingAuthorizationHeader_def
  ErrInvalidAuthorizationFormat_def ErrEmptyToken_def ErrRoleContextConflict_def

declare authorization_sentinels [err_simps]

section \<open>Finding the token\<close>

definition sessionCookieName :: "string \<Rightarrow> string" where
  "sessionCookieName name = (if name = [] then SessionCookie else name)"

definition extractBearerToken :: "string \<Rightarrow> go_err + string" where
  "extractBearerToken authHeader =
     (if authHeader = [] then Inl ErrMissingAuthorizationHeader
      else
        (case cut (CHR '' '') authHeader of
           None \<Rightarrow> Inl ErrInvalidAuthorizationFormat
         | Some (scheme, rest) \<Rightarrow>
             if scheme \<noteq> ''Bearer'' then Inl ErrInvalidAuthorizationFormat
             else if trim_space rest = [] then Inl ErrEmptyToken
             else Inr (trim_space rest)))"

definition readSessionCookie :: "request \<Rightarrow> string \<Rightarrow> string option" where
  "readSessionCookie rq cookieName =
     (case rq_Cookie rq cookieName of None \<Rightarrow> None | Some v \<Rightarrow> if v = [] then None else Some v)"

definition extractToken :: "request \<Rightarrow> string \<Rightarrow> go_err + string" where
  "extractToken rq cookieName =
     (case (readSessionCookie rq cookieName, extractBearerToken (rq_Header rq ''Authorization'')) of
        (Some cookie, Inr bearer) \<Rightarrow> if bearer \<noteq> [] then Inl ErrForbidden else Inr cookie
      | (Some cookie, Inl _) \<Rightarrow> Inr cookie
      | (None, Inr bearer) \<Rightarrow> if bearer \<noteq> [] then Inr bearer else Inl ErrMissingToken
      | (None, Inl _) \<Rightarrow> Inl ErrMissingToken)"

definition ClaimsFromContext :: "request \<Rightarrow> claims option" where
  "ClaimsFromContext rq = (case rq_Keys rq claimsKey of Some (VClaims cl) \<Rightarrow> Some cl | _ \<Rightarrow> None)"

section \<open>The middlewares\<close>

definition AuthorizationWithOptions ::
  "'w token_verifier \<Rightarrow> string \<Rightarrow> request \<Rightarrow> 'w \<Rightarrow> effect list \<times> 'w"
where
  "AuthorizationWithOptions verifier cookieOption rq w =
     (case extractToken rq (sessionCookieName cookieOption) of
        Inl err \<Rightarrow>
          (if errors_is err ErrForbidden
           then respond_Forbidden [NewError ''ERR_TOKEN_CONFLICT''
                  ''Authorization token supplied via both header and cookie'' []]
           else respond_Unauthorized [NewError ''ERR_MISSING_TOKEN''
                  ''Authorization token is missing or malformed'' []], w)
      | Inr token \<Rightarrow>
          (case tv_Verify verifier token w of
             (Inl err, w') \<Rightarrow>
               (respond_Unauthorized [NewError ''ERR_INVALID_TOKEN''
                  ''Authorization token is invalid or expired'' []], w')
           | (Inr cl, w') \<Rightarrow> ([SetKey claimsKey (VClaims cl), Next], w')))"

definition Authorization_mw :: "'w token_verifier \<Rightarrow> request \<Rightarrow> 'w \<Rightarrow> effect list \<times> 'w" where
  "Authorization_mw verifier = AuthorizationWithOptions verifier []"

record role_context =
  rc_RoleName :: string
  rc_Values :: "(string, ctx_value) gomap"

text \<open>
  Go's comparison of two interface values: different dynamic types are unequal, values of one
  uncomparable dynamic type panic, \<open>None\<close>. \<open>Claims\<close> holds slices and maps.
\<close>

fun iface_eq :: "ctx_value \<Rightarrow> ctx_value \<Rightarrow> bool option" where
  "iface_eq (VAtom t a) (VAtom t' b) = Some (t = t' \<and> a = b)"
| "iface_eq (VClaims _) (VClaims _) = None"
| "iface_eq (VUncomparable t) (VUncomparable t') = (if t = t' then None else Some False)"
| "iface_eq _ _ = Some False"

text \<open>The two staging loops; the outer \<open>None\<close> is a panic.\<close>

fun stage_values ::
  "(string, ctx_value) gomap \<Rightarrow> (string, ctx_value) gomap \<Rightarrow> (go_err + (string, ctx_value) gomap) option"
where
  "stage_values [] staged = Some (Inr staged)"
| "stage_values ((k, v) # kvs) staged =
     (case map_of staged k of
        Some existing \<Rightarrow>
          (case iface_eq existing v of
             None \<Rightarrow> None
           | Some False \<Rightarrow> Some (Inl (Wrapped ''%w: key %q'' [ErrRoleContextConflict]))
           | Some True \<Rightarrow> stage_values kvs (AList.update k v staged))
      | None \<Rightarrow> stage_values kvs (AList.update k v staged))"

fun stage_extras ::
  "(string \<Rightarrow> bool) \<Rightarrow> role_context list \<Rightarrow> (string, ctx_value) gomap \<Rightarrow>
   (go_err + (string, ctx_value) gomap) option"
where
  "stage_extras has_role [] staged = Some (Inr staged)"
| "stage_extras has_role (e # es) staged =
     (if \<not> has_role (rc_RoleName e) then stage_extras has_role es staged
      else (case stage_values (rc_Values e) staged of
              Some (Inr staged') \<Rightarrow> stage_extras has_role es staged'
            | r \<Rightarrow> r))"

definition applyRoleContexts ::
  "'w token_verifier \<Rightarrow> claims \<Rightarrow> role_context list \<Rightarrow> (go_err + effect list) option"
where
  "applyRoleContexts verifier cl extras =
     (case stage_extras (tv_HasRole verifier cl) extras [] of
        None \<Rightarrow> None
      | Some (Inl err) \<Rightarrow> Some (Inl err)
      | Some (Inr staged) \<Rightarrow> Some (Inr (map (\<lambda>(k, v). SetKey k v) staged)))"

text \<open>What \<open>RequireRole\<close> and \<open>RequireAnyRole\<close> do after their check; \<open>None\<close> is a panic.\<close>

definition finish_role :: "'w token_verifier \<Rightarrow> claims \<Rightarrow> role_context list \<Rightarrow> effect list option" where
  "finish_role verifier cl extras =
     (case applyRoleContexts verifier cl extras of
        None \<Rightarrow> None
      | Some (Inl err) \<Rightarrow> Some (respond_InternalServerError [NewError ''ERR_ROLE_CONTEXT_CONFLICT''
          ''Conflicting role context configuration'' []])
      | Some (Inr effs) \<Rightarrow> Some (effs @ [Next]))"

definition RequireRole ::
  "'w token_verifier \<Rightarrow> string \<Rightarrow> role_context list \<Rightarrow> request \<Rightarrow> effect list option"
where
  "RequireRole verifier role extras rq =
     (case ClaimsFromContext rq of
        None \<Rightarrow> Some (respond_Unauthorized [NewError ''ERR_INVALID_TOKEN''
          ''Authorization token is invalid or expired'' []])
      | Some cl \<Rightarrow>
          if \<not> tv_HasRole verifier cl role
          then Some (respond_Forbidden [NewError ''ERR_PERMISSION_DENIED''
            ''You do not have permission to access this resource'' []])
          else finish_role verifier cl extras)"

fun any_role :: "(string \<Rightarrow> bool) \<Rightarrow> string list \<Rightarrow> bool" where
  "any_role has_role [] = False"
| "any_role has_role (role # roles) = (if has_role role then True else any_role has_role roles)"

definition RequireAnyRole ::
  "'w token_verifier \<Rightarrow> string list \<Rightarrow> role_context list \<Rightarrow> request \<Rightarrow> effect list option"
where
  "RequireAnyRole verifier roles extras rq =
     (case ClaimsFromContext rq of
        None \<Rightarrow> Some (respond_Unauthorized [NewError ''ERR_INVALID_TOKEN''
          ''Authorization token is invalid or expired'' []])
      | Some cl \<Rightarrow>
          if \<not> any_role (tv_HasRole verifier cl) roles
          then Some (respond_Forbidden [NewError ''ERR_PERMISSION_DENIED''
            ''You do not have permission to access this resource'' []])
          else finish_role verifier cl extras)"

section \<open>CSRF\<close>

definition CSRFCookie :: string where "CSRFCookie = ''csrf_token''"
definition CSRFHeader :: string where "CSRFHeader = ''X-CSRF-Token''"

definition safeMethods :: "string list" where "safeMethods = [''GET'', ''HEAD'', ''OPTIONS'']"

record csrf_options =
  co_CookieName :: string
  co_HeaderName :: string

definition csrf_withDefaults :: "csrf_options \<Rightarrow> csrf_options" where
  "csrf_withDefaults opts =
     (let o1 = (if co_CookieName opts = [] then opts\<lparr>co_CookieName := CSRFCookie\<rparr> else opts)
      in if co_HeaderName o1 = [] then o1\<lparr>co_HeaderName := CSRFHeader\<rparr> else o1)"

definition CSRFWithOptions :: "csrf_options \<Rightarrow> request \<Rightarrow> effect list" where
  "CSRFWithOptions opts0 rq =
     (let opts = csrf_withDefaults opts0 in
      if rq_Method rq \<in> set safeMethods then [Next]
      else (case rq_Cookie rq (co_CookieName opts) of
              None \<Rightarrow> respond_Forbidden [NewError ''ERR_CSRF_TOKEN_MISSING'' ''Missing CSRF cookie'' []]
            | Some cookieValue \<Rightarrow>
                if cookieValue = []
                then respond_Forbidden [NewError ''ERR_CSRF_TOKEN_MISSING'' ''Missing CSRF cookie'' []]
                else if rq_Header rq (co_HeaderName opts) = [] \<or> cookieValue \<noteq> rq_Header rq (co_HeaderName opts)
                then respond_Forbidden [NewError ''ERR_CSRF_TOKEN_MISMATCH'' ''CSRF token missing or does not match'' []]
                else [Next]))"

definition CSRF :: "request \<Rightarrow> effect list" where
  "CSRF = CSRFWithOptions \<lparr>co_CookieName = [], co_HeaderName = []\<rparr>"

section \<open>Lemmas\<close>

lemma extractBearerToken_nonempty: "extractBearerToken h = Inr t \<Longrightarrow> t \<noteq> []"
  by (auto simp: extractBearerToken_def split: if_splits option.splits)

lemma readSessionCookie_nonempty: "readSessionCookie rq n = Some c \<Longrightarrow> c \<noteq> []"
  by (auto simp: readSessionCookie_def split: option.splits if_splits)

lemma extractToken_cases:
  "extractToken rq n =
     (case (readSessionCookie rq n, extractBearerToken (rq_Header rq ''Authorization'')) of
        (Some cookie, Inr _) \<Rightarrow> Inl ErrForbidden
      | (Some cookie, Inl _) \<Rightarrow> Inr cookie
      | (None, Inr bearer) \<Rightarrow> Inr bearer
      | (None, Inl _) \<Rightarrow> Inl ErrMissingToken)"
  by (auto simp: extractToken_def split: option.splits sum.splits dest: extractBearerToken_nonempty)

lemma any_role_iff: "any_role P roles \<longleftrightarrow> (\<exists>role \<in> set roles. P role)"
  by (induction roles) auto

fun is_atom :: "ctx_value \<Rightarrow> bool" where
  "is_atom (VAtom _ _) = True"
| "is_atom _ = False"

lemma iface_eq_atom: "is_atom a \<Longrightarrow> is_atom b \<Longrightarrow> iface_eq a b = Some (a = b)"
  by (cases a; cases b) auto

text \<open>What staging does, in terms of the set of pairs it is given.\<close>

definition functional :: "(string \<times> ctx_value) set \<Rightarrow> bool" where
  "functional S \<longleftrightarrow> (\<forall>(k, v) \<in> S. \<forall>(k', v') \<in> S. k = k' \<longrightarrow> v = v')"

definition stages :: "(string \<times> ctx_value) set \<Rightarrow> (go_err + (string, ctx_value) gomap) option \<Rightarrow> bool" where
  "stages S r \<longleftrightarrow> (if functional S
     then \<exists>m. r = Some (Inr m) \<and> (\<forall>k v. map_of m k = Some v \<longleftrightarrow> (k, v) \<in> S)
     else r = Some (Inl (Wrapped ''%w: key %q'' [ErrRoleContextConflict])))"

lemma functional_mono: "functional T \<Longrightarrow> S \<subseteq> T \<Longrightarrow> functional S"
  unfolding functional_def by blast

lemma stage_values_stages:
  assumes "\<forall>k v. map_of staged k = Some v \<longleftrightarrow> (k, v) \<in> S" and "\<forall>(k, v) \<in> S \<union> set kvs. is_atom v"
  shows "stages (S \<union> set kvs) (stage_values kvs staged)"
  using assms
proof (induction kvs arbitrary: staged S)
  case Nil
  then have "v = v'" if "(k, v) \<in> S" "(k, v') \<in> S" for k v v'
    using that by (metis option.inject)
  then have "functional S" unfolding functional_def by blast
  with Nil show ?case by (auto simp: stages_def)
next
  case (Cons kv kvs)
  obtain k v where kv: "kv = (k, v)" by force
  show ?case
  proof (cases "\<exists>v'. map_of staged k = Some v' \<and> v' \<noteq> v")
    case True
    then obtain v' where v': "map_of staged k = Some v'" "v' \<noteq> v" by blast
    with Cons.prems(1) have "(k, v') \<in> S" by blast
    with v'(2) kv have "\<not> functional (S \<union> set (kv # kvs))" by (force simp: functional_def)
    moreover have "iface_eq v' v = Some False"
      using Cons.prems(2) \<open>(k, v') \<in> S\<close> kv v'(2) iface_eq_atom [of v' v] by auto
    ultimately show ?thesis using v' kv by (simp add: stages_def)
  next
    case False
    have "stage_values (kv # kvs) staged = stage_values kvs (AList.update k v staged)"
    proof (cases "map_of staged k")
      case (Some v')
      with False have "v' = v" by blast
      moreover have "is_atom v" using Cons.prems(2) kv by auto
      ultimately show ?thesis using Some kv by (simp add: iface_eq_atom)
    qed (simp add: kv)
    moreover have "\<forall>k' v'. map_of (AList.update k v staged) k' = Some v' \<longleftrightarrow> (k', v') \<in> insert (k, v) S"
      using Cons.prems(1) False by auto
    from Cons.IH [OF this] Cons.prems(2) kv
    have "stages (insert (k, v) S \<union> set kvs) (stage_values kvs (AList.update k v staged))" by simp
    ultimately show ?thesis by (simp add: kv)
  qed
qed

definition applicable :: "(string \<Rightarrow> bool) \<Rightarrow> role_context list \<Rightarrow> (string \<times> ctx_value) set" where
  "applicable has_role extras = (\<Union>e \<in> {e \<in> set extras. has_role (rc_RoleName e)}. set (rc_Values e))"

lemma applicable_Cons:
  "applicable P (e # es) = (if P (rc_RoleName e) then set (rc_Values e) \<union> applicable P es else applicable P es)"
  by (auto simp: applicable_def)

lemma stage_extras_stages:
  assumes "\<forall>k v. map_of staged k = Some v \<longleftrightarrow> (k, v) \<in> S"
    and "\<forall>(k, v) \<in> S \<union> applicable P extras. is_atom v"
  shows "stages (S \<union> applicable P extras) (stage_extras P extras staged)"
  using assms
proof (induction extras arbitrary: staged S)
  case Nil
  then show ?case using stage_values_stages [of staged S "[]"] by (simp add: applicable_def)
next
  case (Cons e es)
  show ?case
  proof (cases "P (rc_RoleName e)")
    case False
    with Cons show ?thesis by (simp add: applicable_Cons)
  next
    case True
    let ?T = "S \<union> set (rc_Values e)"
    have st: "stages ?T (stage_values (rc_Values e) staged)"
      using Cons.prems True by (intro stage_values_stages) (auto simp: applicable_Cons)
    show ?thesis
    proof (cases "functional ?T")
      case False
      with st have "stage_values (rc_Values e) staged = Some (Inl (Wrapped ''%w: key %q'' [ErrRoleContextConflict]))"
        by (simp add: stages_def)
      moreover from False have "\<not> functional (S \<union> applicable P (e # es))"
        using functional_mono True by (metis Un_assoc Un_upper1 applicable_Cons)
      ultimately show ?thesis using True by (simp add: stages_def)
    next
      case fn: True
      with st obtain m where m: "stage_values (rc_Values e) staged = Some (Inr m)"
        "\<forall>k v. map_of m k = Some v \<longleftrightarrow> (k, v) \<in> ?T" by (auto simp: stages_def)
      from Cons.IH [OF m(2)] Cons.prems(2) True
      have "stages (?T \<union> applicable P es) (stage_extras P es m)" by (simp add: applicable_Cons Un_assoc)
      with m(1) True show ?thesis by (simp add: applicable_Cons Un_assoc)
    qed
  qed
qed

lemma stage_values_distinct:
  "stage_values kvs staged = Some (Inr m) \<Longrightarrow> distinct (map fst staged) \<Longrightarrow> distinct (map fst m)"
  by (induction kvs staged rule: stage_values.induct)
    (auto simp: distinct_update split: option.splits bool.splits)

lemma stage_extras_distinct:
  "stage_extras P extras staged = Some (Inr m) \<Longrightarrow> distinct (map fst staged) \<Longrightarrow> distinct (map fst m)"
  by (induction P extras staged rule: stage_extras.induct)
    (auto split: if_splits option.splits sum.splits dest: stage_values_distinct)

section \<open>Properties\<close>

text \<open>
  The authorization middleware lets a request through, with the verified claims stored, exactly
  when one of the two channels carries a token and the verifier accepts it. A token on both channels
  is refused with 403 and no token with 401, in both cases without calling the verifier; a token the
  verifier rejects with 401.
\<close>

lemma authorization_gate:
  "AuthorizationWithOptions verifier opt rq w =
     (case (readSessionCookie rq (sessionCookieName opt), extractBearerToken (rq_Header rq ''Authorization'')) of
        (Some _, Inr _) \<Rightarrow> ([AbortWithStatusJSON 403 (errorResponse [NewError ''ERR_TOKEN_CONFLICT''
            ''Authorization token supplied via both header and cookie'' []] msgForbidden)], w)
      | (None, Inl _) \<Rightarrow> ([AbortWithStatusJSON 401 (errorResponse [NewError ''ERR_MISSING_TOKEN''
            ''Authorization token is missing or malformed'' []] msgUnauthorized)], w)
      | (cookie, bearer) \<Rightarrow>
          (case tv_Verify verifier (case cookie of Some c \<Rightarrow> c | None \<Rightarrow> projr bearer) w of
             (Inl _, w') \<Rightarrow> ([AbortWithStatusJSON 401 (errorResponse [NewError ''ERR_INVALID_TOKEN''
                 ''Authorization token is invalid or expired'' []] msgUnauthorized)], w')
           | (Inr cl, w') \<Rightarrow> ([SetKey claimsKey (VClaims cl), Next], w')))"
  by (auto simp: AuthorizationWithOptions_def extractToken_cases respond_defs authorization_sentinels
      split: option.split sum.split prod.split)

text \<open>
  A bearer token is taken only from a header of the form Bearer, one space, token; what is
  returned is the rest of the header without surrounding white space, and is never empty.
\<close>

lemma bearer_token_iff:
  "extractBearerToken header = Inr token \<longleftrightarrow>
     (\<exists>rest. header = ''Bearer '' @ rest \<and> token = trim_space rest \<and> token \<noteq> [])"
proof
  assume "extractBearerToken header = Inr token"
  then obtain rest where "cut (CHR '' '') header = Some (''Bearer'', rest)" "token = trim_space rest" "token \<noteq> []"
    by (auto simp: extractBearerToken_def split: if_splits option.splits)
  then show "\<exists>rest. header = ''Bearer '' @ rest \<and> token = trim_space rest \<and> token \<noteq> []"
    using cut_Some [of "CHR '' ''" header "''Bearer''" rest] by auto
qed (auto simp: extractBearerToken_def)

text \<open>
  The role middlewares call Next exactly when claims are present, one of the roles is held and the
  role contexts can be applied; RequireRole is RequireAnyRole of the one role, and an empty list of
  roles admits nobody.
\<close>

lemma require_role_gate:
  "(case RequireAnyRole verifier roles extras rq of
      None \<Rightarrow> True
    | Some effs \<Rightarrow> Next \<in> set effs \<longleftrightarrow>
        (\<exists>cl. ClaimsFromContext rq = Some cl \<and> (\<exists>role \<in> set roles. tv_HasRole verifier cl role) \<and>
          (\<exists>kvs. applyRoleContexts verifier cl extras = Some (Inr kvs)))) \<and>
   RequireRole verifier role extras rq = RequireAnyRole verifier [role] extras rq \<and>
   (case RequireAnyRole verifier [] extras rq of None \<Rightarrow> False | Some effs \<Rightarrow> Next \<notin> set effs)"
  by (auto simp: RequireAnyRole_def RequireRole_def finish_role_def any_role_iff respond_defs
      split: option.splits sum.splits)

text \<open>
  Over comparable values the outcome of applying role contexts depends only on the set of key and
  value pairs of the roles the caller holds, not on any order: two different values for one key are a
  conflict and nothing is set, otherwise exactly the pairs of the set are set.
\<close>

lemma role_contexts_order_free:
  assumes "\<forall>(k, v) \<in> applicable (tv_HasRole verifier cl) extras. is_atom v"
  shows "if functional (applicable (tv_HasRole verifier cl) extras)
    then \<exists>effs. applyRoleContexts verifier cl extras = Some (Inr effs) \<and>
      set effs = (\<lambda>(k, v). SetKey k v) ` applicable (tv_HasRole verifier cl) extras
    else applyRoleContexts verifier cl extras = Some (Inl (Wrapped ''%w: key %q'' [ErrRoleContextConflict]))"
proof -
  let ?S = "applicable (tv_HasRole verifier cl) extras" and ?r = "stage_extras (tv_HasRole verifier cl) extras []"
  have st: "stages ({} \<union> ?S) ?r"
    using assms by (intro stage_extras_stages) auto
  show ?thesis
  proof (cases "functional ?S")
    case False
    with st show ?thesis by (simp add: stages_def applyRoleContexts_def)
  next
    case True
    with st obtain m where m: "?r = Some (Inr m)" "\<forall>k v. map_of m k = Some v \<longleftrightarrow> (k, v) \<in> ?S"
      by (auto simp: stages_def)
    have "distinct (map fst m)" using m(1) by (rule stage_extras_distinct) simp
    with m(2) have "set m = ?S" by (auto simp: map_of_eq_Some_iff)
    with m(1) True show ?thesis by (simp add: applyRoleContexts_def)
  qed
qed

definition demo_verifier :: "unit token_verifier" where
  "demo_verifier = \<lparr>tv_Verify = (\<lambda>t w. (Inr no_claims, w)), tv_HasRole = (\<lambda>cl r. r \<noteq> ''root'')\<rparr>"

definition demo_extras :: "role_context list" where
  "demo_extras = [\<lparr>rc_RoleName = ''a'', rc_Values = [(''k'', VAtom ''int'' ''1'')]\<rparr>,
     \<lparr>rc_RoleName = ''b'', rc_Values = [(''k'', VAtom ''int'' ''1''), (''l'', VAtom ''int'' ''2'')]\<rparr>,
     \<lparr>rc_RoleName = ''root'', rc_Values = [(''k'', VAtom ''int'' ''3'')]\<rparr>]"

theorem role_contexts_order_free_witness:
  "\<exists>effs. applyRoleContexts demo_verifier no_claims demo_extras = Some (Inr effs) \<and>
     set effs = {SetKey ''k'' (VAtom ''int'' ''1''), SetKey ''l'' (VAtom ''int'' ''2'')}"
proof -
  have S: "applicable (tv_HasRole demo_verifier no_claims) demo_extras =
      {(''k'', VAtom ''int'' ''1''), (''l'', VAtom ''int'' ''2'')}"
    by (auto simp: demo_extras_def demo_verifier_def applicable_Cons) (simp_all add: applicable_def)
  then show ?thesis
    using role_contexts_order_free [of demo_verifier no_claims demo_extras] by (simp add: functional_def)
qed

text \<open>
  Two entries of roles the caller holds that give one key a slice or map of the same type make the
  comparison panic: the request handler does not report a conflict but crashes.
\<close>

lemma role_contexts_panic:
  assumes "tv_HasRole verifier cl r1" and "tv_HasRole verifier cl r2"
  shows "applyRoleContexts verifier cl
    [\<lparr>rc_RoleName = r1, rc_Values = [(k, VUncomparable t)]\<rparr>, \<lparr>rc_RoleName = r2, rc_Values = [(k, VUncomparable t)]\<rparr>] = None"
  using assms by (simp add: applyRoleContexts_def)

theorem role_contexts_panic_witness:
  "applyRoleContexts demo_verifier no_claims
    [\<lparr>rc_RoleName = ''a'', rc_Values = [(''k'', VUncomparable ''[]string'')]\<rparr>,
     \<lparr>rc_RoleName = ''b'', rc_Values = [(''k'', VUncomparable ''[]string'')]\<rparr>] = None"
  by (rule role_contexts_panic) (simp_all add: demo_verifier_def)

text \<open>
  The CSRF middleware calls Next exactly for a safe method or when the cookie is not empty and the
  header repeats it; otherwise it answers 403 and nothing else.
\<close>

lemma csrf_gate:
  "(Next \<in> set (CSRFWithOptions opts rq) \<longleftrightarrow>
     rq_Method rq \<in> {''GET'', ''HEAD'', ''OPTIONS''} \<or>
     (\<exists>v. v \<noteq> [] \<and> rq_Cookie rq (co_CookieName (csrf_withDefaults opts)) = Some v \<and>
        rq_Header rq (co_HeaderName (csrf_withDefaults opts)) = v)) \<and>
   (CSRFWithOptions opts rq = [Next] \<or> (\<exists>body. CSRFWithOptions opts rq = [AbortWithStatusJSON 403 body]))"
  by (auto simp: CSRFWithOptions_def Let_def safeMethods_def respond_defs split: option.splits)

section \<open>The verifier interface\<close>

text \<open>The keys of a context after a handler's calls of \<open>Set\<close>.\<close>

definition keys_after :: "effect list \<Rightarrow> (string \<Rightarrow> ctx_value option) \<Rightarrow> string \<Rightarrow> ctx_value option" where
  "keys_after effs keys = fold (\<lambda>e ks. case e of SetKey k v \<Rightarrow> ks(k \<mapsto> v) | _ \<Rightarrow> ks) effs keys"

lemma authorization_passes:
  assumes "AuthorizationWithOptions v opt rq w = (effs, w')" and "Next \<in> set effs"
  obtains token cl where "extractToken rq (sessionCookieName opt) = Inr token" "tv_Verify v token w = (Inr cl, w')"
    "effs = [SetKey claimsKey (VClaims cl), Next]"
  using assms by (auto simp: AuthorizationWithOptions_def respond_defs split: sum.splits prod.splits if_splits)

lemma authorization_world:
  assumes "AuthorizationWithOptions v opt rq w = (effs, w')"
  obtains "w' = w" | token r where "tv_Verify v token w = (r, w')"
  using assms by (auto simp: AuthorizationWithOptions_def respond_defs split: sum.splits prod.splits if_splits)

lemma require_role_passes:
  assumes "RequireRole v role extras rq = Some effs" and "Next \<in> set effs"
  obtains cl where "ClaimsFromContext rq = Some cl" "tv_HasRole v cl role"
  using assms by (auto simp: RequireRole_def respond_defs split: option.splits if_splits)

text \<open>
  What a route behind the middlewares relies on: the verifier accepts a token only for a reason, \<open>accepts\<close>, that
  holds of the world the token arrives in, and keeps its own invariant.
\<close>

locale token_contract =
  fixes verifier :: "'w token_verifier"
    and invar :: "'w \<Rightarrow> bool"
    and accepts :: "string \<Rightarrow> claims \<Rightarrow> 'w \<Rightarrow> bool"
  assumes verify_accepts: "invar w \<Longrightarrow> tv_Verify verifier token w = (Inr cl, w') \<Longrightarrow> accepts token cl w"
    and verify_keeps: "invar w \<Longrightarrow> tv_Verify verifier token w = (r, w') \<Longrightarrow> invar w'"
begin

lemma authorization_keeps:
  assumes "invar w" and "AuthorizationWithOptions verifier opt rq w = (effs, w')"
  shows "invar w'"
  using assms(2) by (cases rule: authorization_world) (use assms(1) verify_keeps in auto)

lemma route_accepts:
  assumes "invar w" and "AuthorizationWithOptions verifier opt rq w = (effs, w')" and "Next \<in> set effs"
    and "RequireRole verifier role extras (rq\<lparr>rq_Keys := keys_after effs (rq_Keys rq)\<rparr>) = Some effs2"
    and "Next \<in> set effs2"
  obtains token cl where "extractToken rq (sessionCookieName opt) = Inr token" "accepts token cl w"
    "tv_HasRole verifier cl role"
proof -
  from assms(2,3) obtain token cl where t: "extractToken rq (sessionCookieName opt) = Inr token"
    and v: "tv_Verify verifier token w = (Inr cl, w')" and effs: "effs = [SetKey claimsKey (VClaims cl), Next]"
    by (rule authorization_passes)
  from assms(4,5) obtain cl' where c: "ClaimsFromContext (rq\<lparr>rq_Keys := keys_after effs (rq_Keys rq)\<rparr>) = Some cl'"
    and role: "tv_HasRole verifier cl' role"
    by (rule require_role_passes)
  from c have "cl' = cl" by (simp add: ClaimsFromContext_def keys_after_def effs)
  with that [OF t verify_accepts [OF assms(1) v]] role show thesis by simp
qed

end

end
