(* ===== verification/AuthHandlers.thy ===== *)
theory AuthHandlers
  imports Flow Authorization
begin

text \<open>
  The login handlers (\<^verbatim>\<open>src/httpserver/middlewares/oidcauth.go\<close>): login, callback, refresh, logout and
  identity, with the signed state parameter and the cookies they write. The keyed digest, the JSON
  codec of the state, random bytes, the clock and the resolution of URL references are parameters.
\<close>

section \<open>Data\<close>

definition loginStateTTL :: duration where "loginStateTTL = 10 * Minute"

definition errInvalidLoginState :: go_err where
  "errInvalidLoginState = Sentinel ''middlewares: invalid or expired login state''"

record login_state =
  ls_Verifier :: string
  ls_ReturnTo :: string
  ls_Exp :: int

record auth_cookie_options =
  ac_Domain :: string
  ac_Path :: string
  ac_Secure :: bool
  ac_SameSite :: same_site
  ac_Name :: string
  ac_CSRFName :: string

definition ac_sessionName :: "auth_cookie_options \<Rightarrow> string" where
  "ac_sessionName opts = (if ac_Name opts = [] then SessionCookie else ac_Name opts)"

definition ac_csrfName :: "auth_cookie_options \<Rightarrow> string" where
  "ac_csrfName opts = (if ac_CSRFName opts = [] then CSRFCookie else ac_CSRFName opts)"

text \<open>
  \<open>au_parse\<close> is \<^verbatim>\<open>url.Parse\<close>, reduced to scheme and host; \<open>au_resolve\<close> the text of a reference resolved
  against a base.
\<close>

record ('e, 'w) auth_env =
  au_oauth2 :: "('e, 'w) oauth2_env"
  au_hmac :: "string \<Rightarrow> string \<Rightarrow> string"
  au_marshal :: "login_state \<Rightarrow> string"
  au_unmarshal :: "string \<Rightarrow> login_state option"
  au_generateVerifier :: "'w \<Rightarrow> string \<times> 'w"
  au_random :: "nat \<Rightarrow> 'w \<Rightarrow> string \<times> 'w"
  au_now :: "'w \<Rightarrow> instant"
  au_parse :: "string \<Rightarrow> (string \<times> string) option"
  au_resolve :: "string \<Rightarrow> string \<Rightarrow> string"
  au_uuid_ok :: "string \<Rightarrow> bool"
  au_new_uuid :: "'w \<Rightarrow> string \<times> 'w"

record ('st, 'w, 'e) auth_handler =
  ah_flow :: "'e flow"
  ah_sessions :: "('st, 'w) session_manager"
  ah_verifier :: "string \<Rightarrow> 'w \<Rightarrow> (go_err + claims) \<times> 'w"
  ah_cookies :: auth_cookie_options
  ah_clientID :: string
  ah_postLoginRedirectURI :: string
  ah_postLogoutRedirectURI :: string
  ah_stateSigningKey :: string

text \<open>\<open>None\<close> is a panic for a missing argument.\<close>

definition NewAuth ::
  "'e flow option \<Rightarrow> (string \<Rightarrow> 'w \<Rightarrow> (go_err + claims) \<times> 'w) option \<Rightarrow> ('st, 'w) session_manager option \<Rightarrow>
   string \<Rightarrow> auth_cookie_options \<Rightarrow> string \<Rightarrow> string \<Rightarrow> string \<Rightarrow> ('st, 'w, 'e) auth_handler option"
where
  "NewAuth flow verifier sessions clientID cookies postLogin postLogout stateSigningKey =
     (case (flow, verifier, sessions) of
        (Some f, Some v, Some s) \<Rightarrow>
          if clientID = [] then None
          else if stateSigningKey = [] then None
          else
            (let c1 = (if ac_Path cookies = [] then cookies\<lparr>ac_Path := ''/''\<rparr> else cookies);
                 c2 = (if ac_SameSite c1 = SameSiteUnset then c1\<lparr>ac_SameSite := SameSiteLaxMode\<rparr> else c1)
             in Some \<lparr>ah_flow = f, ah_sessions = s, ah_verifier = v, ah_cookies = c2, ah_clientID = clientID,
                      ah_postLoginRedirectURI = postLogin, ah_postLogoutRedirectURI = postLogout,
                      ah_stateSigningKey = stateSigningKey\<rparr>)
      | _ \<Rightarrow> None)"

section \<open>The state parameter\<close>

definition signState :: "('e, 'w) auth_env \<Rightarrow> ('st, 'w, 'e) auth_handler \<Rightarrow> string \<Rightarrow> string" where
  "signState env h encoded = b64_encode (au_hmac env (ah_stateSigningKey h) encoded)"

definition encodeState ::
  "('e, 'w) auth_env \<Rightarrow> ('st, 'w, 'e) auth_handler \<Rightarrow> instant \<Rightarrow> string \<Rightarrow> string \<Rightarrow> string"
where
  "encodeState env h now verifier returnTo =
     (let payload = au_marshal env \<lparr>ls_Verifier = verifier, ls_ReturnTo = returnTo,
            ls_Exp = unix_of (time_add now loginStateTTL)\<rparr>;
          encoded = b64_encode payload
      in encoded @ ''.'' @ signState env h encoded)"

definition decodeState ::
  "('e, 'w) auth_env \<Rightarrow> ('st, 'w, 'e) auth_handler \<Rightarrow> instant \<Rightarrow> string \<Rightarrow> go_err + login_state"
where
  "decodeState env h now raw =
     (case cut (CHR ''.'') raw of
        None \<Rightarrow> Inl errInvalidLoginState
      | Some (encoded, sig) \<Rightarrow>
          if encoded = [] \<or> sig = [] then Inl errInvalidLoginState
          else if sig \<noteq> signState env h encoded then Inl errInvalidLoginState
          else (case b64_decode encoded of
                  None \<Rightarrow> Inl errInvalidLoginState
                | Some payload \<Rightarrow>
                    (case au_unmarshal env payload of
                       None \<Rightarrow> Inl errInvalidLoginState
                     | Some ls \<Rightarrow>
                         if ls_Verifier ls = [] \<or> ls_Exp ls < unix_of now then Inl errInvalidLoginState
                         else Inr ls)))"

section \<open>Redirect targets\<close>

definition sanitizeReturnTo :: "string \<Rightarrow> string" where
  "sanitizeReturnTo raw =
     (if raw = [] \<or> hd raw \<noteq> CHR ''/'' \<or> prefix ''//'' raw \<or> contains raw ''://'' then ''/'' else raw)"

definition resolveReturnTo :: "('e, 'w) auth_env \<Rightarrow> ('st, 'w, 'e) auth_handler \<Rightarrow> string \<Rightarrow> string" where
  "resolveReturnTo env h returnTo =
     (case au_parse env (ah_postLoginRedirectURI h) of
        None \<Rightarrow> ah_postLoginRedirectURI h
      | Some (scheme, host) \<Rightarrow>
          if scheme = [] \<or> host = [] then ah_postLoginRedirectURI h
          else if au_parse env returnTo = None then ah_postLoginRedirectURI h
          else au_resolve env (ah_postLoginRedirectURI h) returnTo)"

section \<open>Cookies\<close>

text \<open>
  \<open>int(maxAge.Seconds())\<close>: the seconds pass through a float64, which is exact to the second for
  lifetimes below 194 days.
\<close>

definition setCookie :: "('st, 'w, 'e) auth_handler \<Rightarrow> string \<Rightarrow> string \<Rightarrow> duration \<Rightarrow> bool \<Rightarrow> effect" where
  "setCookie h name v maxAge httpOnly =
     SetCookie \<lparr>ck_Name = name, ck_Value = v, ck_Path = ac_Path (ah_cookies h),
       ck_Domain = ac_Domain (ah_cookies h), ck_MaxAge = trunc_div maxAge Second,
       ck_Secure = ac_Secure (ah_cookies h), ck_HttpOnly = httpOnly, ck_SameSite = ac_SameSite (ah_cookies h)\<rparr>"

definition clearCookie :: "('st, 'w, 'e) auth_handler \<Rightarrow> string \<Rightarrow> effect" where
  "clearCookie h name =
     SetCookie \<lparr>ck_Name = name, ck_Value = [], ck_Path = ac_Path (ah_cookies h),
       ck_Domain = ac_Domain (ah_cookies h), ck_MaxAge = - 1,
       ck_Secure = ac_Secure (ah_cookies h), ck_HttpOnly = False, ck_SameSite = ac_SameSite (ah_cookies h)\<rparr>"

definition randomToken :: "('e, 'w) auth_env \<Rightarrow> nat \<Rightarrow> 'w \<Rightarrow> string \<times> 'w" where
  "randomToken env nBytes w = (case au_random env nBytes w of (buf, w') \<Rightarrow> (b64_encode buf, w'))"

definition applySession ::
  "('e, 'w) auth_env \<Rightarrow> ('st, 'w, 'e) auth_handler \<Rightarrow> session \<Rightarrow> 'w \<Rightarrow> effect list \<times> 'w"
where
  "applySession env h s w =
     (let until = time_sub (se_ExpiresAt s) (au_now env w);
          maxAge = (if until < 0 then 0 else until)
      in case randomToken env 24 w of
           (tok, w') \<Rightarrow>
             ([setCookie h (ac_sessionName (ah_cookies h)) (se_ID s) maxAge True,
               setCookie h (ac_csrfName (ah_cookies h)) tok maxAge False], w'))"

definition clearSessionCookie :: "('st, 'w, 'e) auth_handler \<Rightarrow> effect list" where
  "clearSessionCookie h =
     [clearCookie h (ac_sessionName (ah_cookies h)), clearCookie h (ac_csrfName (ah_cookies h))]"

definition noStore :: effect where "noStore = Header ''Cache-Control'' ''no-store''"

section \<open>Handlers\<close>

definition Login ::
  "('e, 'w) auth_env \<Rightarrow> ('st, 'w, 'e) auth_handler \<Rightarrow> request \<Rightarrow> 'w \<Rightarrow> effect list \<times> 'w"
where
  "Login env h rq w =
     (let returnTo = sanitizeReturnTo (rq_Query rq ''redirect_uri'') in
      case au_generateVerifier env w of
        (verifier, w') \<Rightarrow>
          (let state = encodeState env h (au_now env w') verifier returnTo
           in ([noStore, Redirect 302 (AuthCodeURL (au_oauth2 env) (ah_flow h) state verifier)], w')))"

definition Callback ::
  "('e, 'w) auth_env \<Rightarrow> ('st, 'w, 'e) auth_handler \<Rightarrow> request \<Rightarrow> 'st \<Rightarrow> 'w \<Rightarrow> effect list \<times> 'st \<times> 'w"
where
  "Callback env h rq st w =
     (if rq_Query rq ''error'' \<noteq> [] then
        (noStore # respond_BadRequest [NewError ''ERR_OIDC_CALLBACK'' (rq_Query rq ''error_description'') []], st, w)
      else
        (case decodeState env h (au_now env w) (rq_Query rq ''state'') of
           Inl err \<Rightarrow>
             (noStore # respond_BadRequest [NewError ''ERR_OIDC_STATE'' ''Invalid or expired login state'' []], st, w)
         | Inr ls \<Rightarrow>
             if rq_Query rq ''code'' = [] then
               (noStore # respond_BadRequest [NewError ''ERR_OIDC_CALLBACK'' ''Missing authorization code'' []], st, w)
             else
               (case Exchange (au_oauth2 env) (ah_flow h) (rq_Query rq ''code'') (ls_Verifier ls) w of
                  (Inl err, w1) \<Rightarrow>
                    (noStore # respond_Unauthorized [NewError ''ERR_OIDC_EXCHANGE''
                       ''Failed to exchange authorization code'' []], st, w1)
                | (Inr token, w1) \<Rightarrow>
                    (case ah_verifier h (ot_AccessToken token) w1 of
                       (Inl err, w2) \<Rightarrow>
                         (noStore # respond_Unauthorized [NewError ''ERR_OIDC_CLAIMS''
                            ''Failed to read identity claims'' []], st, w2)
                     | (Inr cl, w2) \<Rightarrow>
                         (case sm_Create (au_new_uuid env) (ah_sessions h) st token cl w2 of
                            (Inl err, st', w3) \<Rightarrow>
                              (noStore # respond_InternalServerError [NewError ''ERR_SESSION_CREATE''
                                 ''Failed to create session'' []], st', w3)
                          | (Inr s, st', w3) \<Rightarrow>
                              (case applySession env h s w3 of
                                 (effs, w4) \<Rightarrow>
                                   (noStore # effs @ [Redirect 302 (resolveReturnTo env h (ls_ReturnTo ls))], st', w4)))))))"

definition RefreshHandler ::
  "('e, 'w) auth_env \<Rightarrow> ('st, 'w, 'e) auth_handler \<Rightarrow> request \<Rightarrow> 'st \<Rightarrow> 'w \<Rightarrow> (effect list \<times> 'st \<times> 'w) option"
where
  "RefreshHandler env h rq st w =
     (case rq_Cookie rq (ac_sessionName (ah_cookies h)) of
        None \<Rightarrow> Some (noStore # respond_Unauthorized [NewError ''ERR_MISSING_SESSION'' ''No session cookie present'' []], st, w)
      | Some sessionID \<Rightarrow>
          if sessionID = [] then
            Some (noStore # respond_Unauthorized [NewError ''ERR_MISSING_SESSION'' ''No session cookie present'' []], st, w)
          else
            (case Resolve (au_uuid_ok env) (ah_sessions h) st sessionID w of
               (Inl err, st', w') \<Rightarrow>
                 Some (noStore # clearSessionCookie h @
                   respond_Unauthorized [NewError ''ERR_SESSION_INVALID'' ''Session is invalid or expired'' []], st', w')
             | (Inr None, st', w') \<Rightarrow> None
             | (Inr (Some s), st', w') \<Rightarrow>
                 (case applySession env h s w' of
                    (effs, w'') \<Rightarrow> Some (noStore # effs @ respond_NoContent, st', w''))))"

text \<open>The body of \<open>Logout\<close>'s answer is an object with the one field \<open>logout_url\<close>.\<close>

definition Logout :: "('st, 'w, 'e) auth_handler \<Rightarrow> request \<Rightarrow> 'st \<Rightarrow> effect list \<times> 'st" where
  "Logout h rq st =
     (let sessionID = (case rq_Cookie rq (ac_sessionName (ah_cookies h)) of None \<Rightarrow> [] | Some v \<Rightarrow> v);
          idToken = (if sessionID \<noteq> [] then
                       (case Peek (ah_sessions h) st sessionID of Inl _ \<Rightarrow> [] | Inr s \<Rightarrow> ts_IDToken (se_Tokens s))
                     else []);
          st' = (if sessionID \<noteq> [] then snd (sm_Delete (ah_sessions h) st sessionID) else st);
          url = EndSessionURL (ah_flow h) idToken (ah_postLogoutRedirectURI h);
          logoutURL = (if url = [] then ah_postLogoutRedirectURI h else url)
      in (noStore # clearSessionCookie h @ respond_OK (Some (JObj [(''logout_url'', JStr logoutURL)])) [], st'))"

definition Me :: "('st, 'w, 'e) auth_handler \<Rightarrow> request \<Rightarrow> effect list" where
  "Me h rq =
     (case ClaimsFromContext rq of
        None \<Rightarrow> noStore # respond_Unauthorized [NewError ''ERR_INVALID_TOKEN'' ''Authorization token is invalid or expired'' []]
      | Some cl \<Rightarrow>
          noStore # respond_OK (Some (JObj [(''sub'', JStr (cl_Sub cl)), (''email'', JStr (cl_Email cl)),
            (''name'', JStr (cl_Name cl)), (''preferred_username'', JStr (cl_PreferredUsername cl)),
            (''client_roles'', (case cl_ResourceAccess cl (ah_clientID h) of
                None \<Rightarrow> JNull
              | Some m \<Rightarrow> (case m ''roles'' of None \<Rightarrow> JNull | Some rs \<Rightarrow> JArr (map JStr rs))))])) [])"

section \<open>Properties\<close>

text \<open>
  The return path is always a local one: it starts with one slash, is not protocol-relative and
  has no scheme separator; a path with these properties is kept as it is and everything else becomes
  the root.
\<close>

lemma sanitize_return_to:
  "(let local = (\<lambda>p. p \<noteq> [] \<and> hd p = CHR ''/'' \<and> \<not> prefix ''//'' p \<and> \<not> contains p ''://'')
    in local (sanitizeReturnTo raw) \<and> sanitizeReturnTo raw = (if local raw then raw else ''/''))"
proof -
  have "\<not> sublist ''://'' ''/''" using sublist_length_le [of "''://''" "''/''"] by auto
  then show ?thesis by (auto simp: sanitizeReturnTo_def contains_def Let_def)
qed

text \<open>
  C19: the callback accepts a state parameter only if it is a payload and its signature under the
  handler's key, separated by the first dot, whose decoded content has a verifier and has not
  expired: nobody without the key can make it accept another payload.
\<close>

theorem decode_state_sound:
  "decodeState env h now raw = Inr ls \<longleftrightarrow>
     (\<exists>encoded payload. raw = encoded @ ''.'' @ signState env h encoded \<and> CHR ''.'' \<notin> set encoded \<and>
        encoded \<noteq> [] \<and> signState env h encoded \<noteq> [] \<and> b64_decode encoded = Some payload \<and>
        au_unmarshal env payload = Some ls \<and> ls_Verifier ls \<noteq> [] \<and> unix_of now \<le> ls_Exp ls)"
proof
  assume "decodeState env h now raw = Inr ls"
  then obtain encoded payload where "cut (CHR ''.'') raw = Some (encoded, signState env h encoded)"
    "encoded \<noteq> []" "signState env h encoded \<noteq> []" "b64_decode encoded = Some payload"
    "au_unmarshal env payload = Some ls" "ls_Verifier ls \<noteq> []" "unix_of now \<le> ls_Exp ls"
    by (auto simp: decodeState_def split: option.splits if_splits)
  with cut_Some [of "CHR ''.''" raw encoded "signState env h encoded"]
  show "\<exists>encoded payload. raw = encoded @ ''.'' @ signState env h encoded \<and> CHR ''.'' \<notin> set encoded \<and>
      encoded \<noteq> [] \<and> signState env h encoded \<noteq> [] \<and> b64_decode encoded = Some payload \<and>
      au_unmarshal env payload = Some ls \<and> ls_Verifier ls \<noteq> [] \<and> unix_of now \<le> ls_Exp ls"
    by auto
qed (auto simp: decodeState_def)

lemma decode_signed:
  assumes "au_hmac env (ah_stateSigningKey h) (b64_encode p) \<noteq> []" and "p \<noteq> []" and "au_unmarshal env p = Some ls"
  shows "decodeState env h now (b64_encode p @ ''.'' @ signState env h (b64_encode p)) =
    (if ls_Verifier ls = [] \<or> ls_Exp ls < unix_of now then Inl errInvalidLoginState else Inr ls)"
proof -
  have "CHR ''.'' \<notin> set (b64_encode p)" using b64_encode_safe by blast
  then show ?thesis using assms by (simp add: decodeState_def signState_def b64_decode_encode)
qed

text \<open>
  C20: a state made by Login decodes, within its ten minutes, to the verifier and return path it was
  made from, and is refused afterwards; given that the keyed digest is never empty and that the JSON
  codec reads back what it wrote for this state.
\<close>

theorem state_round_trip:
  assumes "\<And>k m. au_hmac env k m \<noteq> []" and "verifier \<noteq> []"
    and "ls = \<lparr>ls_Verifier = verifier, ls_ReturnTo = returnTo, ls_Exp = unix_of (t0 + loginStateTTL)\<rparr>"
    and "au_unmarshal env (au_marshal env ls) = Some ls" and "au_marshal env ls \<noteq> []"
  shows "decodeState env h now (encodeState env h t0 verifier returnTo) =
    (if unix_of now \<le> unix_of (t0 + loginStateTTL) then Inr ls else Inl errInvalidLoginState)"
proof -
  have "encodeState env h t0 verifier returnTo = b64_encode (au_marshal env ls) @ ''.'' @ signState env h (b64_encode (au_marshal env ls))"
    by (simp add: encodeState_def Let_def assms(3) time_add_def)
  then have "decodeState env h now (encodeState env h t0 verifier returnTo) =
      (if ls_Verifier ls = [] \<or> ls_Exp ls < unix_of now then Inl errInvalidLoginState else Inr ls)"
    by (simp only: decode_signed [OF assms(1,5,4)])
  with assms(2) show ?thesis by (auto simp: assms(3))
qed

definition demo_login_state :: login_state where
  "demo_login_state = \<lparr>ls_Verifier = ''v'', ls_ReturnTo = ''/home'', ls_Exp = unix_of (0 + loginStateTTL)\<rparr>"

definition demo_auth_env :: "(unit, instant) auth_env" where
  "demo_auth_env = \<lparr>au_oauth2 = \<lparr>oa_AuthCodeURL = (\<lambda>f s v. s), oa_Exchange = (\<lambda>f c v w. (Inl (Foreign 0), w)),
       oa_Token = (\<lambda>f r w. (Inl (Foreign 0), w))\<rparr>,
     au_hmac = (\<lambda>k m. CHR ''s'' # k @ m), au_marshal = (\<lambda>ls. ''x''), au_unmarshal = (\<lambda>s. Some demo_login_state),
     au_generateVerifier = (\<lambda>w. (''v'', w)), au_random = (\<lambda>n w. (''r'', w)), au_now = (\<lambda>w. w),
     au_parse = (\<lambda>s. None), au_resolve = (\<lambda>b r. b), au_uuid_ok = (\<lambda>s. True), au_new_uuid = (\<lambda>w. (''u'', w))\<rparr>"

definition demo_auth_handler :: "(fake_store, instant, unit) auth_handler" where
  "demo_auth_handler = \<lparr>ah_flow = \<lparr>fl_ClientID = ''app'', fl_ClientSecret = ''s'', fl_RedirectURL = [], fl_Scopes = [],
       fl_Endpoint = (), fl_endSessionURL = []\<rparr>,
     ah_sessions = demo_manager, ah_verifier = (\<lambda>t w. (Inr no_claims, w)),
     ah_cookies = \<lparr>ac_Domain = [], ac_Path = ''/'', ac_Secure = True, ac_SameSite = SameSiteLaxMode, ac_Name = [],
       ac_CSRFName = []\<rparr>,
     ah_clientID = ''app'', ah_postLoginRedirectURI = ''https://f'', ah_postLogoutRedirectURI = ''https://f/bye'',
     ah_stateSigningKey = ''k''\<rparr>"

theorem state_round_trip_witness:
  "decodeState demo_auth_env demo_auth_handler (5 * Minute)
     (encodeState demo_auth_env demo_auth_handler 0 ''v'' ''/home'') = Inr demo_login_state"
  using state_round_trip [of demo_auth_env "''v''" demo_login_state "''/home''" 0 demo_auth_handler "5 * Minute"]
  by (simp add: demo_auth_env_def demo_login_state_def loginStateTTL_def unix_of_def clock_simps)

lemma applySession_eq:
  "applySession env h s w =
     (let maxAge = max 0 (time_sub (se_ExpiresAt s) (au_now env w)) in
      case au_random env 24 w of
        (buf, w') \<Rightarrow> ([setCookie h (ac_sessionName (ah_cookies h)) (se_ID s) maxAge True,
           setCookie h (ac_csrfName (ah_cookies h)) (b64_encode buf) maxAge False], w'))"
  by (auto simp: applySession_def randomToken_def Let_def max_def split: prod.split)

text \<open>
  C18: the callback writes cookies only after the whole exchange succeeded: no error from the issuer, a
  valid state, a code, tokens for the code and the state's verifier, claims for the access token, and a
  stored session. What it then sends is the session's id, a fresh random token and the redirect to the
  path from the state, nothing of the tokens; in every other case it sends one error response.
\<close>

theorem callback_session:
  "case Callback env h rq st w of (effs, st', w') \<Rightarrow>
     (\<exists>status body. effs = [noStore, AbortWithStatusJSON status body] \<and> status \<in> {400, 401, 500}) \<or>
     (\<exists>ls token cl s w1 w2 w3 buf.
        rq_Query rq ''error'' = [] \<and> rq_Query rq ''code'' \<noteq> [] \<and>
        decodeState env h (au_now env w) (rq_Query rq ''state'') = Inr ls \<and>
        Exchange (au_oauth2 env) (ah_flow h) (rq_Query rq ''code'') (ls_Verifier ls) w = (Inr token, w1) \<and>
        ah_verifier h (ot_AccessToken token) w1 = (Inr cl, w2) \<and>
        sm_Create (au_new_uuid env) (ah_sessions h) st token cl w2 = (Inr s, st', w3) \<and>
        au_random env 24 w3 = (buf, w') \<and>
        (let maxAge = max 0 (time_sub (se_ExpiresAt s) (au_now env w3)) in
         effs = [noStore, setCookie h (ac_sessionName (ah_cookies h)) (se_ID s) maxAge True,
                 setCookie h (ac_csrfName (ah_cookies h)) (b64_encode buf) maxAge False,
                 Redirect 302 (resolveReturnTo env h (ls_ReturnTo ls))]))"
  unfolding Callback_def Let_def
  by (auto simp: applySession_eq respond_defs Let_def split: sum.split prod.split)

text \<open>
  Logout, over the in-memory store, removes the session the cookie names and no other, clears both
  cookies, and answers 200 with the issuer's logout URL or, when there is none, the configured one; it
  does so also without a cookie or for a session that is gone.
\<close>

lemma logout_clears:
  assumes "sm_store (ah_sessions h) = fake_ops"
  shows "case Logout h rq st of (effs, st') \<Rightarrow>
    (\<exists>url. effs = [noStore, clearCookie h (ac_sessionName (ah_cookies h)), clearCookie h (ac_csrfName (ah_cookies h)),
        JSON 200 (successResponse (Some (JObj [(''logout_url'', JStr url)])) msgOK)] \<and>
      (url = ah_postLogoutRedirectURI h \<or> prefix (fl_endSessionURL (ah_flow h)) url)) \<and>
    map_of (fs_data st') =
      (case rq_Cookie rq (ac_sessionName (ah_cookies h)) of
         Some (c # cs) \<Rightarrow> (map_of (fs_data st))(c # cs := None)
       | _ \<Rightarrow> map_of (fs_data st))"
  using assms
  by (auto simp: Logout_def Let_def clearSessionCookie_def respond_defs pickMessage_def sm_Delete_def fs_Delete_def
      EndSessionURL_def split: option.split list.split)

theorem logout_clears_witness:
  "map_of (fs_data (snd (Logout demo_auth_handler
     \<lparr>rq_Method = ''POST'', rq_Header = (\<lambda>h. []), rq_Cookie = (\<lambda>c. Some ''u''), rq_Query = (\<lambda>q. []), rq_ClientIP = [],
      rq_Keys = Map.empty\<rparr> demo_store))) = Map.empty"
proof -
  let ?rq = "\<lparr>rq_Method = ''POST'', rq_Header = (\<lambda>h. []), rq_Cookie = (\<lambda>c. Some ''u''), rq_Query = (\<lambda>q. []),
      rq_ClientIP = [], rq_Keys = Map.empty\<rparr>"
  have "sm_store (ah_sessions demo_auth_handler) = fake_ops" by (simp add: demo_auth_handler_def)
  from logout_clears [OF this, of demo_store ?rq] show ?thesis
    by (auto simp: demo_store_def split: prod.splits)
qed

text \<open>
  The two cookies of a session carry its remaining whole seconds as their maximum age, and 0 for a
  session with less than a second left; in an HTTP cookie a maximum age of 0 is not sent at all, so
  that such cookies do not expire with the session.
\<close>

lemma session_cookie_age:
  "case applySession env h s w of (effs, w') \<Rightarrow>
     (\<exists>tok. effs =
        [SetCookie \<lparr>ck_Name = ac_sessionName (ah_cookies h), ck_Value = se_ID s, ck_Path = ac_Path (ah_cookies h),
           ck_Domain = ac_Domain (ah_cookies h),
           ck_MaxAge = max 0 (time_sub (se_ExpiresAt s) (au_now env w)) div Second,
           ck_Secure = ac_Secure (ah_cookies h), ck_HttpOnly = True, ck_SameSite = ac_SameSite (ah_cookies h)\<rparr>,
         SetCookie \<lparr>ck_Name = ac_csrfName (ah_cookies h), ck_Value = tok, ck_Path = ac_Path (ah_cookies h),
           ck_Domain = ac_Domain (ah_cookies h),
           ck_MaxAge = max 0 (time_sub (se_ExpiresAt s) (au_now env w)) div Second,
           ck_Secure = ac_Secure (ah_cookies h), ck_HttpOnly = False, ck_SameSite = ac_SameSite (ah_cookies h)\<rparr>]) \<and>
     (max 0 (time_sub (se_ExpiresAt s) (au_now env w)) div Second = 0 \<longleftrightarrow>
        time_sub (se_ExpiresAt s) (au_now env w) < Second)"
  by (auto simp: applySession_def randomToken_def setCookie_def trunc_div_def Let_def max_def Second_def
      split: prod.split)

end
