(* ===== verification/VerifierCache.thy ===== *)
theory VerifierCache
  imports Oidc
begin

text \<open>
  A verifier under concurrent calls (\<^verbatim>\<open>src/oidcauth/oidc.go\<close>, \<open>Verify\<close>, over the cache of \<^verbatim>\<open>src/oidcauth/cache.go\<close>):
  the checks of a call, the store of its claims and the runs of the evictor are separate steps that other
  calls may come between. The relation is written over the parts of \<open>Verify\<close> of theory \<^verbatim>\<open>Oidc\<close>; beside the
  verifier its states hold the checks that succeeded so far.
\<close>

section \<open>What a full check is\<close>

text \<open>
  The claims were read from a JWT that passed the local check with this verifier's settings, or from the
  introspector's answer for an opaque token; unless introspection is disabled the introspector accepted
  the token. The state of the introspector at the time is left open.
\<close>

definition checked_token :: "('c, 'w) oidc_env \<Rightarrow> 'c oidc \<Rightarrow> string \<Rightarrow> claims \<Rightarrow> 'w \<Rightarrow> bool" where
  "checked_token env o' token cl w \<longleftrightarrow>
     (\<exists>lc w1.
        (case lc of
           None \<Rightarrow> \<not> looksLikeJWT token \<and> w1 = w
         | Some (cl', expiry) \<Rightarrow> looksLikeJWT token \<and> cl = cl' \<and>
             ve_local env (oi_verifier o') token w = (Inr (Inr cl', expiry), w1)) \<and>
        (if cf_DisableIntrospection (oi_config o') then lc \<noteq> None
         else \<exists>i i' cl' w'.
           Introspect (ve_sha256 env) (ve_send env) (ve_now env) (ve_ctx env) i token
             (case lc of None \<Rightarrow> zero_time | Some (_, expiry) \<Rightarrow> expiry) w1 = (Inr cl', i', w') \<and>
           cl = (case lc of None \<Rightarrow> cl' | Some (cl'', _) \<Rightarrow> cl'')))"

lemma checked_tokenI:
  assumes "verify_local env o' token w = (Inr lc, w1)" and "verify_remote env o' token lc w1 = (Inr cl, o'', w2)"
  shows "checked_token env o' token cl w"
proof -
  have "case lc of None \<Rightarrow> \<not> looksLikeJWT token \<and> w1 = w
     | Some (cl', expiry) \<Rightarrow> looksLikeJWT token \<and> cl = cl' \<and>
         ve_local env (oi_verifier o') token w = (Inr (Inr cl', expiry), w1)"
    using verify_local_Inr [OF assms(1)] verify_remote_Inr(1) [OF assms(2)] by (auto split: option.splits)
  moreover have "if cf_DisableIntrospection (oi_config o') then lc \<noteq> None
     else \<exists>i i' cl' w'. Introspect (ve_sha256 env) (ve_send env) (ve_now env) (ve_ctx env) i token
         (case lc of None \<Rightarrow> zero_time | Some (_, expiry) \<Rightarrow> expiry) w1 = (Inr cl', i', w') \<and>
       cl = (case lc of None \<Rightarrow> cl' | Some (cl'', _) \<Rightarrow> cl'')"
    using verify_remote_Inr [OF assms(2)] by (cases lc) auto
  ultimately show ?thesis unfolding checked_token_def by blast
qed

lemma checked_token_cong:
  "oi_config o1 = oi_config o2 \<Longrightarrow> oi_verifier o1 = oi_verifier o2 \<Longrightarrow>
   checked_token env o1 token cl w \<longleftrightarrow> checked_token env o2 token cl w"
  by (simp add: checked_token_def cong: option.case_cong)

lemma verify_remote_verifier:
  "verify_remote env o' token lc w = (r, o'', w') \<Longrightarrow> oi_verifier o'' = oi_verifier o'"
  by (auto simp: verify_remote_def Let_def split: if_splits option.splits prod.splits sum.splits)

text \<open>A call answers from the cache or makes a full check.\<close>

lemma Verify_accepted:
  assumes "Verify env o' token w = (Inr cl, o'', w')"
  obtains (cached) c where "oi_cache o' = Some c" "ve_get env c (hashToken (ve_sha256 env) token) (ve_now env w) = Some cl"
  | (checked) "checked_token env o' token cl w"
  using assms by (cases rule: Verify_cases [of o' env token w]) (auto intro: checked_tokenI)

lemma Verify_keeps:
  assumes "Verify env o' token w = (r, o'', w')"
  shows "oi_config o'' = oi_config o'" and "oi_verifier o'' = oi_verifier o'"
  using assms
  by (cases rule: Verify_cases [of o' env token w]; auto dest: verify_remote_keeps(2) verify_remote_verifier)+

section \<open>Interleaved calls\<close>

type_synonym 'w vc_state = "memory_cache oidc \<times> (string \<times> claims \<times> 'w) set"

inductive vc_step :: "(memory_cache, 'w) oidc_env \<Rightarrow> 'w vc_state \<Rightarrow> 'w vc_state \<Rightarrow> bool" for env where
  vc_checked: "verify_local env o' token w = (Inr lc, w1) \<Longrightarrow> verify_remote env o' token lc w1 = (Inr cl, o'', w2) \<Longrightarrow>
    vc_step env (o', C) (o'', insert (token, cl, w) C)"
| vc_refused: "verify_local env o' token w = (Inr lc, w1) \<Longrightarrow> verify_remote env o' token lc w1 = (Inl e, o'', w2) \<Longrightarrow>
    vc_step env (o', C) (o'', C)"
| vc_stored: "(token, cl, w) \<in> C \<Longrightarrow>
    vc_step env (o', C) (o'\<lparr>oi_cache := map_option (\<lambda>c. ve_set env c (hashToken (ve_sha256 env) token) cl (ve_now env w))
      (oi_cache o')\<rparr>, C)"
| vc_evicted: "vc_step env (o', C) (o'\<lparr>oi_cache := map_option (\<lambda>c. mc_evict c now) (oi_cache o')\<rparr>, C)"
| vc_introspector: "oi_introspector o' = Some i \<Longrightarrow> vc_step env (o', C) (o'\<lparr>oi_introspector := Some i'\<rparr>, C)"

inductive_cases vc_stepE [elim]: "vc_step env s s'"

definition vc_reachable :: "(memory_cache, 'w) oidc_env \<Rightarrow> memory_cache oidc \<Rightarrow> 'w vc_state \<Rightarrow> bool" where
  "vc_reachable env o0 = (vc_step env)\<^sup>*\<^sup>* (o0, {})"

text \<open>The whole of \<open>Verify\<close>, without other calls in between, is a run of these steps.\<close>

lemma Verify_steps:
  assumes "Verify env o' token w = (r, o'', w')"
  shows "\<exists>C'. (vc_step env)\<^sup>*\<^sup>* (o', C) (o'', C')"
proof (rule Verify_cases [of o' env token w])
  fix lc w1 cl o1 w2
  assume l: "verify_local env o' token w = (Inr lc, w1)" and rm: "verify_remote env o' token lc w1 = (Inr cl, o1, w2)"
    and v: "Verify env o' token w = (Inr cl, o1\<lparr>oi_cache := map_option (\<lambda>c. ve_set env c
         (hashToken (ve_sha256 env) token) cl (ve_now env w)) (oi_cache o')\<rparr>, w2)"
  have "oi_cache o1 = oi_cache o'" by (rule verify_remote_keeps(1) [OF rm])
  with vc_checked [OF l rm, of C] vc_stored [of token cl w "insert (token, cl, w) C" env o1] v assms
  have "(vc_step env)\<^sup>*\<^sup>* (o', C) (o'', insert (token, cl, w) C)"
    by (auto intro: rtranclp_trans)
  then show ?thesis by blast
next
  fix lc w1 e o1 w2
  assume "verify_local env o' token w = (Inr lc, w1)" "verify_remote env o' token lc w1 = (Inl e, o1, w2)"
    "Verify env o' token w = (Inl e, o1, w2)"
  with vc_refused [of env o' token w lc w1 e o1 w2 C] assms show ?thesis by auto
qed (use assms in auto)

section \<open>The invariant\<close>

text \<open>What the cache answers at an instant was stored by a full check that is recent enough.\<close>

definition vouched :: "(memory_cache, 'w) oidc_env \<Rightarrow> (string \<times> claims \<times> 'w) set \<Rightarrow> memory_cache \<Rightarrow> bool" where
  "vouched env C c \<longleftrightarrow> (\<forall>k t cl. mc_get c k t = Some cl \<longrightarrow>
     (\<exists>token w. (token, cl, w) \<in> C \<and> k = hashToken (ve_sha256 env) token \<and> t < ve_now env w + mc_duration c \<and>
        (0 < cl_Exp cl \<longrightarrow> t < claims_expiry (cl_Exp cl))))"

definition vc_ok :: "(memory_cache, 'w) oidc_env \<Rightarrow> memory_cache oidc \<Rightarrow> 'w vc_state \<Rightarrow> bool" where
  "vc_ok env o0 s = (case s of (o', C) \<Rightarrow>
     oi_config o' = oi_config o0 \<and> oi_verifier o' = oi_verifier o0 \<and>
     map_option mc_duration (oi_cache o') = map_option mc_duration (oi_cache o0) \<and>
     (\<forall>c. oi_cache o' = Some c \<longrightarrow> mc_invar c \<and> vouched env C c) \<and>
     (\<forall>token cl w. (token, cl, w) \<in> C \<longrightarrow> checked_token env o0 token cl w))"

lemma vouched_mono: "vouched env C c \<Longrightarrow> C \<subseteq> C' \<Longrightarrow> vouched env C' c"
  unfolding vouched_def by blast

lemma vouched_set:
  assumes "vouched env C c" and "(token, cl, w) \<in> C"
  shows "vouched env C (mc_set c (hashToken (ve_sha256 env) token) cl (ve_now env w))"
  unfolding vouched_def
proof (intro allI impI)
  fix k t cl'
  assume g: "mc_get (mc_set c (hashToken (ve_sha256 env) token) cl (ve_now env w)) k t = Some cl'"
  have d: "mc_duration (mc_set c k' cl t') = mc_duration c" for k' t' by (simp add: mc_set_def)
  show "\<exists>token' w'. (token', cl', w') \<in> C \<and> k = hashToken (ve_sha256 env) token' \<and>
      t < ve_now env w' + mc_duration (mc_set c (hashToken (ve_sha256 env) token) cl (ve_now env w)) \<and>
      (0 < cl_Exp cl' \<longrightarrow> t < claims_expiry (cl_Exp cl'))"
  proof (cases "k = hashToken (ve_sha256 env) token")
    case True
    with g have "t < mc_expiry c cl (ve_now env w)" and "cl' = cl" by (simp_all add: mc_get_set split: if_splits)
    with mc_expiry_bounds [where c = c and cl = cl and t = "ve_now env w"] assms(2) True show ?thesis
      unfolding d by (intro exI [of _ token] exI [of _ w]) (auto intro: order.strict_trans2)
  next
    case False
    with g assms(1) show ?thesis unfolding d by (simp add: mc_get_set vouched_def)
  qed
qed

lemma mc_get_evict_subset: "mc_invar c \<Longrightarrow> mc_get (mc_evict c now) k t = Some cl \<Longrightarrow> mc_get c k t = Some cl"
  by (auto simp: mc_get_def mc_evict_def mc_invar_def map_of_filter_value split: option.splits if_splits)

lemma vouched_evict:
  assumes "vouched env C c" and "mc_invar c"
  shows "vouched env C (mc_evict c now)"
proof -
  have "mc_duration (mc_evict c now) = mc_duration c" by (simp add: mc_evict_def)
  with assms(1) show ?thesis
    using mc_get_evict_subset [OF assms(2), of now] unfolding vouched_def by metis
qed

lemma mc_duration_ops [simp]:
  "mc_duration (mc_set c k cl t) = mc_duration c" "mc_duration (mc_evict c now) = mc_duration c"
  by (simp_all add: mc_set_def mc_evict_def)

lemma vc_ok_step:
  assumes "vc_ok env o0 s" and "vc_step env s s'" and "ve_set env = mc_set"
  shows "vc_ok env o0 s'"
  using assms(2)
proof cases
  case (vc_checked o' token w lc w1 cl o'' w2 C)
  note keeps = verify_remote_keeps(1,2) [OF vc_checked(4)] verify_remote_verifier [OF vc_checked(4)]
  from assms(1) have same: "oi_config o' = oi_config o0" "oi_verifier o' = oi_verifier o0"
    by (simp_all add: vc_checked(1) vc_ok_def)
  have "checked_token env o0 token cl w"
    by (rule checked_token_cong [OF same, THEN iffD1]) (rule checked_tokenI [OF vc_checked(3,4)])
  with assms(1) keeps show ?thesis
    by (auto simp: vc_checked(1,2) vc_ok_def intro: vouched_mono)
next
  case (vc_refused o' token w lc w1 e o'' w2 C)
  with assms(1) verify_remote_keeps(1,2) [OF vc_refused(4)] verify_remote_verifier [OF vc_refused(4)]
  show ?thesis by (auto simp: vc_ok_def)
next
  case (vc_stored token cl w C o')
  with assms(1,3) show ?thesis by (auto simp: vc_ok_def vouched_set option.map_comp comp_def)
next
  case (vc_evicted o' C now)
  with assms(1) show ?thesis by (auto simp: vc_ok_def vouched_evict option.map_comp comp_def)
next
  case (vc_introspector o' i C i')
  with assms(1) show ?thesis by (auto simp: vc_ok_def)
qed

lemma vc_ok_reachable:
  assumes "vc_reachable env o0 s" and "ve_set env = mc_set" and "NewMemoryCache d = Some c" and "oi_cache o0 = Some c"
  shows "vc_ok env o0 s"
proof -
  have keeps: "preserved (vc_step env) (vc_ok env o0)"
    by unfold_locales (use assms(2) vc_ok_step in blast)
  have "vc_ok env o0 (o0, {})"
    using assms(3,4)
    by (auto simp: vc_ok_def vouched_def NewMemoryCache_def mc_invar_def mc_get_def wf_map_def split: if_splits)
  with preserved.reachable_keeps [OF keeps] assms(1) show ?thesis by (simp add: vc_reachable_def)
qed

lemma verify_fresh:
  assumes "NewMemoryCache d = Some c" and "oi_cache o0 = Some c" and "ve_get env = mc_get" and "ve_set env = mc_set"
    and "vc_reachable env o0 (o', C)" and "Verify env o' token w = (Inr cl, o'', w')"
  shows "checked_token env o0 token cl w \<or>
    (\<exists>token' w0. hashToken (ve_sha256 env) token' = hashToken (ve_sha256 env) token \<and> (token', cl, w0) \<in> C \<and>
       checked_token env o0 token' cl w0 \<and> ve_now env w < ve_now env w0 + d \<and>
       (0 < cl_Exp cl \<longrightarrow> ve_now env w < claims_expiry (cl_Exp cl)))"
proof -
  have ok: "vc_ok env o0 (o', C)" by (rule vc_ok_reachable [OF assms(5,4,1,2)])
  from assms(6) show ?thesis
  proof (cases rule: Verify_accepted)
    case (cached c')
    have d: "mc_duration c' = d"
      using ok cached(1) assms(1,2) by (auto simp: vc_ok_def NewMemoryCache_def split: if_splits)
    from ok cached(1) have "vouched env C c'" and all: "\<And>t cl w. (t, cl, w) \<in> C \<Longrightarrow> checked_token env o0 t cl w"
      by (simp_all add: vc_ok_def)
    with cached(2) obtain token' w0 where "(token', cl, w0) \<in> C"
      "hashToken (ve_sha256 env) token = hashToken (ve_sha256 env) token'" "ve_now env w < ve_now env w0 + d"
      "0 < cl_Exp cl \<longrightarrow> ve_now env w < claims_expiry (cl_Exp cl)"
      unfolding vouched_def d assms(3) by blast
    with all show ?thesis by metis
  next
    case checked
    from ok have same: "oi_config o' = oi_config o0" "oi_verifier o' = oi_verifier o0" by (simp_all add: vc_ok_def)
    from checked show ?thesis unfolding checked_token_cong [OF same] by blast
  qed
qed

section \<open>Property\<close>

text \<open>
  Whatever calls, stores and evictions were interleaved before, a verifier with a memory cache accepts a
  token only if it passes the full check now, or if a token with the same digest passed it, with the same
  claims, less than the cache duration ago and the claims have not reached their exp. A revoked token is
  therefore refused at the latest when the duration has passed.
\<close>

lemma verified_token_fresh:
  assumes "NewMemoryCache d = Some c" and "oi_cache o0 = Some c" and "ve_get env = mc_get" and "ve_set env = mc_set"
    and "vc_reachable env o0 (o', C)" and "Verify env o' token w = (Inr cl, o'', w')"
  shows "checked_token env o0 token cl w \<or>
    (\<exists>token' w0. hashToken (ve_sha256 env) token' = hashToken (ve_sha256 env) token \<and> (token', cl, w0) \<in> C \<and>
       checked_token env o0 token' cl w0 \<and> ve_now env w < ve_now env w0 + d \<and>
       (0 < cl_Exp cl \<longrightarrow> ve_now env w < claims_expiry (cl_Exp cl)))"
  by (rule verify_fresh [OF assms])

lemma demo_cache: "NewMemoryCache Minute = Some \<lparr>mc_duration = Minute, mc_entries = [], mc_stop = False\<rparr>"
  by (simp add: NewMemoryCache_def clock_simps)

theorem verified_token_fresh_witness:
  "\<exists>o' C. vc_reachable demo_env demo_oidc (o', C) \<and> Verify demo_env o' ''a.b.c'' 7 = (Inr no_claims, o', 7) \<and>
     (checked_token demo_env demo_oidc ''a.b.c'' no_claims 7 \<or>
      (\<exists>token' w0. hashToken (\<lambda>s. s) token' = hashToken (\<lambda>s. s) ''a.b.c'' \<and> (token', no_claims, w0) \<in> C \<and>
         checked_token demo_env demo_oidc token' no_claims w0 \<and> 7 < w0 + Minute \<and>
         (0 < cl_Exp no_claims \<longrightarrow> 7 < claims_expiry (cl_Exp no_claims))))"
proof -
  obtain r o1 w1 where v: "Verify demo_env demo_oidc ''a.b.c'' 5 = (r, o1, w1)"
    by (cases "Verify demo_env demo_oidc ''a.b.c'' 5")
  then have again: "Verify demo_env o1 ''a.b.c'' 7 = (Inr no_claims, o1, 7)"
    by (auto simp: Verify_def verify_local_def verify_remote_def looksLikeJWT_def demo_env_def demo_oidc_def
        demo_config_def mc_get_def mc_set_def mc_expiry_def no_claims_def Let_def clock_simps)
  from Verify_steps [OF v, of "{}"] obtain C where r: "vc_reachable demo_env demo_oidc (o1, C)"
    unfolding vc_reachable_def by blast
  have "oi_cache demo_oidc = Some \<lparr>mc_duration = Minute, mc_entries = [], mc_stop = False\<rparr>" "ve_get demo_env = mc_get"
    "ve_set demo_env = mc_set" "ve_sha256 demo_env = (\<lambda>s. s)" "ve_now demo_env = (\<lambda>w. w)"
    by (simp_all add: demo_oidc_def demo_env_def)
  with verified_token_fresh [OF demo_cache _ _ _ r again] r again show ?thesis by auto
qed

end
