(* ===== verification/Routes.thy ===== *)
theory Routes
  imports AuthHandlers VerifierCache
begin

text \<open>
  The two verifiers of package \<^verbatim>\<open>oidcauth\<close> in the place the middlewares ask for one: a session manager
  (\<^verbatim>\<open>src/oidcauth/session_manager.go\<close>) and an \<^verbatim>\<open>OIDC\<close> (\<^verbatim>\<open>src/oidcauth/oidc.go\<close>) each satisfy the verifier interface, the
  first over every session store that keeps its contract.
\<close>

section \<open>A session manager as the verifier\<close>

text \<open>The store is part of the world the verifier changes.\<close>

definition session_verifier ::
  "(string \<Rightarrow> bool) \<Rightarrow> ('st, 'w) session_manager \<Rightarrow> ('st \<times> 'w) token_verifier"
where
  "session_verifier uuid_ok m =
     \<lparr>tv_Verify = (\<lambda>sessionID (st, w). case sm_Verify uuid_ok m st sessionID w of (r, st', w') \<Rightarrow> (r, (st', w'))),
      tv_HasRole = sm_HasRole m\<rparr>"

lemma session_verifier_simps [simp]:
  "tv_Verify (session_verifier uuid_ok m) k (st, w) = sm_Verify uuid_ok m st k w"
  "tv_HasRole (session_verifier uuid_ok m) cl role = sm_HasRole m cl role"
  by (simp_all add: session_verifier_def split: prod.split)

text \<open>The id names a stored session that is not over, and the claims are that session's.\<close>

definition live_session ::
  "(string \<Rightarrow> bool) \<Rightarrow> ('st, 'w) session_manager \<Rightarrow> ('st \<Rightarrow> string \<Rightarrow> session option) \<Rightarrow> string \<Rightarrow> claims \<Rightarrow> 'st \<times> 'w \<Rightarrow> bool"
where
  "live_session uuid_ok m lookup k cl sw =
     (case sw of (st, w) \<Rightarrow> uuid_ok k \<and>
        (case lookup st k of None \<Rightarrow> False | Some s \<Rightarrow> \<not> isExpired m s (sm_now m w) \<and> cl = se_Claims s))"

lemma sm_Verify_cases:
  assumes "sm_Verify uuid_ok m st k w = (r, st', w')"
  obtains (accepted) s where "Resolve uuid_ok m st k w = (Inr (Some s), st', w')" "r = Inr (se_Claims s)"
  | (panicked) "Resolve uuid_ok m st k w = (Inr None, st', w')" "r = Inl NilDereference"
  | (refused) e where "Resolve uuid_ok m st k w = (Inl e, st', w')" "r = Inl e"
  using assms by (auto simp: sm_Verify_def split: prod.splits sum.splits option.splits)

lemma renewed_claims [simp]: "se_Claims (renewed m now received token s) = se_Claims s"
  by (simp add: renewed_def Let_def)

context session_contract
begin

lemma verify_live:
  assumes "invar st" and "sm_store m = ops" and "sm_Verify uuid_ok m st k w = (Inr cl, st', w')"
  shows "live_session uuid_ok m lookup k cl (st, w)"
  using assms(3)
proof (cases rule: sm_Verify_cases)
  case (accepted s)
  from assms(1,2) accepted(1) show ?thesis
    by (cases rule: resolve_ok) (use accepted(2) in \<open>auto simp: live_session_def\<close>)
qed simp_all

lemma verify_invar:
  assumes "invar st" and "sm_store m = ops" and "sm_Verify uuid_ok m st k w = (r, st', w')"
  shows "invar st'"
proof -
  have ok: "invar st'" if "Resolve uuid_ok m st k w = (Inr x, st', w')" for x
    using assms(1,2) that by (cases rule: resolve_ok) (use assms(1) touch_keeps(1) in auto)
  from assms(3) show ?thesis
    by (cases rule: sm_Verify_cases) (use ok resolve_err [OF assms(1,2)] in blast)+
qed

end

locale session_route = session_contract "sm_store m" lookup invar
  for m :: "('st, 'w) session_manager" and lookup and invar +
  fixes uuid_ok :: "string \<Rightarrow> bool"

sublocale session_route \<subseteq> tokens: token_contract "session_verifier uuid_ok m" "\<lambda>(st, w). invar st" "live_session uuid_ok m lookup"
proof unfold_locales
  fix sw :: "'st \<times> 'w" and k cl sw'
  assume "case sw of (st, w) \<Rightarrow> invar st" and "tv_Verify (session_verifier uuid_ok m) k sw = (Inr cl, sw')"
  then show "live_session uuid_ok m lookup k cl sw"
    by (cases sw; cases sw') (use verify_live [OF _ refl] in auto)
next
  fix sw :: "'st \<times> 'w" and k r sw'
  assume "case sw of (st, w) \<Rightarrow> invar st" and "tv_Verify (session_verifier uuid_ok m) k sw = (r, sw')"
  then show "case sw' of (st, w) \<Rightarrow> invar st"
    by (cases sw; cases sw') (use verify_invar [OF _ refl] in auto)
qed

context session_route
begin

lemma route_live:
  assumes "invar st" and "AuthorizationWithOptions (session_verifier uuid_ok m) opt rq (st, w) = (effs, sw')"
    and "Next \<in> set effs"
    and "RequireRole (session_verifier uuid_ok m) role extras (rq\<lparr>rq_Keys := keys_after effs (rq_Keys rq)\<rparr>) = Some effs2"
    and "Next \<in> set effs2"
  obtains k cl where "extractToken rq (sessionCookieName opt) = Inr k" "live_session uuid_ok m lookup k cl (st, w)"
    "sm_HasRole m cl role"
  by (rule tokens.route_accepts [of "(st, w)", OF _ assms(2-5)]) (use assms(1) that in simp_all)

end

interpretation fake_route: session_route "m\<lparr>sm_store := fake_ops\<rparr>" "\<lambda>st. map_of (fs_data st)" "\<lambda>st. wf_map (fs_data st)" uuid_ok
  for m :: "(fake_store, 'w) session_manager" and uuid_ok
  by (simp add: session_route_def fake.session_contract_axioms)

section \<open>An OIDC verifier\<close>

text \<open>The verifier itself, with its caches, is part of the world; the configuration the role check reads never changes.\<close>

definition oidc_verifier :: "('c, 'w) oidc_env \<Rightarrow> 'c oidc \<Rightarrow> ('c oidc \<times> 'w) token_verifier" where
  "oidc_verifier env o0 =
     \<lparr>tv_Verify = (\<lambda>token (o', w). case Verify env o' token w of (r, o'', w') \<Rightarrow> (r, (o'', w'))),
      tv_HasRole = oi_HasRole o0\<rparr>"

lemma oidc_verifier_simps [simp]:
  "tv_Verify (oidc_verifier env o0) token (o', w) = Verify env o' token w"
  "tv_HasRole (oidc_verifier env o0) cl role = oi_HasRole o0 cl role"
  by (simp_all add: oidc_verifier_def split: prod.split)

text \<open>The verifier is one that calls, stores and evictions can lead to from the one that was built.\<close>

definition served :: "duration \<Rightarrow> (memory_cache, 'w) oidc_env \<Rightarrow> memory_cache oidc \<Rightarrow> memory_cache oidc \<times> 'w \<Rightarrow> bool" where
  "served d env o0 ow \<longleftrightarrow> ve_get env = mc_get \<and> ve_set env = mc_set \<and>
     (\<exists>c. NewMemoryCache d = Some c \<and> oi_cache o0 = Some c) \<and> (\<exists>C. vc_reachable env o0 (fst ow, C))"

definition fresh_token ::
  "duration \<Rightarrow> (memory_cache, 'w) oidc_env \<Rightarrow> memory_cache oidc \<Rightarrow> string \<Rightarrow> claims \<Rightarrow> memory_cache oidc \<times> 'w \<Rightarrow> bool"
where
  "fresh_token d env o0 token cl ow \<longleftrightarrow>
     checked_token env o0 token cl (snd ow) \<or>
     (\<exists>token' w0. hashToken (ve_sha256 env) token' = hashToken (ve_sha256 env) token \<and> checked_token env o0 token' cl w0 \<and>
        ve_now env (snd ow) < ve_now env w0 + d \<and> (0 < cl_Exp cl \<longrightarrow> ve_now env (snd ow) < claims_expiry (cl_Exp cl)))"

interpretation oidc_route: token_contract "oidc_verifier env o0" "served d env o0" "fresh_token d env o0" for env o0 d
proof unfold_locales
  fix ow :: "memory_cache oidc \<times> 'a" and token cl ow'
  assume s: "served d env o0 ow" and v: "tv_Verify (oidc_verifier env o0) token ow = (Inr cl, ow')"
  obtain o' w o'' w' where ow: "ow = (o', w)" "ow' = (o'', w')" by (cases ow; cases ow')
  from s obtain c C where "ve_get env = mc_get" "ve_set env = mc_set" "NewMemoryCache d = Some c" "oi_cache o0 = Some c"
    "vc_reachable env o0 (o', C)" by (auto simp: served_def ow)
  from verify_fresh [OF this(3,4,1,2,5) v [unfolded ow, simplified]] show "fresh_token d env o0 token cl ow"
    unfolding fresh_token_def ow snd_conv by blast
next
  fix ow :: "memory_cache oidc \<times> 'a" and token r ow'
  assume s: "served d env o0 ow" and v: "tv_Verify (oidc_verifier env o0) token ow = (r, ow')"
  obtain o' w o'' w' where ow: "ow = (o', w)" "ow' = (o'', w')" by (cases ow; cases ow')
  from s obtain C where C: "vc_reachable env o0 (o', C)" by (auto simp: served_def ow)
  from Verify_steps [OF v [unfolded ow, simplified], of C] obtain C' where "(vc_step env)\<^sup>*\<^sup>* (o', C) (o'', C')" by blast
  with C have "vc_reachable env o0 (o'', C')" unfolding vc_reachable_def by (rule rtranclp_trans)
  with s show "served d env o0 ow'" by (auto simp: served_def ow)
qed

end
