(* ===== verification/Cors.thy ===== *)
theory Cors
  imports Authorization
begin

text \<open>
  The CORS and rate-limiting middlewares (\<^verbatim>\<open>src/httpserver/middlewares/cors.go\<close>, \<^verbatim>\<open>rate_limit.go\<close>). The
  token bucket of \<^verbatim>\<open>golang.org/x/time/rate\<close> is a parameter.
\<close>

section \<open>CORS\<close>

definition DefaultAllowedHeaders :: "string list" where
  "DefaultAllowedHeaders = [''Content-Type'', ''Content-Length'', ''Accept-Encoding'', ''X-CSRF-Token'',
     ''Authorization'', ''Accept'', ''Origin'', ''Cache-Control'', ''X-Requested-With'']"

definition DefaultAllowedMethods :: "string list" where
  "DefaultAllowedMethods = [''GET'', ''POST'', ''PUT'', ''PATCH'', ''DELETE'', ''OPTIONS'']"

record cors_options =
  cr_AllowedOrigins :: "string list"
  cr_AllowedMethods :: "string list"
  cr_AllowedHeaders :: "string list"
  cr_AllowCredentials :: bool

text \<open>\<open>cp_allowed\<close> is a map to booleans in the code; the keys stored are the origins, all with \<open>true\<close>.\<close>

record cors_policy =
  cp_allowed :: "string list"
  cp_methods :: string
  cp_headers :: string
  cp_credentials :: bool

definition joinHeaderValues :: "string list \<Rightarrow> string list \<Rightarrow> string" where
  "joinHeaderValues values fallback =
     (let out = filter (\<lambda>v. v \<noteq> []) (map trim_space values)
      in join '', '' (if out = [] then fallback else out))"

definition NewCORSPolicy :: "cors_options \<Rightarrow> cors_policy" where
  "NewCORSPolicy opts = \<lparr>cp_allowed = cr_AllowedOrigins opts,
     cp_methods = joinHeaderValues (cr_AllowedMethods opts) DefaultAllowedMethods,
     cp_headers = joinHeaderValues (cr_AllowedHeaders opts) DefaultAllowedHeaders,
     cp_credentials = cr_AllowCredentials opts\<rparr>"

definition CORSWithProvider :: "cors_policy option \<Rightarrow> request \<Rightarrow> effect list" where
  "CORSWithProvider policy rq =
     (let origin = rq_Header rq ''Origin'' in
      (case policy of
         None \<Rightarrow> []
       | Some p \<Rightarrow>
           if origin \<noteq> [] \<and> origin \<in> set (cp_allowed p)
           then [Header ''Vary'' ''Origin'', Header ''Access-Control-Allow-Origin'' origin] @
             (if cp_methods p \<noteq> [] then [Header ''Access-Control-Allow-Methods'' (cp_methods p)] else []) @
             (if cp_headers p \<noteq> [] then [Header ''Access-Control-Allow-Headers'' (cp_headers p)] else []) @
             (if cp_credentials p then [Header ''Access-Control-Allow-Credentials'' ''true''] else [])
           else []) @
      (if rq_Method rq = ''OPTIONS'' then [AbortWithStatus 204] else [Next]))"

definition CORSWithOptions :: "cors_options \<Rightarrow> request \<Rightarrow> effect list" where
  "CORSWithOptions opts = CORSWithProvider (Some (NewCORSPolicy opts))"

definition CORS :: "string list \<Rightarrow> request \<Rightarrow> effect list" where
  "CORS allowedOrigins = CORSWithOptions \<lparr>cr_AllowedOrigins = allowedOrigins, cr_AllowedMethods = [],
     cr_AllowedHeaders = [], cr_AllowCredentials = True\<rparr>"

section \<open>Rate limits\<close>

definition rateLimitIdleTimeout :: duration where "rateLimitIdleTimeout = 10 * Minute"

record rate_limit_options =
  ro_RequestsPerMinute :: int
  ro_Burst :: int

definition ro_WithDefaults :: "rate_limit_options \<Rightarrow> int \<Rightarrow> int \<Rightarrow> rate_limit_options" where
  "ro_WithDefaults opts requestsPerMinute burst =
     (let o1 = (if ro_RequestsPerMinute opts \<le> 0 then opts\<lparr>ro_RequestsPerMinute := requestsPerMinute\<rparr> else opts)
      in if ro_Burst o1 \<le> 0 then o1\<lparr>ro_Burst := burst\<rparr> else o1)"

text \<open>The bucket: \<open>NewLimiter\<close>, \<open>Allow\<close>, \<open>SetLimit\<close> and \<open>SetBurst\<close>, at the instants they are called.\<close>

record 'l limiter_ops =
  lo_New :: "rat \<Rightarrow> int \<Rightarrow> 'l"
  lo_Allow :: "'l \<Rightarrow> instant \<Rightarrow> bool \<times> 'l"
  lo_SetLimit :: "'l \<Rightarrow> rat \<Rightarrow> instant \<Rightarrow> 'l"
  lo_SetBurst :: "'l \<Rightarrow> int \<Rightarrow> instant \<Rightarrow> 'l"

record 'l ip_limiter_entry =
  il_limiter :: 'l
  il_lastSeen :: instant

text \<open>
  A rate is a number of requests per minute divided by 60, a \<open>float64\<close>; here the exact quotient. Below
  2 to the 46th requests per minute different numbers have different quotients as floats too.
\<close>

record 'l ip_rate_limiter =
  ir_limiters :: "(string, 'l ip_limiter_entry) gomap"
  ir_rps :: rat
  ir_burst :: int
  ir_lastEvict :: instant

definition newIPRateLimiter :: "int \<Rightarrow> int \<Rightarrow> instant \<Rightarrow> 'l ip_rate_limiter" where
  "newIPRateLimiter requestsPerMinute burst now = \<lparr>ir_limiters = [], ir_rps = of_int requestsPerMinute / 60,
     ir_burst = burst, ir_lastEvict = now\<rparr>"

definition retune :: "'l limiter_ops \<Rightarrow> rate_limit_options \<Rightarrow> instant \<Rightarrow> 'l ip_rate_limiter \<Rightarrow> 'l ip_rate_limiter" where
  "retune ops opts now l =
     (let rps = of_int (ro_RequestsPerMinute opts) / 60 in
      if ir_rps l = rps \<and> ir_burst l = ro_Burst opts then l
      else l\<lparr>ir_rps := rps, ir_burst := ro_Burst opts,
             ir_limiters := map (\<lambda>(k, e). (k, e\<lparr>il_limiter :=
                 lo_SetBurst ops (lo_SetLimit ops (il_limiter e) rps now) (ro_Burst opts) now\<rparr>)) (ir_limiters l)\<rparr>)"

definition evictIfDue :: "instant \<Rightarrow> 'l ip_rate_limiter \<Rightarrow> 'l ip_rate_limiter" where
  "evictIfDue now l =
     (if time_sub now (ir_lastEvict l) < rateLimitIdleTimeout then l
      else l\<lparr>ir_lastEvict := now,
             ir_limiters := filter (\<lambda>(k, e). \<not> rateLimitIdleTimeout < time_sub now (il_lastSeen e)) (ir_limiters l)\<rparr>)"

definition rl_allow :: "'l limiter_ops \<Rightarrow> string \<Rightarrow> instant \<Rightarrow> 'l ip_rate_limiter \<Rightarrow> bool \<times> 'l ip_rate_limiter" where
  "rl_allow ops key now l0 =
     (let l = evictIfDue now l0;
          bkt = (case map_of (ir_limiters l) key of
                   Some e \<Rightarrow> il_limiter e
                 | None \<Rightarrow> lo_New ops (ir_rps l) (ir_burst l))
      in case lo_Allow ops bkt now of
           (ok, bkt') \<Rightarrow>
             (ok, l\<lparr>ir_limiters := AList.update key \<lparr>il_limiter = bkt', il_lastSeen = now\<rparr> (ir_limiters l)\<rparr>))"

definition rate_limit_middleware ::
  "'l limiter_ops \<Rightarrow> rate_limit_options option \<Rightarrow> request \<Rightarrow> instant \<Rightarrow> 'l ip_rate_limiter \<Rightarrow> effect list \<times> 'l ip_rate_limiter"
where
  "rate_limit_middleware ops provided rq now l0 =
     (let l = (case provided of None \<Rightarrow> l0 | Some opts \<Rightarrow> retune ops opts now l0) in
      case rl_allow ops (rq_ClientIP rq) now l of
        (ok, l') \<Rightarrow> (if \<not> ok then respond_TooManyRequests [] else [Next], l'))"

definition RateLimitByIP :: "rate_limit_options \<Rightarrow> instant \<Rightarrow> 'l ip_rate_limiter" where
  "RateLimitByIP opts now = newIPRateLimiter (ro_RequestsPerMinute opts) (ro_Burst opts) now"

definition RateLimitByIPProvider :: "instant \<Rightarrow> 'l ip_rate_limiter" where
  "RateLimitByIPProvider now = newIPRateLimiter 0 0 now"

section \<open>Lemmas\<close>

lemma evictIfDue_simps [simp]: "ir_rps (evictIfDue now l) = ir_rps l" "ir_burst (evictIfDue now l) = ir_burst l"
  by (simp_all add: evictIfDue_def)

lemma evictIfDue_wf [simp]: "wf_map (ir_limiters l) \<Longrightarrow> wf_map (ir_limiters (evictIfDue now l))"
  by (simp add: evictIfDue_def)

text \<open>Eviction never touches a bucket used within the idle timeout.\<close>

lemma evictIfDue_keeps:
  assumes "wf_map (ir_limiters l)" and "map_of (ir_limiters l) k = Some e"
    and "now \<le> il_lastSeen e + rateLimitIdleTimeout"
  shows "map_of (ir_limiters (evictIfDue now l)) k = Some e"
proof -
  have "\<not> rateLimitIdleTimeout < time_sub now (il_lastSeen e)"
    using assms(3) time_sub_less_iff [of rateLimitIdleTimeout now "il_lastSeen e"]
    by (auto simp: rateLimitIdleTimeout_def clock_simps)
  with assms(1,2) show ?thesis by (simp add: evictIfDue_def map_of_filter_value)
qed

lemma evictIfDue_None:
  assumes "wf_map (ir_limiters l)" and "map_of (ir_limiters l) k = None"
  shows "map_of (ir_limiters (evictIfDue now l)) k = None"
  using assms by (simp add: evictIfDue_def map_of_filter_value)

lemma rl_allow_simps:
  assumes "rl_allow ops key now l = (ok, l')"
  shows "ir_rps l' = ir_rps l" "ir_burst l' = ir_burst l" "wf_map (ir_limiters l) \<Longrightarrow> wf_map (ir_limiters l')"
    "k \<noteq> key \<Longrightarrow> map_of (ir_limiters l') k = map_of (ir_limiters (evictIfDue now l)) k"
  using assms by (auto simp: rl_allow_def Let_def split: prod.splits)

section \<open>Traffic of many clients\<close>

fun run_traffic :: "'l limiter_ops \<Rightarrow> (string \<times> instant) list \<Rightarrow> 'l ip_rate_limiter \<Rightarrow> (string \<times> bool) list" where
  "run_traffic ops [] l = []"
| "run_traffic ops ((key, now) # rest) l =
     (case rl_allow ops key now l of (ok, l') \<Rightarrow> (key, ok) # run_traffic ops rest l')"

text \<open>One client on a bucket of its own.\<close>

fun run_bucket :: "'l limiter_ops \<Rightarrow> instant list \<Rightarrow> 'l \<Rightarrow> bool list" where
  "run_bucket ops [] bkt = []"
| "run_bucket ops (now # rest) bkt = (case lo_Allow ops bkt now of (ok, bkt') \<Rightarrow> ok # run_bucket ops rest bkt')"

definition times_of :: "string \<Rightarrow> (string \<times> instant) list \<Rightarrow> instant list" where
  "times_of k tr = map snd (filter (\<lambda>(k', _). k' = k) tr)"

fun paced :: "instant list \<Rightarrow> bool" where
  "paced (a # b # ts) \<longleftrightarrow> b \<le> a + rateLimitIdleTimeout \<and> paced (b # ts)"
| "paced _ = True"

text \<open>The bucket of a client, that is not evicted before its next request.\<close>

definition holds_bucket :: "'l limiter_ops \<Rightarrow> string \<Rightarrow> 'l \<Rightarrow> instant list \<Rightarrow> 'l ip_rate_limiter \<Rightarrow> bool" where
  "holds_bucket ops k bkt ts l \<longleftrightarrow>
     (case map_of (ir_limiters l) k of
        None \<Rightarrow> bkt = lo_New ops (ir_rps l) (ir_burst l)
      | Some e \<Rightarrow> bkt = il_limiter e \<and> paced (il_lastSeen e # ts))"

lemma holds_bucket_evict:
  assumes "wf_map (ir_limiters l)" and "holds_bucket ops k bkt ts l" and "ts \<noteq> [] \<Longrightarrow> now \<le> hd ts" and "ts \<noteq> []"
  shows "holds_bucket ops k bkt ts (evictIfDue now l)"
proof (cases "map_of (ir_limiters l) k")
  case None
  with assms show ?thesis by (simp add: holds_bucket_def evictIfDue_None)
next
  case (Some e)
  obtain t ts' where ts: "ts = t # ts'" using assms(4) by (cases ts) auto
  with Some assms(2,3) have "now \<le> il_lastSeen e + rateLimitIdleTimeout" by (simp add: holds_bucket_def)
  from evictIfDue_keeps [OF assms(1) Some this] Some assms(2) show ?thesis by (simp add: holds_bucket_def)
qed

lemma run_traffic_bucket:
  assumes "wf_map (ir_limiters l)" and "sorted (map snd tr)" and "paced (times_of k tr)"
    and "times_of k tr \<noteq> [] \<Longrightarrow> holds_bucket ops k bkt (times_of k tr) l"
  shows "map snd (filter (\<lambda>(k', _). k' = k) (run_traffic ops tr l)) = run_bucket ops (times_of k tr) bkt"
  using assms
proof (induction tr arbitrary: l bkt)
  case Nil
  then show ?case by (simp add: times_of_def)
next
  case (Cons x tr)
  obtain key now where x: "x = (key, now)" by force
  obtain ok l' where al: "rl_allow ops key now l = (ok, l')" by force
  note l' = rl_allow_simps [OF al]
  show ?case
  proof (cases "key = k")
    case False
    then have tk: "times_of k (x # tr) = times_of k tr" by (simp add: times_of_def x)
    have "now \<le> hd (times_of k tr)" if "times_of k tr \<noteq> []"
    proof -
      from that have "hd (times_of k tr) \<in> set (map snd tr)"
        by (metis hd_in_set times_of_def filter_is_subset image_mono list.set_map subsetD)
      with Cons.prems(2) show ?thesis by (auto simp: x)
    qed
    then have "holds_bucket ops k bkt (times_of k tr) l'" if "times_of k tr \<noteq> []"
      using holds_bucket_evict [OF Cons.prems(1) Cons.prems(4) [unfolded tk], of now] that l'(1,2) l'(4) [of k] False
      by (auto simp: holds_bucket_def split: option.splits)
    with Cons.IH [of l' bkt] Cons.prems l'(3) False al show ?thesis by (simp add: x tk [unfolded x])
  next
    case True
    then have tk: "times_of k (x # tr) = now # times_of k tr" by (simp add: times_of_def x)
    have "holds_bucket ops k bkt (now # times_of k tr) (evictIfDue now l)"
      using holds_bucket_evict [OF Cons.prems(1) Cons.prems(4) [unfolded tk], of now] by simp
    then have bkt: "(case map_of (ir_limiters (evictIfDue now l)) k of Some e \<Rightarrow> il_limiter e
        | None \<Rightarrow> lo_New ops (ir_rps (evictIfDue now l)) (ir_burst (evictIfDue now l))) = bkt"
      by (simp add: holds_bucket_def split: option.splits)
    obtain bkt' where a: "lo_Allow ops bkt now = (ok, bkt')"
      and m: "map_of (ir_limiters l') k = Some \<lparr>il_limiter = bkt', il_lastSeen = now\<rparr>"
      using al bkt True by (auto simp: rl_allow_def Let_def split: prod.splits)
    have "holds_bucket ops k bkt' (times_of k tr) l'"
      using m Cons.prems(3) by (simp add: holds_bucket_def tk)
    moreover have "paced (times_of k tr)" using Cons.prems(3) tk by (cases "times_of k tr") simp_all
    ultimately show ?thesis
      using Cons.IH [of l' bkt'] Cons.prems(1,2) l'(3) al a True by (simp add: x tk [unfolded x True])
  qed
qed

section \<open>Properties\<close>

text \<open>
  C22: the CORS middleware names an origin in a response exactly when the request came from it and the
  policy lists it, never another one, and then with Vary: Origin; an origin that is not listed gets no
  header at all; credentials are offered only together with the origin and when the policy says so; a
  preflight request is answered with 204 and every other request goes on.
\<close>

theorem cors_gate:
  "case CORSWithProvider policy rq of effs \<Rightarrow>
     (\<forall>or. Header ''Access-Control-Allow-Origin'' or \<in> set effs \<longleftrightarrow>
        (\<exists>p. policy = Some p \<and> or \<noteq> [] \<and> or = rq_Header rq ''Origin'' \<and> or \<in> set (cp_allowed p))) \<and>
     ((\<exists>k v. Header k v \<in> set effs) \<longleftrightarrow> Header ''Access-Control-Allow-Origin'' (rq_Header rq ''Origin'') \<in> set effs) \<and>
     (Header ''Vary'' ''Origin'' \<in> set effs \<longleftrightarrow> (\<exists>k v. Header k v \<in> set effs)) \<and>
     ((\<exists>v. Header ''Access-Control-Allow-Credentials'' v \<in> set effs) \<longleftrightarrow>
        (\<exists>p. policy = Some p \<and> cp_credentials p) \<and> Header ''Vary'' ''Origin'' \<in> set effs) \<and>
     last effs = (if rq_Method rq = ''OPTIONS'' then AbortWithStatus 204 else Next)"
  by (cases policy) (auto simp: CORSWithProvider_def Let_def)

text \<open>
  C21: clients do not disturb each other's limit. Whatever the interleaving of requests, the decisions
  for a client whose requests are at most the idle timeout apart are those of one token bucket of its
  own, given that client's requests alone: neither other clients nor the evictions they trigger
  reset or share it.
\<close>

theorem rate_limit_isolation:
  assumes "sorted (map snd tr)" and "paced (times_of k tr)"
  shows "map snd (filter (\<lambda>(k', _). k' = k) (run_traffic ops tr (newIPRateLimiter rpm burst start))) =
    run_bucket ops (times_of k tr) (lo_New ops (of_int rpm / 60) burst)"
  using assms by (intro run_traffic_bucket) (simp_all add: newIPRateLimiter_def holds_bucket_def)

text \<open>A bucket of burst tokens that is never refilled.\<close>

definition demo_bucket :: "int limiter_ops" where
  "demo_bucket = \<lparr>lo_New = (\<lambda>r b. b), lo_Allow = (\<lambda>n t. (0 < n, if 0 < n then n - 1 else n)),
     lo_SetLimit = (\<lambda>n r t. n), lo_SetBurst = (\<lambda>n b t. b)\<rparr>"

theorem rate_limit_isolation_witness:
  "map snd (filter (\<lambda>(k', _). k' = ''a'') (run_traffic demo_bucket
     [(''a'', 1), (''b'', 2), (''b'', 3), (''a'', 10 * Minute), (''b'', 19 * Minute), (''a'', 20 * Minute)]
     (newIPRateLimiter 60 2 0))) = [True, True, False]"
proof -
  let ?tr = "[(''a'', 1), (''b'', 2), (''b'', 3), (''a'', 10 * Minute), (''b'', 19 * Minute), (''a'', 20 * Minute)]"
  have "sorted (map snd ?tr)" by (simp add: clock_simps)
  moreover have "paced (times_of ''a'' ?tr)" by (simp add: times_of_def rateLimitIdleTimeout_def clock_simps)
  ultimately have "map snd (filter (\<lambda>(k', _). k' = ''a'') (run_traffic demo_bucket ?tr (newIPRateLimiter 60 2 0))) =
      run_bucket demo_bucket (times_of ''a'' ?tr) (lo_New demo_bucket (of_int 60 / 60) 2)"
    by (rule rate_limit_isolation)
  also have "\<dots> = [True, True, False]" by (simp add: times_of_def demo_bucket_def)
  finally show ?thesis .
qed

text \<open>
  Retuning keeps every client's bucket, changing only its rate and burst, and leaves the limiter
  exactly as it was when the policy has not changed.
\<close>

lemma retune_in_place:
  "(if ir_rps l = of_int (ro_RequestsPerMinute opts) / 60 \<and> ir_burst l = ro_Burst opts
    then retune ops opts now l = l
    else ir_rps (retune ops opts now l) = of_int (ro_RequestsPerMinute opts) / 60 \<and>
      ir_burst (retune ops opts now l) = ro_Burst opts \<and> ir_lastEvict (retune ops opts now l) = ir_lastEvict l \<and>
      (\<forall>k. map_of (ir_limiters (retune ops opts now l)) k =
         map_option (\<lambda>e. e\<lparr>il_limiter := lo_SetBurst ops (lo_SetLimit ops (il_limiter e)
             (of_int (ro_RequestsPerMinute opts) / 60) now) (ro_Burst opts) now\<rparr>) (map_of (ir_limiters l) k)))"
  by (auto simp: retune_def Let_def map_of_map)

end
