(* ===== verification/SessionSpec.thy ===== *)
theory SessionSpec
  imports Session
begin

text \<open>
  The abstract session table that \<^verbatim>\<open>src/oidcauth/session_manager.go\<close> implements over a store whose operations do
  not fail: a partial map from ids to sessions. Over such a store each operation of the manager is exactly
  one operation of the table, so that a session is not only never handed out wrongly but also never refused
  without a reason.
\<close>

section \<open>A store that does not fail\<close>

locale reliable_store = session_contract +
  assumes create_ok: "invar st \<Longrightarrow> fst (ss_Create ops st s) = None"
    and get_stored: "invar st \<Longrightarrow> lookup st k = Some s \<Longrightarrow> ss_Get ops st k = Inr s"
    and touch_ok: "invar st \<Longrightarrow> fst (ss_Touch ops st k t) = None"
    and delete_ok: "invar st \<Longrightarrow> fst (ss_Delete ops st k) = None"
    and delete_expired_ok: "invar st \<Longrightarrow> \<exists>n. fst (ss_DeleteExpired ops st now) = Inr n"
    and lock_runs: "invar st \<Longrightarrow> lookup st k = Some s \<Longrightarrow> fn s x = (r, x') \<Longrightarrow>
      \<exists>st'. ss_WithLock ops st k fn x = (case r of Inl e \<Rightarrow> Some e | Inr _ \<Rightarrow> None, st', x')"

section \<open>The table\<close>

type_synonym session_table = "string \<Rightarrow> session option"

text \<open>The issuer's word on a token that has not expired.\<close>

definition revalidates :: "('st, 'w) session_manager \<Rightarrow> session \<Rightarrow> 'w \<Rightarrow> bool \<times> 'w" where
  "revalidates m s w =
     (case sm_verifier m of
        None \<Rightarrow> (True, w)
      | Some verify \<Rightarrow> (case verify (ts_AccessToken (se_Tokens s)) w of (Inl e, w') \<Rightarrow> (False, w') | (Inr cl, w') \<Rightarrow> (True, w')))"

text \<open>What becomes of a live session when it is asked for: the session afterwards, or that it is over.\<close>

definition kept_alive :: "('st, 'w) session_manager \<Rightarrow> session \<Rightarrow> 'w \<Rightarrow> session option \<times> 'w" where
  "kept_alive m s w =
     (let now = sm_now m w in
      if isExpired m s now then (None, w)
      else if now < ts_AccessTokenExpiresAt (se_Tokens s) then
        (case revalidates m s w of (ok, w') \<Rightarrow> (if ok then Some (s\<lparr>se_LastSeenAt := now\<rparr>) else None, w'))
      else if ts_RefreshToken (se_Tokens s) = [] then (None, w)
      else
        (case sm_refresh m (ts_RefreshToken (se_Tokens s)) w of
           (Inl e, w') \<Rightarrow> (None, w')
         | (Inr token, w') \<Rightarrow> (Some (renewed m now (sm_now m w') token s), w')))"

definition resolve_spec ::
  "(string \<Rightarrow> bool) \<Rightarrow> ('st, 'w) session_manager \<Rightarrow> session_table \<Rightarrow> string \<Rightarrow> 'w \<Rightarrow> session option \<times> session_table \<times> 'w"
where
  "resolve_spec uuid_ok m S k w =
     (if \<not> uuid_ok k then (None, S, w)
      else case S k of
          None \<Rightarrow> (None, S, w)
        | Some s \<Rightarrow> (case kept_alive m s w of (r, w') \<Rightarrow> (r, S(k := r), w')))"

definition resolved :: "go_err + session option \<Rightarrow> session option" where
  "resolved r = (case r of Inl e \<Rightarrow> None | Inr x \<Rightarrow> x)"

lemma resolved_simps [simp]: "resolved (Inl e) = None" "resolved (Inr x) = x"
  by (simp_all add: resolved_def)

text \<open>The function under the lock against the table, for a session whose access token has run out.\<close>

lemma refresh_locked_spec:
  assumes "\<not> sm_now m w < ts_AccessTokenExpiresAt (se_Tokens s)" and "kept_alive m s w = (r, w')"
  shows "case r of
      Some s' \<Rightarrow> refresh_locked m (sm_now m w) s (None, w) = (Inr (Some s'), (Some s', w'))
    | None \<Rightarrow> \<exists>e. refresh_locked m (sm_now m w) s (None, w) = (Inl e, (None, w')) \<and> errors_is e ErrSessionNotFound"
  using assms
  by (auto simp: refresh_locked_def kept_alive_def Let_def split: if_splits prod.splits sum.splits)

lemma kept_alive_claims: "kept_alive m s w = (Some s', w') \<Longrightarrow> se_Claims s' = se_Claims s"
  by (auto simp: kept_alive_def renewed_def Let_def split: if_splits prod.splits sum.splits)

context reliable_store
begin

lemma delete_removes:
  assumes "invar st"
  shows "invar (snd (ss_Delete ops st k))" and "lookup (snd (ss_Delete ops st k)) = (lookup st)(k := None)"
  using delete [OF assms, of k] delete_ok [OF assms, of k] by (cases "ss_Delete ops st k"; auto)+

lemma touch_updates:
  assumes "invar st" and "lookup st k = Some s"
  shows "invar (snd (ss_Touch ops st k t))"
    and "lookup (snd (ss_Touch ops st k t)) = (lookup st)(k \<mapsto> s\<lparr>se_LastSeenAt := t\<rparr>)"
  using touch [OF assms(1), of k t] touch_ok [OF assms(1), of k t] assms(2) by (cases "ss_Touch ops st k t"; auto)+

lemma refresh_session_spec:
  assumes "invar st" and "sm_store m = ops" and "lookup st k = Some s"
    and "\<not> sm_now m w < ts_AccessTokenExpiresAt (se_Tokens s)"
    and "kept_alive m s w = (r, w')" and "refresh_session m st k (sm_now m w) w = (x, st', w2)"
  shows "x \<noteq> Inr None \<and> resolved x = r \<and> w2 = w' \<and> invar st' \<and> lookup st' = (lookup st)(k := r)"
proof (cases r)
  case (Some s')
  from refresh_locked_spec [OF assms(4,5)] Some
  have fn: "refresh_locked m (sm_now m w) s (None, w) = (Inr (Some s'), (Some s', w'))" by simp
  from lock_runs [of st k s "refresh_locked m (sm_now m w)" "(None, w)", OF assms(1,3) fn] obtain st1 where
    lock: "ss_WithLock ops st k (refresh_locked m (sm_now m w)) (None, w) = (None, st1, (Some s', w'))" by auto
  with lock_ok [OF assms(1) lock] fn assms(3) have "invar st1 \<and> lookup st1 = (lookup st)(k \<mapsto> s')" by auto
  with assms(2,6) lock Some show ?thesis by (auto simp: refresh_session_def)
next
  case None
  from refresh_locked_spec [OF assms(4,5)] None obtain e where
    fn: "refresh_locked m (sm_now m w) s (None, w) = (Inl e, (None, w'))" "errors_is e ErrSessionNotFound" by auto
  from lock_runs [of st k s "refresh_locked m (sm_now m w)" "(None, w)", OF assms(1,3) fn(1)] obtain st1 where
    lock: "ss_WithLock ops st k (refresh_locked m (sm_now m w)) (None, w) = (Some e, st1, (None, w'))" by auto
  from lock_err [OF assms(1) lock] have "invar st1" "lookup st1 = lookup st" by simp_all
  with assms(2,6) lock fn(2) None delete_removes [of st1 k] show ?thesis by (auto simp: refresh_session_def)
qed

lemma resolve_spec_holds:
  assumes "invar st" and "sm_store m = ops" and "Resolve uuid_ok m st k w = (x, st', w')"
  shows "x \<noteq> Inr None \<and> (resolved x, lookup st', w') = resolve_spec uuid_ok m (lookup st) k w \<and> invar st'"
proof (cases "uuid_ok k \<and> lookup st k \<noteq> None")
  case False
  with assms get_absent [OF assms(1), of k] show ?thesis
    by (auto simp: Resolve_def resolve_spec_def)
next
  case True
  then obtain s where k: "uuid_ok k" and s: "lookup st k = Some s" by auto
  obtain r wr where alive: "kept_alive m s w = (r, wr)" by force
  have spec: "resolve_spec uuid_ok m (lookup st) k w = (r, (lookup st)(k := r), wr)"
    by (simp add: resolve_spec_def k s alive)
  note get = get_stored [OF assms(1) s]
  show ?thesis
  proof (cases "isExpired m s (sm_now m w)")
    case True
    with assms get k alive delete_removes [OF assms(1), of k] show ?thesis
      unfolding spec by (auto simp: Resolve_def kept_alive_def Let_def)
  next
    case live: False
    show ?thesis
    proof (cases "sm_now m w < ts_AccessTokenExpiresAt (se_Tokens s)")
      case True
      with assms get k live alive delete_removes [OF assms(1), of k] touch_updates [OF assms(1) s, of "sm_now m w"]
      show ?thesis
        unfolding spec by (auto simp: Resolve_def kept_alive_def revalidates_def Let_def split: option.splits prod.splits sum.splits)
    next
      case False
      with assms get k live have "refresh_session m st k (sm_now m w) w = (x, st', w')"
        by (simp add: Resolve_def Let_def)
      from refresh_session_spec [OF assms(1,2) s False alive this] show ?thesis by (simp add: spec)
    qed
  qed
qed

end

interpretation fake_reliable: reliable_store fake_ops "\<lambda>st. map_of (fs_data st)" "\<lambda>st. wf_map (fs_data st)"
proof unfold_locales
  show "\<exists>st'. ss_WithLock fake_ops st k fn x = (case r of Inl e \<Rightarrow> Some e | Inr _ \<Rightarrow> None, st', x')"
    if "map_of (fs_data st) k = Some s" "fn s x = (r, x')" for st k s fn x r x'
    using that by (auto simp: fs_WithLock_def Let_def split: sum.splits option.splits)
qed (simp_all add: fake_defs Let_def)

section \<open>Property\<close>

text \<open>
  C8: over a store that keeps its contract and does not fail, Resolve is the operation of the session table: it
  returns a session exactly when the id is well formed and names a session before its ceiling and within the
  idle timeout, whose access token has not expired and is confirmed by the verifier if there is one, or whose
  refresh token the issuer honours; the store then holds exactly the session that is returned. In every other
  case of a well-formed id the session is gone, no other session is touched, and a malformed id changes nothing.
\<close>

theorem resolve_refines:
  assumes "reliable_store (sm_store m) lookup invar" and "invar st"
    and "Resolve uuid_ok m st k w = (x, st', w')"
  shows "(resolved x, lookup st', w') = resolve_spec uuid_ok m (lookup st) k w \<and>
    x \<noteq> Inr None \<and> (\<forall>e. x = Inl e \<longrightarrow> errors_is e ErrSessionNotFound) \<and> invar st'"
proof -
  have contract: "session_contract (sm_store m) lookup invar" using assms(1) by (rule reliable_store.axioms)
  have "errors_is e ErrSessionNotFound" if "x = Inl e" for e
    using session_contract.resolve_err [OF contract assms(2) refl] assms(3) that by blast
  with reliable_store.resolve_spec_holds [OF assms(1,2) refl assms(3)] show ?thesis by blast
qed

lemma demo_reliable: "reliable_store (sm_store demo_manager) (\<lambda>st. map_of (fs_data st)) (\<lambda>st. wf_map (fs_data st))"
  by (simp add: fake_reliable.reliable_store_axioms)

theorem resolve_refines_witness:
  "resolve_spec (\<lambda>k. True) demo_manager (map_of (fs_data demo_store)) ''u'' (2 * Hour) =
     (Some (renewed demo_manager (2 * Hour) (2 * Hour) demo_token demo_session),
      [''u'' \<mapsto> renewed demo_manager (2 * Hour) (2 * Hour) demo_token demo_session], 2 * Hour)"
proof -
  have "wf_map (fs_data demo_store)" by (simp add: demo_store_def wf_map_def)
  from resolve_refines [OF demo_reliable this demo_resolve] show ?thesis by simp
qed

text \<open>
  The other operations of the manager on the table: a session that is created is stored under its id, and a
  cleanup removes exactly the sessions at or past their ceiling.
\<close>

context reliable_store
begin

lemma create_spec:
  assumes "invar st" and "sm_store m = ops" and "sm_Create new_id m st token cl w = (x, st', w')"
  shows "\<exists>s. x = Inr s \<and> se_Claims s = cl \<and> se_ExpiresAt s = computeExpiresAt m s \<and> lookup st' = (lookup st)(se_ID s \<mapsto> s)"
proof -
  obtain uuid w1 where u: "new_id w = (uuid, w1)" by force
  let ?base = "\<lparr>se_ID = uuid, se_Tokens = tokenSetFrom (sm_now m w1) token no_tokens, se_Claims = cl,
    se_ExpiresAt = zero_time, se_CreatedAt = sm_now m w, se_UpdatedAt = sm_now m w, se_LastSeenAt = zero_time\<rparr>"
  let ?s = "?base\<lparr>se_ExpiresAt := computeExpiresAt m ?base\<rparr>"
  obtain st1 where c: "ss_Create ops st ?s = (None, st1)" using create_ok [OF assms(1), of ?s] by (metis prod.collapse)
  have "x = Inr ?s \<and> st' = st1" using assms(2,3) u c by (auto simp: sm_Create_def Let_def)
  moreover have "computeExpiresAt m ?s = computeExpiresAt m ?base" by (rule computeExpiresAt_update(1))
  ultimately show ?thesis using create [OF assms(1) c] by (intro exI [of _ ?s]) auto
qed

lemma cleanup_spec:
  assumes "invar st" and "sm_store m = ops" and "CleanupExpired m st now = (x, st')"
  shows "lookup st' = (\<lambda>k. case lookup st k of None \<Rightarrow> None | Some s \<Rightarrow> if now < se_ExpiresAt s then Some s else None)"
  using assms(2,3) delete_expired [OF assms(1), of now x st'] delete_expired_ok [OF assms(1), of now]
  by (auto simp: CleanupExpired_def)

lemma verify_iff:
  assumes "invar st" and "sm_store m = ops"
  shows "fst (sm_Verify uuid_ok m st k w) = Inr cl \<longleftrightarrow>
    (\<exists>s s' w'. uuid_ok k \<and> lookup st k = Some s \<and> kept_alive m s w = (Some s', w') \<and> cl = se_Claims s)"
proof -
  obtain x st' w' where r: "Resolve uuid_ok m st k w = (x, st', w')" by (metis prod.collapse)
  note spec = resolve_spec_holds [OF assms r]
  have "fst (sm_Verify uuid_ok m st k w) = Inr cl \<longleftrightarrow> (\<exists>s'. resolved x = Some s' \<and> cl = se_Claims s')"
    using spec by (auto simp: sm_Verify_def r resolved_def split: sum.splits option.splits)
  also have "\<dots> \<longleftrightarrow> (\<exists>s s' w'. uuid_ok k \<and> lookup st k = Some s \<and> kept_alive m s w = (Some s', w') \<and> cl = se_Claims s')"
    using spec by (auto simp: resolve_spec_def split: if_splits option.splits prod.splits)
  finally show ?thesis using kept_alive_claims by (metis (no_types, lifting))
qed

end

end
