(* ===== verification/Chain.thy ===== *)
theory Chain
  imports Routes Cors SessionSpec
begin

text \<open>
  The middlewares of \<^verbatim>\<open>src/httpserver/middlewares\<close> in one chain: cross-origin policy, rate limit, CSRF check,
  authorization and role check in front of a handler. How gin runs a chain is not part of the sources: it is
  a parameter with the documented behaviour as a hypothesis. A handler maps the request and the world to the
  calls it makes on its context, or panics.
\<close>

section \<open>Chains\<close>

type_synonym 'w handler = "request \<Rightarrow> 'w \<Rightarrow> (effect list \<times> 'w) option"

fun abort_status :: "effect \<Rightarrow> int option" where
  "abort_status (AbortWithStatusJSON status body) = Some status"
| "abort_status (AbortWithStatus status) = Some status"
| "abort_status _ = None"

definition aborts :: "effect list \<Rightarrow> bool" where
  "aborts effs \<longleftrightarrow> (\<exists>e \<in> set effs. abort_status e \<noteq> None)"

definition prepend :: "effect list \<Rightarrow> (effect list \<times> 'w) option \<Rightarrow> (effect list \<times> 'w) option" where
  "prepend effs = map_option (\<lambda>(effs', w). (effs @ effs', w))"

lemma prepend_prepend [simp]: "prepend a (prepend b r) = prepend (a @ b) r"
  by (cases r) (auto simp: prepend_def)

text \<open>
  The documented behaviour of a chain: the handlers run in order on one context, \<open>Next\<close> or the return of a
  handler goes on to the pending ones, and \<open>Abort\<close> prevents them from being called. The handlers here call
  \<open>Next\<close> last, so what a handler does comes before what the pending ones do.
\<close>

definition gin_chain :: "('w handler list \<Rightarrow> 'w handler) \<Rightarrow> bool" where
  "gin_chain serve \<longleftrightarrow>
     (\<forall>rq w. serve [] rq w = Some ([], w)) \<and>
     (\<forall>h hs rq w. serve (h # hs) rq w =
        (case h rq w of
           None \<Rightarrow> None
         | Some (effs, w') \<Rightarrow>
             if aborts effs then Some (effs, w')
             else prepend effs (serve hs (rq\<lparr>rq_Keys := keys_after effs (rq_Keys rq)\<rparr>) w')))"

lemma chain_stop:
  "gin_chain serve \<Longrightarrow> h rq w = Some (effs, w') \<Longrightarrow> aborts effs \<Longrightarrow> serve (h # hs) rq w = Some (effs, w')"
  by (simp add: gin_chain_def)

lemma chain_panic: "gin_chain serve \<Longrightarrow> h rq w = None \<Longrightarrow> serve (h # hs) rq w = None"
  by (simp add: gin_chain_def)

lemma chain_go:
  "gin_chain serve \<Longrightarrow> h rq w = Some (effs, w') \<Longrightarrow> \<not> aborts effs \<Longrightarrow>
   serve (h # hs) rq w = prepend effs (serve hs (rq\<lparr>rq_Keys := keys_after effs (rq_Keys rq)\<rparr>) w')"
  by (simp add: gin_chain_def)

lemma chain_last: "gin_chain serve \<Longrightarrow> serve [h] rq w = h rq w"
  by (auto simp: gin_chain_def prepend_def split: option.split)

text \<open>A chain as a program.\<close>

fun serve_chain :: "'w handler list \<Rightarrow> 'w handler" where
  "serve_chain [] rq w = Some ([], w)"
| "serve_chain (h # hs) rq w =
     (case h rq w of
        None \<Rightarrow> None
      | Some (effs, w') \<Rightarrow>
          if aborts effs then Some (effs, w')
          else prepend effs (serve_chain hs (rq\<lparr>rq_Keys := keys_after effs (rq_Keys rq)\<rparr>) w'))"

lemma serve_chain_gin: "gin_chain serve_chain"
  by (simp add: gin_chain_def)

text \<open>The chain gets to the handler behind it, with a context and a world, whatever that handler is.\<close>

definition reaches :: "('w handler list \<Rightarrow> 'w handler) \<Rightarrow> 'w handler list \<Rightarrow> request \<Rightarrow> 'w \<Rightarrow> request \<Rightarrow> 'w \<Rightarrow> bool" where
  "reaches serve hs rq w rq' w' \<longleftrightarrow> (\<exists>effs. \<not> aborts effs \<and> (\<forall>h. serve (hs @ [h]) rq w = prepend effs (h rq' w')))"

section \<open>The guards\<close>

text \<open>The world of the chain is the rate limiter and the world of the verifier, with its clock.\<close>

definition guards ::
  "cors_policy option \<Rightarrow> 'l limiter_ops \<Rightarrow> rate_limit_options option \<Rightarrow> ('w \<Rightarrow> instant) \<Rightarrow> csrf_options \<Rightarrow> 'w token_verifier \<Rightarrow>
   string \<Rightarrow> string \<Rightarrow> role_context list \<Rightarrow> ('l ip_rate_limiter \<times> 'w) handler list"
where
  "guards policy ops provided clock copts verifier cookie role extras =
     [\<lambda>rq lw. Some (CORSWithProvider policy rq, lw),
      \<lambda>rq (l, w). case rate_limit_middleware ops provided rq (clock w) l of (effs, l') \<Rightarrow> Some (effs, (l', w)),
      \<lambda>rq lw. Some (CSRFWithOptions copts rq, lw),
      \<lambda>rq (l, w). case AuthorizationWithOptions verifier cookie rq w of (effs, w') \<Rightarrow> Some (effs, (l, w')),
      \<lambda>rq lw. map_option (\<lambda>effs. (effs, lw)) (RequireRole verifier role extras rq)]"

text \<open>What the guards decide together: the first of them that refuses gives the status.\<close>

datatype verdict = Refused int | Crashed | Admitted request

definition csrf_echoed :: "csrf_options \<Rightarrow> request \<Rightarrow> bool" where
  "csrf_echoed copts rq \<longleftrightarrow> rq_Method rq \<in> set safeMethods \<or>
     (\<exists>v. v \<noteq> [] \<and> rq_Cookie rq (co_CookieName (csrf_withDefaults copts)) = Some v \<and>
        rq_Header rq (co_HeaderName (csrf_withDefaults copts)) = v)"

definition role_verdict :: "'w token_verifier \<Rightarrow> string \<Rightarrow> role_context list \<Rightarrow> claims \<Rightarrow> request \<Rightarrow> verdict" where
  "role_verdict verifier role extras cl rq =
     (if \<not> tv_HasRole verifier cl role then Refused 403
      else case stage_extras (tv_HasRole verifier cl) extras [] of
          None \<Rightarrow> Crashed
        | Some (Inl e) \<Rightarrow> Refused 500
        | Some (Inr staged) \<Rightarrow> Admitted (rq\<lparr>rq_Keys := (rq_Keys rq)(claimsKey \<mapsto> VClaims cl) ++ map_of staged\<rparr>))"

definition token_verdict ::
  "'w token_verifier \<Rightarrow> string \<Rightarrow> string \<Rightarrow> role_context list \<Rightarrow> request \<Rightarrow> 'w \<Rightarrow> verdict \<times> 'w"
where
  "token_verdict verifier cookie role extras rq w =
     (case extractToken rq (sessionCookieName cookie) of
        Inl e \<Rightarrow> (Refused (if e = ErrForbidden then 403 else 401), w)
      | Inr token \<Rightarrow>
          (case tv_Verify verifier token w of
             (Inl e, w') \<Rightarrow> (Refused 401, w')
           | (Inr cl, w') \<Rightarrow> (role_verdict verifier role extras cl rq, w')))"

definition guards_verdict ::
  "'l limiter_ops \<Rightarrow> rate_limit_options option \<Rightarrow> ('w \<Rightarrow> instant) \<Rightarrow> csrf_options \<Rightarrow> 'w token_verifier \<Rightarrow>
   string \<Rightarrow> string \<Rightarrow> role_context list \<Rightarrow> request \<Rightarrow> 'l ip_rate_limiter \<Rightarrow> 'w \<Rightarrow> verdict \<times> 'l ip_rate_limiter \<times> 'w"
where
  "guards_verdict ops provided clock copts verifier cookie role extras rq l w =
     (if rq_Method rq = ''OPTIONS'' then (Refused 204, l, w)
      else
        (case rl_allow ops (rq_ClientIP rq) (clock w) (case provided of None \<Rightarrow> l | Some opts \<Rightarrow> retune ops opts (clock w) l) of
           (ok, l') \<Rightarrow>
             if \<not> ok then (Refused 429, l', w)
             else if \<not> csrf_echoed copts rq then (Refused 403, l', w)
             else (case token_verdict verifier cookie role extras rq w of (v, w') \<Rightarrow> (v, l', w'))))"

text \<open>A chain carries a verdict out: it answers with that status, panics, or gets to the handler with that context.\<close>

definition delivers ::
  "('w handler list \<Rightarrow> 'w handler) \<Rightarrow> 'w handler list \<Rightarrow> request \<Rightarrow> 'w \<Rightarrow> verdict \<Rightarrow> 'w \<Rightarrow> bool"
where
  "delivers serve hs rq w v w' =
     (case v of
        Refused status \<Rightarrow> \<exists>effs. effs \<noteq> [] \<and> abort_status (last effs) = Some status \<and> (\<forall>h. serve (hs @ [h]) rq w = Some (effs, w'))
      | Crashed \<Rightarrow> \<forall>h. serve (hs @ [h]) rq w = None
      | Admitted rq' \<Rightarrow> reaches serve hs rq w rq' w')"

section \<open>Lemmas\<close>

lemma aborts_simps [simp]:
  "\<not> aborts []" "aborts (e # effs) \<longleftrightarrow> abort_status e \<noteq> None \<or> aborts effs" "aborts (a @ b) \<longleftrightarrow> aborts a \<or> aborts b"
  by (auto simp: aborts_def)

lemma delivers_stop:
  assumes "gin_chain serve" and "h rq w = Some (effs, w')" and "aborts effs" and "abort_status (last effs) = Some status"
  shows "delivers serve (h # hs) rq w (Refused status) w'"
proof -
  have "effs \<noteq> []" using assms(3) by auto
  with chain_stop [of serve h rq w effs w', OF assms(1-3)] assms(4) show ?thesis by (auto simp: delivers_def)
qed

lemma delivers_panic: "gin_chain serve \<Longrightarrow> h rq w = None \<Longrightarrow> delivers serve (h # hs) rq w Crashed w'"
  by (simp add: delivers_def chain_panic)

lemma delivers_done: "gin_chain serve \<Longrightarrow> delivers serve [] rq w (Admitted rq) w"
  by (auto simp: delivers_def reaches_def chain_last prepend_def intro!: exI [of _ "[]"] option.map_ident_strong [symmetric])

lemma delivers_go:
  assumes "gin_chain serve" and "h rq w = Some (effs, w1)" and "\<not> aborts effs"
    and "delivers serve hs (rq\<lparr>rq_Keys := keys_after effs (rq_Keys rq)\<rparr>) w1 v w'"
  shows "delivers serve (h # hs) rq w v w'"
proof -
  note go = chain_go [of serve h rq w effs w1, OF assms(1-3)]
  show ?thesis
  proof (cases v)
    case (Refused status)
    with assms(4) obtain effs' where "effs' \<noteq> []" "abort_status (last effs') = Some status"
      "\<And>h. serve (hs @ [h]) (rq\<lparr>rq_Keys := keys_after effs (rq_Keys rq)\<rparr>) w1 = Some (effs', w')"
      by (auto simp: delivers_def)
    with Refused go show ?thesis by (auto simp: delivers_def prepend_def intro!: exI [of _ "effs @ effs'"])
  next
    case Crashed
    with assms(4) go show ?thesis by (simp add: delivers_def prepend_def)
  next
    case (Admitted rq')
    with assms(4) obtain effs' where "\<not> aborts effs'"
      "\<And>h. serve (hs @ [h]) (rq\<lparr>rq_Keys := keys_after effs (rq_Keys rq)\<rparr>) w1 = prepend effs' (h rq' w')"
      by (auto simp: delivers_def reaches_def)
    with Admitted assms(3) go show ?thesis
      by (auto simp: delivers_def reaches_def intro!: exI [of _ "effs @ effs'"])
  qed
qed

lemma delivers_same:
  assumes "gin_chain serve" and "h rq w = Some (effs, w1)" and "\<not> aborts effs" and "keys_after effs (rq_Keys rq) = rq_Keys rq"
    and "delivers serve hs rq w1 v w'"
  shows "delivers serve (h # hs) rq w v w'"
proof -
  have "rq\<lparr>rq_Keys := keys_after effs (rq_Keys rq)\<rparr> = rq" using assms(4) by simp
  with delivers_go [of serve h rq w effs w1 hs v w', OF assms(1-3)] assms(5) show ?thesis by simp
qed

text \<open>What each guard does, as far as the chain is concerned.\<close>

lemma cors_guard:
  "rq_Method rq = ''OPTIONS'' \<Longrightarrow> aborts (CORSWithProvider policy rq) \<and> abort_status (last (CORSWithProvider policy rq)) = Some 204"
  "rq_Method rq \<noteq> ''OPTIONS'' \<Longrightarrow> \<not> aborts (CORSWithProvider policy rq) \<and> keys_after (CORSWithProvider policy rq) ks = ks"
  by (auto simp: CORSWithProvider_def Let_def keys_after_def split: option.split)

lemma csrf_guard:
  "csrf_echoed copts rq \<Longrightarrow> CSRFWithOptions copts rq = [Next]"
  "\<not> csrf_echoed copts rq \<Longrightarrow> \<exists>body. CSRFWithOptions copts rq = [AbortWithStatusJSON 403 body]"
  by (auto simp: csrf_echoed_def CSRFWithOptions_def Let_def respond_defs split: option.splits)

lemma keys_after_simps [simp]:
  "keys_after [] ks = ks" "keys_after (SetKey k v # effs) ks = keys_after effs (ks(k \<mapsto> v))"
  "keys_after (Next # effs) ks = keys_after effs ks"
  by (simp_all add: keys_after_def)

lemma keys_after_staged:
  "distinct (map fst staged) \<Longrightarrow> keys_after (map (\<lambda>(k, v). SetKey k v) staged @ [Next]) ks = ks ++ map_of staged"
proof (induction staged arbitrary: ks)
  case (Cons kv staged)
  obtain k v where kv: "kv = (k, v)" by force
  with Cons.prems have "map_of staged k = None" by (simp add: map_of_eq_None_iff)
  then have "ks(k \<mapsto> v) ++ map_of staged = ks ++ map_of (kv # staged)"
    by (auto simp: kv fun_eq_iff map_add_def split: option.split)
  moreover have "keys_after (map (\<lambda>(k, v). SetKey k v) (kv # staged) @ [Next]) ks = ks(k \<mapsto> v) ++ map_of staged"
    using Cons by (simp add: kv)
  ultimately show ?case by (simp only:)
qed simp

lemma staged_no_abort: "\<not> aborts (map (\<lambda>(k, v). SetKey k v) staged @ [Next])"
  by (induction staged) auto

lemma role_guard:
  assumes gin: "gin_chain serve" and cl: "rq_Keys rq claimsKey = Some (VClaims cl)"
  shows "delivers serve [\<lambda>rq lw. map_option (\<lambda>effs. (effs, lw)) (RequireRole verifier role extras rq)] rq lw
    (role_verdict verifier role extras cl rq) lw"
    (is "delivers serve [?h] rq lw ?v lw")
proof -
  have ctx: "ClaimsFromContext rq = Some cl" using cl by (simp add: ClaimsFromContext_def)
  have same: "(rq_Keys rq)(claimsKey \<mapsto> VClaims cl) = rq_Keys rq" using cl by (simp add: fun_upd_idem)
  show ?thesis
  proof (cases "tv_HasRole verifier cl role")
    case False
    with ctx show ?thesis unfolding role_verdict_def
      by (auto intro!: delivers_stop [OF gin] simp: RequireRole_def respond_defs)
  next
    case True
    then have role: "RequireRole verifier role extras rq = finish_role verifier cl extras"
      using ctx by (simp add: RequireRole_def)
    show ?thesis
    proof (cases "stage_extras (tv_HasRole verifier cl) extras []")
      case None
      with True role show ?thesis
        by (simp add: role_verdict_def finish_role_def applyRoleContexts_def delivers_panic [OF gin])
    next
      case (Some res)
      show ?thesis
      proof (cases res)
        case (Inl e)
        with Some True role show ?thesis
          by (auto simp: role_verdict_def finish_role_def applyRoleContexts_def respond_defs intro!: delivers_stop [OF gin])
      next
        case (Inr staged)
        let ?effs = "map (\<lambda>(k, v). SetKey k v) staged @ [Next]"
        have h: "?h rq lw = Some (?effs, lw)"
          using Some Inr role by (simp add: finish_role_def applyRoleContexts_def)
        have "distinct (map fst staged)" using stage_extras_distinct Some Inr by fastforce
        then have keys: "keys_after ?effs (rq_Keys rq) = rq_Keys rq ++ map_of staged" by (rule keys_after_staged)
        have "?v = Admitted (rq\<lparr>rq_Keys := keys_after ?effs (rq_Keys rq)\<rparr>)"
          using Some Inr True by (simp add: role_verdict_def same keys)
        then show ?thesis using delivers_go [of serve ?h rq lw ?effs lw "[]", OF gin h staged_no_abort delivers_done [OF gin]] by simp
      qed
    qed
  qed
qed

lemma token_guard:
  assumes gin: "gin_chain serve" and verdict: "token_verdict verifier cookie role extras rq w = (v, w')"
  shows "delivers serve
    [\<lambda>rq (l, w). case AuthorizationWithOptions verifier cookie rq w of (effs, w') \<Rightarrow> Some (effs, (l, w')),
     \<lambda>rq lw. map_option (\<lambda>effs. (effs, lw)) (RequireRole verifier role extras rq)] rq (l, w) v (l, w')"
    (is "delivers serve [?auth, ?role] _ _ _ _")
proof (cases "extractToken rq (sessionCookieName cookie)")
  case (Inl e)
  with extractToken_cases [of rq "sessionCookieName cookie"] have "e = ErrForbidden \<or> e = ErrMissingToken"
    by (auto split: option.splits sum.splits)
  then have "\<exists>body. AuthorizationWithOptions verifier cookie rq w =
      ([AbortWithStatusJSON (if e = ErrForbidden then 403 else 401) body], w)"
    using Inl by (auto simp: AuthorizationWithOptions_def respond_defs err_simps)
  moreover have "v = Refused (if e = ErrForbidden then 403 else 401)" "w' = w"
    using verdict Inl by (auto simp: token_verdict_def)
  ultimately show ?thesis by (auto intro!: delivers_stop [OF gin])
next
  case (Inr token)
  obtain r w1 where verify: "tv_Verify verifier token w = (r, w1)" by force
  show ?thesis
  proof (cases r)
    case (Inl e)
    with Inr verify verdict show ?thesis
      by (auto simp: token_verdict_def AuthorizationWithOptions_def respond_defs intro!: delivers_stop [OF gin])
  next
    case (Inr cl)
    let ?rq = "rq\<lparr>rq_Keys := (rq_Keys rq)(claimsKey \<mapsto> VClaims cl)\<rparr>"
    have h: "?auth rq (l, w) = Some ([SetKey claimsKey (VClaims cl), Next], (l, w1))"
      using \<open>extractToken _ _ = Inr token\<close> Inr verify by (simp add: AuthorizationWithOptions_def)
    have v: "v = role_verdict verifier role extras cl rq" "w' = w1"
      using verdict \<open>extractToken _ _ = Inr token\<close> Inr verify by (simp_all add: token_verdict_def)
    have "role_verdict verifier role extras cl ?rq = role_verdict verifier role extras cl rq"
      by (simp add: role_verdict_def split: option.split sum.split)
    with role_guard [OF gin, of ?rq cl verifier role extras "(l, w1)"] v
    have "delivers serve [?role] ?rq (l, w1) v (l, w')" by simp
    then show ?thesis
      using delivers_go [of serve ?auth rq "(l, w)" "[SetKey claimsKey (VClaims cl), Next]" "(l, w1)" "[?role]", OF gin h]
      by simp
  qed
qed

lemma guards_deliver:
  assumes "gin_chain serve" and "guards_verdict ops provided clock copts verifier cookie role extras rq l w = (v, l', w')"
  shows "delivers serve (guards policy ops provided clock copts verifier cookie role extras) rq (l, w) v (l', w')"
proof -
  note gin = assms(1)
  let ?cors = "\<lambda>rq lw. Some (CORSWithProvider policy rq, lw)"
  let ?rate = "\<lambda>rq (l, w). case rate_limit_middleware ops provided rq (clock w) l of (effs, l') \<Rightarrow> Some (effs, (l', w))"
  let ?csrf = "\<lambda>rq lw. Some (CSRFWithOptions copts rq, lw)"
  obtain tokens where hs: "guards policy ops provided clock copts verifier cookie role extras = ?cors # ?rate # ?csrf # tokens"
    and tokens: "\<And>v w' l. token_verdict verifier cookie role extras rq w = (v, w') \<Longrightarrow> delivers serve tokens rq (l, w) v (l, w')"
    using token_guard [OF gin, of verifier cookie role extras rq w] unfolding guards_def by blast
  obtain ok l1 where rl: "rl_allow ops (rq_ClientIP rq) (clock w)
      (case provided of None \<Rightarrow> l | Some opts \<Rightarrow> retune ops opts (clock w) l) = (ok, l1)" by force
  then have rate: "?rate rq (l, w) = Some (if ok then [Next] else respond_TooManyRequests [], (l1, w))"
    by (simp add: rate_limit_middleware_def)
  have csrf: "delivers serve (?csrf # tokens) rq (l1, w) v (l', w')" if "rq_Method rq \<noteq> ''OPTIONS''" "ok"
  proof (cases "csrf_echoed copts rq")
    case False
    with that rl assms(2) csrf_guard(2) [OF False] show ?thesis
      by (auto simp: guards_verdict_def intro!: delivers_stop [OF gin])
  next
    case True
    with that rl assms(2) have tv: "token_verdict verifier cookie role extras rq w = (v, w')" and "l' = l1"
      by (auto simp: guards_verdict_def split: prod.splits)
    then show ?thesis
      using delivers_same [of serve ?csrf rq "(l1, w)" "[Next]" "(l1, w)" tokens, OF gin] tokens [OF tv] csrf_guard(1) [OF True]
      by simp
  qed
  have "delivers serve (?rate # ?csrf # tokens) rq (l, w) v (l', w')" if opt: "rq_Method rq \<noteq> ''OPTIONS''"
  proof (cases ok)
    case False
    with that rl assms(2) have "v = Refused 429" "l' = l1" "w' = w" by (auto simp: guards_verdict_def)
    with rate False show ?thesis
      using delivers_stop [of serve ?rate rq "(l, w)" "respond_TooManyRequests []" "(l1, w)" 429, OF gin] by (simp add: respond_defs)
  next
    case True
    with rate csrf [OF opt] show ?thesis
      using delivers_same [of serve ?rate rq "(l, w)" "[Next]" "(l1, w)" "?csrf # tokens", OF gin] by simp
  qed
  then show ?thesis
    using cors_guard [of rq policy] assms(2) unfolding hs
    by (cases "rq_Method rq = ''OPTIONS''")
      (auto simp: guards_verdict_def intro: delivers_stop [OF gin] delivers_same [OF gin, where h = ?cors])
qed


lemma delivers_reaches_iff:
  assumes "delivers serve hs rq w v w'"
  shows "(\<exists>rq1 w1. reaches serve hs rq w rq1 w1) \<longleftrightarrow> (\<exists>rq1. v = Admitted rq1)"
proof
  assume "\<exists>rq1 w1. reaches serve hs rq w rq1 w1"
  then obtain effs rq1 w1 where r: "\<And>h. serve (hs @ [h]) rq w = prepend effs (h rq1 w1)" unfolding reaches_def by blast
  from r [of "\<lambda>rq w. None"] r [of "\<lambda>rq w. Some ([], w)"] assms show "\<exists>rq1. v = Admitted rq1"
    by (cases v) (auto simp: delivers_def prepend_def)
next
  assume "\<exists>rq1. v = Admitted rq1"
  then obtain rq1 where "v = Admitted rq1" by blast
  with assms have "reaches serve hs rq w rq1 w'" by (simp add: delivers_def)
  then show "\<exists>rq1 w1. reaches serve hs rq w rq1 w1" by blast
qed

text \<open>When the guards let a request through.\<close>

lemma guards_admit_iff:
  "(\<exists>rq1 l' w'. guards_verdict ops provided clock copts verifier cookie role extras rq l w = (Admitted rq1, l', w')) \<longleftrightarrow>
     rq_Method rq \<noteq> ''OPTIONS'' \<and>
     fst (rl_allow ops (rq_ClientIP rq) (clock w) (case provided of None \<Rightarrow> l | Some opts \<Rightarrow> retune ops opts (clock w) l)) \<and>
     csrf_echoed copts rq \<and>
     (\<exists>token cl staged. extractToken rq (sessionCookieName cookie) = Inr token \<and> fst (tv_Verify verifier token w) = Inr cl \<and>
        tv_HasRole verifier cl role \<and> stage_extras (tv_HasRole verifier cl) extras [] = Some (Inr staged))"
proof -
  have "(\<exists>rq1 w'. token_verdict verifier cookie role extras rq w = (Admitted rq1, w')) \<longleftrightarrow>
      (\<exists>token cl staged. extractToken rq (sessionCookieName cookie) = Inr token \<and> fst (tv_Verify verifier token w) = Inr cl \<and>
        tv_HasRole verifier cl role \<and> stage_extras (tv_HasRole verifier cl) extras [] = Some (Inr staged))"
    by (auto simp: token_verdict_def role_verdict_def split: sum.splits prod.splits option.splits)
  then show ?thesis
    by (auto simp: guards_verdict_def split: prod.splits)
qed

text \<open>With a session manager as the verifier, over a store that does not fail.\<close>

lemma session_chain_iff:
  assumes "gin_chain serve" and "reliable_store (sm_store m) lookup invar" and "invar st"
  shows "(\<exists>rq1 lw1. reaches serve (guards policy ops provided clock copts (session_verifier uuid_ok m) cookie role extras)
       rq (l, st, w) rq1 lw1) \<longleftrightarrow>
    rq_Method rq \<noteq> ''OPTIONS'' \<and>
    fst (rl_allow ops (rq_ClientIP rq) (clock (st, w))
      (case provided of None \<Rightarrow> l | Some opts \<Rightarrow> retune ops opts (clock (st, w)) l)) \<and>
    csrf_echoed copts rq \<and>
    (\<exists>k s s' w' rs staged. extractToken rq (sessionCookieName cookie) = Inr k \<and> uuid_ok k \<and> lookup st k = Some s \<and>
      kept_alive m s w = (Some s', w') \<and> client_roles (se_Claims s) (sm_clientID m) = Some rs \<and> role \<in> set rs \<and>
      stage_extras (sm_HasRole m (se_Claims s)) extras [] = Some (Inr staged))"
proof -
  let ?v = "session_verifier uuid_ok m"
  obtain v l' w' where gv: "guards_verdict ops provided clock copts ?v cookie role extras rq l (st, w) = (v, l', w')"
    by (metis prod.collapse)
  have admit: "(\<exists>rq1 lw1. reaches serve (guards policy ops provided clock copts ?v cookie role extras) rq (l, st, w) rq1 lw1) \<longleftrightarrow>
      (\<exists>rq1 l' w'. guards_verdict ops provided clock copts ?v cookie role extras rq l (st, w) = (Admitted rq1, l', w'))"
    using delivers_reaches_iff [OF guards_deliver [OF assms(1) gv, of policy]] gv by simp
  have verify: "fst (tv_Verify ?v k (st, w)) = Inr cl \<longleftrightarrow>
      (\<exists>s s' w'. uuid_ok k \<and> lookup st k = Some s \<and> kept_alive m s w = (Some s', w') \<and> cl = se_Claims s)" for k cl
    unfolding session_verifier_simps by (rule reliable_store.verify_iff [OF assms(2,3) refl])
  have role: "tv_HasRole ?v = sm_HasRole m" by (simp add: fun_eq_iff)
  have held: "sm_HasRole m cl role \<longleftrightarrow> (\<exists>rs. client_roles cl (sm_clientID m) = Some rs \<and> role \<in> set rs)" for cl
    by (simp add: sm_HasRole_def split: option.split)
  have "(\<exists>token cl staged. extractToken rq (sessionCookieName cookie) = Inr token \<and> fst (tv_Verify ?v token (st, w)) = Inr cl \<and>
        sm_HasRole m cl role \<and> stage_extras (sm_HasRole m cl) extras [] = Some (Inr staged)) \<longleftrightarrow>
      (\<exists>k s s' w' rs staged. extractToken rq (sessionCookieName cookie) = Inr k \<and> uuid_ok k \<and> lookup st k = Some s \<and>
        kept_alive m s w = (Some s', w') \<and> client_roles (se_Claims s) (sm_clientID m) = Some rs \<and> role \<in> set rs \<and>
        stage_extras (sm_HasRole m (se_Claims s)) extras [] = Some (Inr staged))"
    unfolding verify held by blast
  then show ?thesis unfolding admit guards_admit_iff role by (simp only:)
qed

section \<open>Properties\<close>

text \<open>
  C7: the guards in front of a handler decide together as the reference says: a preflight request is answered
  with 204, then a client over its rate gets 429, a request that changes state without echoing its CSRF cookie
  403, one with no token 401 and with two 403, one whose token the verifier rejects 401, one without the role
  403, and conflicting role contexts 500. The handler runs exactly when none of these applies, once, with the
  verified claims and the values of the caller's roles in its context and nothing else changed; a request that is
  refused never costs a call of the verifier before the cheaper checks have passed.
\<close>

theorem guarded_route:
  assumes "gin_chain serve" and "guards_verdict ops provided clock copts verifier cookie role extras rq l w = (v, l', w')"
  shows "delivers serve (guards policy ops provided clock copts verifier cookie role extras) rq (l, w) v (l', w') \<and>
    ((\<exists>rq1 lw1. reaches serve (guards policy ops provided clock copts verifier cookie role extras) rq (l, w) rq1 lw1) \<longleftrightarrow>
     (\<exists>rq1. v = Admitted rq1))"
proof -
  note d = guards_deliver [OF assms, of policy]
  from d delivers_reaches_iff [OF d] show ?thesis by (rule conjI)
qed

text \<open>A client with one token in its bucket sends a request that echoes its CSRF cookie.\<close>

definition demo_post :: request where
  "demo_post = \<lparr>rq_Method = ''POST'', rq_Header = (\<lambda>h. if h = ''Authorization'' then [] else ''c''),
     rq_Cookie = (\<lambda>c. Some ''c''), rq_Query = (\<lambda>q. []), rq_ClientIP = ''10.0.0.1'', rq_Keys = Map.empty\<rparr>"

theorem guarded_route_witness:
  "reaches serve_chain (guards None demo_bucket None (\<lambda>w. 0) \<lparr>co_CookieName = [], co_HeaderName = []\<rparr> demo_verifier [] ''a'' demo_extras)
     demo_post (newIPRateLimiter 60 1 0, ())
     (demo_post\<lparr>rq_Keys := [claimsKey \<mapsto> VClaims no_claims] ++ map_of [(''k'', VAtom ''int'' ''1''), (''l'', VAtom ''int'' ''2'')]\<rparr>)
     ((newIPRateLimiter 60 1 0)\<lparr>ir_limiters := [(''10.0.0.1'', \<lparr>il_limiter = 0, il_lastSeen = 0\<rparr>)]\<rparr>, ())"
proof -
  let ?copts = "\<lparr>co_CookieName = [], co_HeaderName = []\<rparr>"
  let ?rq = "demo_post\<lparr>rq_Keys := [claimsKey \<mapsto> VClaims no_claims] ++ map_of [(''k'', VAtom ''int'' ''1''), (''l'', VAtom ''int'' ''2'')]\<rparr>"
  let ?l = "(newIPRateLimiter 60 1 0)\<lparr>ir_limiters := [(''10.0.0.1'', \<lparr>il_limiter = 0, il_lastSeen = 0\<rparr>)]\<rparr>"
  have "stage_extras (tv_HasRole demo_verifier no_claims) demo_extras [] =
      Some (Inr [(''k'', VAtom ''int'' ''1''), (''l'', VAtom ''int'' ''2'')])"
    by (simp add: demo_extras_def demo_verifier_def)
  then have "token_verdict demo_verifier [] ''a'' demo_extras demo_post () = (Admitted ?rq, ())"
    by (simp add: token_verdict_def role_verdict_def extractToken_def readSessionCookie_def extractBearerToken_def demo_post_def
        demo_verifier_def)
  moreover have "csrf_echoed ?copts demo_post"
    by (simp add: csrf_echoed_def demo_post_def csrf_withDefaults_def CSRFHeader_def Let_def)
  moreover have "rl_allow demo_bucket ''10.0.0.1'' 0 (newIPRateLimiter 60 1 0) = (True, ?l)"
    by (simp add: rl_allow_def evictIfDue_def newIPRateLimiter_def demo_bucket_def rateLimitIdleTimeout_def clock_simps)
  ultimately have "guards_verdict demo_bucket None (\<lambda>w. 0) ?copts demo_verifier [] ''a'' demo_extras demo_post
      (newIPRateLimiter 60 1 0) () = (Admitted ?rq, ?l, ())"
    by (simp add: guards_verdict_def demo_post_def)
  from guarded_route [OF serve_chain_gin this, of None] show ?thesis by (simp add: delivers_def)
qed

end
