(* ===== verification/Requests.thy ===== *)
theory Requests
  imports SessionSpec
begin

text \<open>
  Requests on one session manager that run at the same time (\<^verbatim>\<open>src/oidcauth/session_manager.go\<close>). \<^verbatim>\<open>Resolve\<close> is
  cut at its calls of the store and of the issuer; between two of them any other request, logout, cleanup or
  login may act. What is atomic is one such call, \<^verbatim>\<open>WithLock\<close> with its function included, as the store documents.
  Run without interruption the pieces are \<^verbatim>\<open>Resolve\<close>.
\<close>

section \<open>One request\<close>

text \<open>
  Where a request stands: the id it was given, the clock it has read, the session it has loaded. \<open>Failed\<close> and \<open>Handed\<close>
  are the two ways to return.
\<close>

datatype call_phase =
    Starting string
  | Loading string instant
  | Validating string instant session
  | Touching string instant session
  | Renewing string instant
  | Dropping string go_err
  | Failed string go_err
  | Handed string instant "session option"

definition after_get :: "('st, 'w) session_manager \<Rightarrow> string \<Rightarrow> instant \<Rightarrow> go_err + session \<Rightarrow> call_phase" where
  "after_get m k now r =
     (case r of
        Inl e \<Rightarrow> Failed k (notFound e)
      | Inr s \<Rightarrow>
          if isExpired m s now then Dropping k (Wrapped ''%w: expired'' [ErrSessionNotFound])
          else if now < ts_AccessTokenExpiresAt (se_Tokens s) then Validating k now s
          else Renewing k now)"

definition after_verify :: "('st, 'w) session_manager \<Rightarrow> string \<Rightarrow> instant \<Rightarrow> session \<Rightarrow> 'w \<Rightarrow> call_phase \<times> 'w" where
  "after_verify m k now s w =
     (case sm_verifier m of
        None \<Rightarrow> (Touching k now s, w)
      | Some verify \<Rightarrow>
          (case verify (ts_AccessToken (se_Tokens s)) w of
             (Inl e, w') \<Rightarrow> (Dropping k (Wrapped ''%w: revalidation rejected: %w'' [ErrSessionNotFound, e]), w')
           | (Inr cl, w') \<Rightarrow> (Touching k now s, w')))"

definition after_lock :: "string \<Rightarrow> instant \<Rightarrow> go_err option \<Rightarrow> session option \<Rightarrow> call_phase" where
  "after_lock k now oe renewed_session =
     (case oe of
        Some e \<Rightarrow> if errors_is e ErrSessionNotFound then Dropping k (notFound e) else Failed k (notFound e)
      | None \<Rightarrow> Handed k now renewed_session)"

fun resolve_step ::
  "(string \<Rightarrow> bool) \<Rightarrow> ('st, 'w) session_manager \<Rightarrow> call_phase \<times> 'st \<times> 'w \<Rightarrow> call_phase \<times> 'st \<times> 'w"
where
  "resolve_step uuid_ok m (Starting k, st, w) =
     (if \<not> uuid_ok k then (Failed k (Wrapped ''%w: malformed session id'' [ErrSessionNotFound]), st, w)
      else (Loading k (sm_now m w), st, w))"
| "resolve_step uuid_ok m (Loading k now, st, w) = (after_get m k now (ss_Get (sm_store m) st k), st, w)"
| "resolve_step uuid_ok m (Validating k now s, st, w) = (case after_verify m k now s w of (p, w') \<Rightarrow> (p, st, w'))"
| "resolve_step uuid_ok m (Touching k now s, st, w) =
     (Handed k now (Some (s\<lparr>se_LastSeenAt := now\<rparr>)), snd (ss_Touch (sm_store m) st k now), w)"
| "resolve_step uuid_ok m (Renewing k now, st, w) =
     (case ss_WithLock (sm_store m) st k (refresh_locked m now) (None, w) of
        (oe, st', r, w') \<Rightarrow> (after_lock k now oe r, st', w'))"
| "resolve_step uuid_ok m (Dropping k e, st, w) = (Failed k e, snd (ss_Delete (sm_store m) st k), w)"
| "resolve_step uuid_ok m (Failed k e, st, w) = (Failed k e, st, w)"
| "resolve_step uuid_ok m (Handed k now r, st, w) = (Handed k now r, st, w)"

fun phase_result :: "call_phase \<Rightarrow> (go_err + session option) option" where
  "phase_result (Failed k e) = Some (Inl e)"
| "phase_result (Handed k now r) = Some (Inr r)"
| "phase_result _ = None"

section \<open>The server\<close>

text \<open>
  The calls in progress by number, and two histories that no operation reads: the ids ever given out and the refresh
  grants the issuer made, newest first, with the clock of the request that asked, the refresh token presented
  and the token set that came of it.
\<close>

record grant =
  gr_ID :: string
  gr_Now :: instant
  gr_Presented :: string
  gr_Tokens :: token_set

record ('st, 'w) server =
  sv_store :: 'st
  sv_world :: 'w
  sv_calls :: "nat \<Rightarrow> call_phase option"
  sv_ids :: "string set"
  sv_grants :: "grant list"

text \<open>The grant a request obtains under the lock, if it gets as far as asking and the issuer agrees.\<close>

definition granted ::
  "('st, 'w) session_manager \<Rightarrow> ('st \<Rightarrow> string \<Rightarrow> session option) \<Rightarrow> call_phase \<Rightarrow> 'st \<Rightarrow> 'w \<Rightarrow> grant list"
where
  "granted m lookup p st w =
     (case p of
        Renewing k now \<Rightarrow>
          (case lookup st k of
             None \<Rightarrow> []
           | Some s \<Rightarrow>
               (case refresh_locked m now s (None, w) of
                  (Inr (Some s'), x) \<Rightarrow>
                    [\<lparr>gr_ID = k, gr_Now = now, gr_Presented = ts_RefreshToken (se_Tokens s), gr_Tokens = se_Tokens s'\<rparr>]
                | _ \<Rightarrow> []))
      | _ \<Rightarrow> [])"

text \<open>
  \<open>sv_login\<close> is \<open>Create\<close>, whose id the store may assume unique; \<open>sv_logout\<close> is \<open>Delete\<close>, \<open>sv_cleanup\<close> a pass of the
  periodic cleanup, \<open>sv_tick\<close> the passing of time and whatever the issuer does by itself.
\<close>

inductive sv_step ::
  "(string \<Rightarrow> bool) \<Rightarrow> ('w \<Rightarrow> string \<times> 'w) \<Rightarrow> ('st, 'w) session_manager \<Rightarrow> ('st \<Rightarrow> string \<Rightarrow> session option) \<Rightarrow>
   ('st, 'w) server \<Rightarrow> ('st, 'w) server \<Rightarrow> bool"
  for uuid_ok new_uuid m lookup where
  sv_call: "sv_calls s i = None \<Longrightarrow> sv_step uuid_ok new_uuid m lookup s (s\<lparr>sv_calls := (sv_calls s)(i \<mapsto> Starting k)\<rparr>)"
| sv_advance: "sv_calls s i = Some p \<Longrightarrow> resolve_step uuid_ok m (p, sv_store s, sv_world s) = (p', st', w') \<Longrightarrow>
    sv_step uuid_ok new_uuid m lookup s
      (s\<lparr>sv_calls := (sv_calls s)(i \<mapsto> p'), sv_store := st', sv_world := w',
         sv_grants := granted m lookup p (sv_store s) (sv_world s) @ sv_grants s\<rparr>)"
| sv_login: "sm_Create new_uuid m (sv_store s) token cl (sv_world s) = (r, st', w') \<Longrightarrow> fst (new_uuid (sv_world s)) \<notin> sv_ids s \<Longrightarrow>
    sv_step uuid_ok new_uuid m lookup s
      (s\<lparr>sv_store := st', sv_world := w', sv_ids := insert (fst (new_uuid (sv_world s))) (sv_ids s)\<rparr>)"
| sv_logout: "sm_Delete m (sv_store s) k = (oe, st') \<Longrightarrow> sv_step uuid_ok new_uuid m lookup s (s\<lparr>sv_store := st'\<rparr>)"
| sv_cleanup: "CleanupExpired m (sv_store s) now = (r, st') \<Longrightarrow> sv_step uuid_ok new_uuid m lookup s (s\<lparr>sv_store := st'\<rparr>)"
| sv_tick: "sv_step uuid_ok new_uuid m lookup s (s\<lparr>sv_world := w'\<rparr>)"

definition sv_reachable ::
  "(string \<Rightarrow> bool) \<Rightarrow> ('w \<Rightarrow> string \<times> 'w) \<Rightarrow> ('st, 'w) session_manager \<Rightarrow> ('st \<Rightarrow> string \<Rightarrow> session option) \<Rightarrow>
   ('st, 'w) server \<Rightarrow> ('st, 'w) server \<Rightarrow> bool"
where
  "sv_reachable uuid_ok new_uuid m lookup = (sv_step uuid_ok new_uuid m lookup)\<^sup>*\<^sup>*"

text \<open>A server before its first request.\<close>

definition fresh_server :: "('st \<Rightarrow> string \<Rightarrow> session option) \<Rightarrow> ('st, 'w) server \<Rightarrow> bool" where
  "fresh_server lookup s \<longleftrightarrow> lookup (sv_store s) = Map.empty \<and> sv_calls s = Map.empty \<and> sv_grants s = []"

section \<open>A request by itself\<close>

lemma resolve_solo:
  "case Resolve uuid_ok m st k w of (x, st', w') \<Rightarrow>
     (\<exists>p. (resolve_step uuid_ok m ^^ 4) (Starting k, st, w) = (p, st', w') \<and> phase_result p = Some x)"
  by (auto simp: Resolve_def refresh_session_def after_get_def after_verify_def after_lock_def Let_def eval_nat_numeral
      split: sum.splits option.splits prod.splits)


section \<open>What the steps do to the sessions\<close>

text \<open>
  \<open>continues S S' k\<close>: what table \<open>S'\<close> holds under \<open>k\<close>, if anything, is the session \<open>S\<close> held there, with the same
  identity and moment of creation.
\<close>

definition continues :: "session_table \<Rightarrow> session_table \<Rightarrow> string \<Rightarrow> bool" where
  "continues S S' k \<longleftrightarrow> (\<forall>s'. S' k = Some s' \<longrightarrow>
     (\<exists>s. S k = Some s \<and> se_ID s' = se_ID s \<and> se_Claims s' = se_Claims s \<and> se_CreatedAt s' = se_CreatedAt s))"

lemma continues_refl [simp]: "continues S S k"
  by (simp add: continues_def)

lemma continues_None: "continues S S' k \<Longrightarrow> S k = None \<Longrightarrow> S' k = None"
  by (cases "S' k") (auto simp: continues_def)

lemma resolve_step_sm:
  assumes "resolve_step uuid_ok m (p, st, w) = (p', st', w')"
  shows "sm_step new_uuid m (st, w) (st', w')"
  using assms
  by (cases p) (auto intro: sm_step.intros simp: prod_eq_iff after_verify_def split: if_splits prod.splits option.splits sum.splits)

lemma sv_step_sm:
  "sv_step uuid_ok new_uuid m lookup s s' \<Longrightarrow> sm_step new_uuid m (sv_store s, sv_world s) (sv_store s', sv_world s')"
  by (induction rule: sv_step.induct) (auto intro: sm_step.intros resolve_step_sm simp: sm_Delete_def)

context session_contract
begin

lemma touch_continues: "invar st \<Longrightarrow> continues (lookup st) (lookup (snd (ss_Touch ops st j t))) k"
  using touch [of st j t] by (cases "ss_Touch ops st j t") (auto simp: continues_def split: option.splits if_splits)

lemma delete_continues: "invar st \<Longrightarrow> continues (lookup st) (lookup (snd (ss_Delete ops st j))) k"
  using delete [of st j] by (cases "ss_Delete ops st j") (auto simp: continues_def split: option.splits if_splits)

lemma lock_continues:
  assumes "invar st" and "ss_WithLock ops st j (refresh_locked m now) (None, w) = (oe, st', x)"
  shows "continues (lookup st) (lookup st') k"
proof (cases oe)
  case None
  with lock_ok [OF assms(1), of j "refresh_locked m now" "(None, w)"] assms(2) obtain s ret
    where s: "lookup st j = Some s" "refresh_locked m now s (None, w) = (Inr ret, fst x, snd x)"
      "lookup st' = (case ret of None \<Rightarrow> lookup st | Some s' \<Rightarrow> (lookup st)(j \<mapsto> s'))" by auto
  from s(2) show ?thesis by (cases rule: refresh_locked_Inr) (use s in \<open>auto simp: continues_def\<close>)
next
  case (Some e)
  with lock_err [OF assms(1)] assms(2) show ?thesis by (cases x) simp
qed

lemma resolve_step_continues:
  assumes "invar st" and "sm_store m = ops" and "resolve_step uuid_ok m (p, st, w) = (p', st', w')"
  shows "continues (lookup st) (lookup st') k"
  using assms lock_continues [OF assms(1)] touch_continues [OF assms(1)] delete_continues [OF assms(1)]
  by (cases p) (auto split: if_splits prod.splits)

lemma create_continues:
  assumes "invar st" and "sm_store m = ops" and "sm_Create new_id m st token cl w = (r, st', w')" and "k \<noteq> fst (new_id w)"
  shows "lookup st' k = lookup st k"
proof -
  from assms(2,3) obtain s oe where "ss_Create ops st s = (oe, st')" "se_ID s = fst (new_id w)"
    by (auto simp: sm_Create_def Let_def split: prod.splits option.splits)
  with create [OF assms(1)] assms(4) show ?thesis by (auto split: option.splits)
qed

lemma sv_step_continues:
  assumes "sv_step uuid_ok new_uuid m lookup s s'" and "sm_store m = ops" and "invar (sv_store s)"
    and "k \<in> sv_ids s \<or> k \<notin> sv_ids s'"
  shows "continues (lookup (sv_store s)) (lookup (sv_store s')) k"
  using assms
proof (induction rule: sv_step.induct)
  case (sv_advance s i p p' st' w')
  from resolve_step_continues [OF sv_advance(4,3,2)] show ?case by simp
next
  case (sv_login s token cl r st' w')
  then have "lookup st' k = lookup (sv_store s) k"
    using create_continues [OF sv_login(4,3,1), of k] by auto
  then show ?case by (simp add: continues_def)
next
  case (sv_logout s j oe st')
  then show ?case using delete_continues [of "sv_store s" j k] by (simp add: sm_Delete_def)
next
  case (sv_cleanup s now r st')
  then show ?case using delete_expired [of "sv_store s" now r st']
    by (auto simp: CleanupExpired_def continues_def split: sum.splits option.splits if_splits)
qed simp_all

lemma sv_step_ids: "sv_step uuid_ok new_uuid m lookup s s' \<Longrightarrow> sv_ids s \<subseteq> sv_ids s'"
  by (induction rule: sv_step.induct) auto

end

section \<open>The lifetime of a session\<close>

text \<open>What a request in a given phase may rely on: the clock it read is within the absolute timeout of its session.\<close>

definition in_time :: "('st, 'w) session_manager \<Rightarrow> instant \<Rightarrow> session \<Rightarrow> bool" where
  "in_time m now s \<longleftrightarrow> now < se_CreatedAt s + sm_absoluteTimeout m"

fun phase_ok :: "('st, 'w) session_manager \<Rightarrow> session_table \<Rightarrow> string set \<Rightarrow> call_phase \<Rightarrow> bool" where
  "phase_ok m S ids (Validating k now s) \<longleftrightarrow> in_time m now s"
| "phase_ok m S ids (Touching k now s) \<longleftrightarrow> in_time m now s"
| "phase_ok m S ids (Renewing k now) \<longleftrightarrow> k \<in> ids \<and> (\<forall>s. S k = Some s \<longrightarrow> in_time m now s)"
| "phase_ok m S ids (Handed k now r) \<longleftrightarrow> (\<exists>s. r = Some s \<and> in_time m now s)"
| "phase_ok m S ids _ \<longleftrightarrow> True"

lemma in_time_simps [simp]:
  "in_time m now (s\<lparr>se_LastSeenAt := t\<rparr>) = in_time m now s" "in_time m now (renewed m t t' token s) = in_time m now s"
  by (simp_all add: in_time_def)

lemma phase_ok_continues:
  assumes "phase_ok m S ids p" and "ids \<subseteq> ids'" and "\<And>k. k \<in> ids \<Longrightarrow> continues S S' k"
  shows "phase_ok m S' ids' p"
proof (cases p)
  case (Renewing k now)
  with assms(1,2) assms(3) [of k] show ?thesis by (auto simp: continues_def in_time_def)
qed (use assms in auto)

lemma unexpired_in_time:
  "ceiling_ok m s \<Longrightarrow> 0 < sm_absoluteTimeout m \<Longrightarrow> \<not> isExpired m s now \<Longrightarrow> in_time m now s"
  using computeExpiresAt_absolute [of m s] by (auto simp: ceiling_ok_def isExpired_def in_time_def split: if_splits)

context session_contract
begin

lemma after_get_ok:
  assumes "ceilings_ok m st" and "sm_store m = ops" and "0 < sm_absoluteTimeout m" and "dom (lookup st) \<subseteq> ids"
  shows "phase_ok m (lookup st) ids (after_get m k now (ss_Get ops st k))"
proof (cases "ss_Get ops st k")
  case (Inr s)
  have "lookup st k = Some s" using get Inr assms(1) by (simp add: ceilings_ok_def)
  moreover from this assms(1,3) have "\<not> isExpired m s now \<Longrightarrow> in_time m now s"
    by (auto simp: ceilings_ok_def intro: unexpired_in_time)
  ultimately show ?thesis using Inr assms(4) by (auto simp: after_get_def)
qed (simp add: after_get_def)

lemma after_lock_ok:
  assumes "invar st" and "ss_WithLock ops st k (refresh_locked m now) (None, w) = (oe, st', r, w')"
    and "\<And>s. lookup st k = Some s \<Longrightarrow> in_time m now s"
  shows "phase_ok m S ids (after_lock k now oe r)"
proof (cases oe)
  case None
  with lock_ok [OF assms(1), of k "refresh_locked m now" "(None, w)"] assms(2) obtain s ret
    where s: "lookup st k = Some s" "refresh_locked m now s (None, w) = (Inr ret, r, w')" by auto
  from s(2) have "\<exists>s'. r = Some s' \<and> in_time m now s'"
    by (cases rule: refresh_locked_Inr) (use assms(3) [OF s(1)] in auto)
  with None show ?thesis by (simp add: after_lock_def)
qed (simp add: after_lock_def)

lemma resolve_step_ok:
  assumes "ceilings_ok m st" and "sm_store m = ops" and "0 < sm_absoluteTimeout m" and "dom (lookup st) \<subseteq> ids"
    and "phase_ok m (lookup st) ids p" and "resolve_step uuid_ok m (p, st, w) = (p', st', w')"
  shows "phase_ok m (lookup st') ids p'"
proof -
  have "invar st" using assms(1) by (simp add: ceilings_ok_def)
  note lock = after_lock_ok [OF this] and got = after_get_ok [OF assms(1-4)]
  show ?thesis
  proof (cases p)
    case (Renewing k now)
    with assms(2,6) obtain oe r where "ss_WithLock ops st k (refresh_locked m now) (None, w) = (oe, st', r, w')"
      and "p' = after_lock k now oe r" by (auto split: prod.splits)
    with lock [of k m now w oe st' r w'] assms(5) Renewing show ?thesis by simp
  qed (use assms(2,5,6) got in \<open>auto simp: after_verify_def split: if_splits prod.splits option.splits sum.splits\<close>)
qed

text \<open>The invariant of the server.\<close>

definition sv_inv :: "('st, 'w) session_manager \<Rightarrow> ('st, 'w) server \<Rightarrow> bool" where
  "sv_inv m s \<longleftrightarrow> ceilings_ok m (sv_store s) \<and> dom (lookup (sv_store s)) \<subseteq> sv_ids s \<and>
     (\<forall>i p. sv_calls s i = Some p \<longrightarrow> phase_ok m (lookup (sv_store s)) (sv_ids s) p)"

lemma sv_inv_step:
  assumes "sv_inv m s" and "sv_step uuid_ok new_uuid m lookup s s'" and "sm_store m = ops" and "0 < sm_absoluteTimeout m"
  shows "sv_inv m s'"
proof -
  let ?S = "lookup (sv_store s)" and ?S' = "lookup (sv_store s')"
  have ok: "ceilings_ok m (sv_store s)" "invar (sv_store s)" and cover: "dom ?S \<subseteq> sv_ids s"
    and phases: "sv_calls s i = Some p \<Longrightarrow> phase_ok m ?S (sv_ids s) p" for i p
    using assms(1) by (auto simp: sv_inv_def ceilings_ok_def)
  note ids = sv_step_ids [OF assms(2)] and cont = sv_step_continues [OF assms(2,3) ok(2)]
  have "ceilings_ok m (sv_store s')"
    using ceilings_ok_step [OF sv_step_sm [OF assms(2)] assms(3)] ok(1) by simp
  moreover have "dom ?S' \<subseteq> sv_ids s'"
  proof
    fix k
    assume "k \<in> dom ?S'"
    with cont [of k] continues_None [of ?S ?S' k] cover ids show "k \<in> sv_ids s'" by blast
  qed
  moreover have "phase_ok m ?S' (sv_ids s') p" if p: "sv_calls s' i = Some p" for i p
  proof -
    have kept: "phase_ok m ?S' (sv_ids s') p" if "sv_calls s i = Some p"
      using phase_ok_continues [OF phases [OF that] ids] cont by blast
    from assms(2) show ?thesis
    proof cases
      case (sv_advance j q q' st' w')
      with resolve_step_ok [OF ok(1) assms(3,4) cover phases [OF sv_advance(2)] sv_advance(3)] p kept show ?thesis
        by (cases "j = i") auto
    qed (use p kept in \<open>auto split: if_splits\<close>)
  qed
  ultimately show ?thesis by (simp add: sv_inv_def)
qed

lemma sv_inv_reachable:
  assumes "sv_reachable uuid_ok new_uuid m lookup s s'" and "sm_store m = ops" and "0 < sm_absoluteTimeout m"
    and "fresh_server lookup s" and "invar (sv_store s)"
  shows "sv_inv m s'"
proof -
  have "preserved (sv_step uuid_ok new_uuid m lookup) (sv_inv m)"
    by unfold_locales (rule sv_inv_step [OF _ _ assms(2,3)])
  from preserved.reachable_keeps [OF this] assms(1,4,5) show ?thesis
    by (simp add: sv_reachable_def sv_inv_def fresh_server_def ceilings_ok_def)
qed

end

section \<open>Logout\<close>

text \<open>The phases in which a request has been given the session under \<open>k\<close>.\<close>

fun has_session :: "string \<Rightarrow> call_phase \<Rightarrow> bool" where
  "has_session k (Validating j now s) \<longleftrightarrow> j = k"
| "has_session k (Touching j now s) \<longleftrightarrow> j = k"
| "has_session k (Handed j now r) \<longleftrightarrow> j = k"
| "has_session k _ \<longleftrightarrow> False"

context session_contract
begin

lemma absent_stays_out:
  assumes "invar st" and "sm_store m = ops" and "lookup st k = None" and "\<not> has_session k p"
    and "resolve_step uuid_ok m (p, st, w) = (p', st', w')"
  shows "\<not> has_session k p'"
proof (cases p)
  case (Loading j now)
  with get_absent [OF assms(1,3)] assms(2,5) show ?thesis
    by (auto simp: after_get_def split: sum.splits if_splits)
next
  case (Renewing j now)
  with assms(2,5) obtain oe r where lock: "ss_WithLock ops st j (refresh_locked m now) (None, w) = (oe, st', r, w')"
    and p': "p' = after_lock j now oe r" by (auto split: prod.splits)
  have "j \<noteq> k" if "oe = None" using lock_ok [OF assms(1)] lock that assms(3) by fastforce
  then show ?thesis by (auto simp: p' after_lock_def split: option.splits)
qed (use assms(2,4,5) in \<open>auto simp: after_verify_def split: if_splits prod.splits option.splits sum.splits\<close>)

text \<open>The id is used up and names nothing, and the calls in \<open>I\<close> have not got hold of its session.\<close>

definition locked_out :: "string \<Rightarrow> nat set \<Rightarrow> ('st, 'w) server \<Rightarrow> bool" where
  "locked_out k I s \<longleftrightarrow> invar (sv_store s) \<and> k \<in> sv_ids s \<and> lookup (sv_store s) k = None \<and>
     (\<forall>i \<in> I. \<forall>p. sv_calls s i = Some p \<longrightarrow> \<not> has_session k p)"

lemma sm_step_invar:
  assumes "sm_step new_uuid m a b" and "sm_store m = ops" and "invar (fst a)"
  shows "invar (fst b)"
  using assms
proof (induction rule: sm_step.induct)
  case (sm_created st token cl w r st' w')
  then obtain s oe where "ss_Create ops st s = (oe, st')" using sm_Create_ceiling [OF sm_created(1)] by auto
  with create [of st s oe st'] sm_created show ?case by simp
next
  case (sm_locked st k now w e st' x w')
  then show ?case
    using lock_ok [of st k "refresh_locked m now" "(None, w)" st' "(x, w')"] lock_err [of st k "refresh_locked m now" "(None, w)"]
    by (cases e) auto
qed (auto simp: CleanupExpired_def dest: touch delete delete_expired)

lemma locked_out_step:
  assumes "locked_out k I s" and "sv_step uuid_ok new_uuid m lookup s s'" and "sm_store m = ops"
  shows "locked_out k I s'"
proof -
  have iv: "invar (sv_store s)" and k: "k \<in> sv_ids s" "lookup (sv_store s) k = None"
    and out: "i \<in> I \<Longrightarrow> sv_calls s i = Some p \<Longrightarrow> \<not> has_session k p" for i p
    using assms(1) by (auto simp: locked_out_def)
  have "invar (sv_store s')" using sm_step_invar [OF sv_step_sm [OF assms(2)] assms(3)] iv by simp
  moreover have "lookup (sv_store s') k = None"
    using continues_None [OF sv_step_continues [OF assms(2,3) iv] k(2)] k(1) by blast
  moreover have "\<not> has_session k p" if p: "i \<in> I" "sv_calls s' i = Some p" for i p
    using assms(2)
  proof cases
    case (sv_advance j q q' st' w')
    with absent_stays_out [OF iv assms(3) k(2) _ sv_advance(3)] p out show ?thesis by (cases "j = i") auto
  qed (use p out in \<open>auto split: if_splits\<close>)
  ultimately show ?thesis using sv_step_ids [OF assms(2)] k(1) by (auto simp: locked_out_def)
qed

lemma locked_out_reachable:
  assumes "sv_reachable uuid_ok new_uuid m lookup s s'" and "sm_store m = ops" and "locked_out k I s"
  shows "locked_out k I s'"
proof -
  have "preserved (sv_step uuid_ok new_uuid m lookup) (locked_out k I)"
    by unfold_locales (rule locked_out_step [OF _ _ assms(2)])
  from preserved.reachable_keeps [OF this] assms(1,3) show ?thesis by (simp add: sv_reachable_def)
qed

end

section \<open>Refresh grants\<close>

definition grants_of :: "string \<Rightarrow> grant list \<Rightarrow> grant list" where
  "grants_of k gs = filter (\<lambda>g. gr_ID g = k) gs"

text \<open>A grant follows another: it presents the refresh token that one brought, and only once its access token has run out.\<close>

definition follows :: "grant \<Rightarrow> grant \<Rightarrow> bool" where
  "follows newer older \<longleftrightarrow> gr_Presented newer = ts_RefreshToken (gr_Tokens older) \<and>
     ts_AccessTokenExpiresAt (gr_Tokens older) \<le> gr_Now newer"

definition same_tokens :: "session_table \<Rightarrow> session_table \<Rightarrow> string \<Rightarrow> bool" where
  "same_tokens S S' k \<longleftrightarrow> (\<forall>s'. S' k = Some s' \<longrightarrow> (\<exists>s. S k = Some s \<and> se_Tokens s' = se_Tokens s))"

definition newest_stored :: "session_table \<Rightarrow> grant list \<Rightarrow> string \<Rightarrow> bool" where
  "newest_stored S gs k \<longleftrightarrow> (\<forall>s g gs'. S k = Some s \<longrightarrow> grants_of k gs = g # gs' \<longrightarrow> se_Tokens s = gr_Tokens g)"

lemma newest_stored_same: "newest_stored S gs k \<Longrightarrow> same_tokens S S' k \<Longrightarrow> newest_stored S' gs k"
  by (fastforce simp: newest_stored_def same_tokens_def)

lemma granted_other: "(\<And>k now. p \<noteq> Renewing k now) \<Longrightarrow> granted m lookup p st w = []"
  by (cases p) (auto simp: granted_def)

context reliable_store
begin

lemma renewing_grants:
  assumes "invar st" and "sm_store m = ops" and "resolve_step uuid_ok m (Renewing k now, st, w) = (p', st', w')"
  obtains (unchanged) "granted m lookup (Renewing k now) st w = []" "lookup st' = lookup st"
  | (renewed) s s' where "lookup st k = Some s" "lookup st' = (lookup st)(k \<mapsto> s')"
      "granted m lookup (Renewing k now) st w =
         [\<lparr>gr_ID = k, gr_Now = now, gr_Presented = ts_RefreshToken (se_Tokens s), gr_Tokens = se_Tokens s'\<rparr>]"
      "ts_AccessTokenExpiresAt (se_Tokens s) \<le> now"
proof -
  let ?fn = "refresh_locked m now"
  from assms(2,3) obtain oe r where lock: "ss_WithLock ops st k ?fn (None, w) = (oe, st', r, w')"
    by (auto split: prod.splits)
  show thesis
  proof (cases oe)
    case (Some e)
    then have same: "lookup st' = lookup st" using lock_err [OF assms(1)] lock by simp
    have "granted m lookup (Renewing k now) st w = []"
    proof (cases "lookup st k")
      case stored: (Some s)
      obtain ret x where fn: "?fn s (None, w) = (ret, x)" by (cases "?fn s (None, w)")
      from lock_runs [of st k s ?fn "(None, w)", OF assms(1) stored fn] lock Some have "\<exists>e. ret = Inl e"
        by (auto split: sum.splits)
      with stored fn show ?thesis by (auto simp: granted_def)
    qed (simp add: granted_def)
    with same unchanged show thesis by blast
  next
    case None
    with lock_ok [OF assms(1)] lock obtain s ret where s: "lookup st k = Some s" "?fn s (None, w) = (Inr ret, r, w')"
      "lookup st' = (case ret of None \<Rightarrow> lookup st | Some s' \<Rightarrow> (lookup st)(k \<mapsto> s'))" by blast
    from s(2) show thesis
      by (cases rule: refresh_locked_Inr) (use s unchanged renewed in \<open>auto simp: granted_def\<close>)
  qed
qed

lemma touch_same_tokens: "invar st \<Longrightarrow> same_tokens (lookup st) (lookup (snd (ss_Touch ops st j t))) k"
  using touch [of st j t] by (cases "ss_Touch ops st j t") (auto simp: same_tokens_def split: option.splits if_splits)

lemma delete_same_tokens: "invar st \<Longrightarrow> same_tokens (lookup st) (lookup (snd (ss_Delete ops st j))) k"
  using delete [of st j] by (cases "ss_Delete ops st j") (auto simp: same_tokens_def split: option.splits if_splits)

lemma resolve_step_same_tokens:
  assumes "invar st" and "sm_store m = ops" and "resolve_step uuid_ok m (p, st, w) = (p', st', w')"
    and "\<And>k now. p \<noteq> Renewing k now"
  shows "same_tokens (lookup st) (lookup st') k"
proof -
  have same: "same_tokens (lookup st) (lookup st) k" by (simp add: same_tokens_def)
  show ?thesis
    using assms same touch_same_tokens [OF assms(1)] delete_same_tokens [OF assms(1)]
    by (cases p) (auto split: if_splits prod.splits)
qed

lemma sv_step_same_tokens:
  assumes "sv_step uuid_ok new_uuid m lookup s s'" and "sm_store m = ops" and "invar (sv_store s)" and "k \<in> sv_ids s"
    and "\<And>i k now. sv_calls s i = Some (Renewing k now) \<Longrightarrow> sv_calls s' i = Some (Renewing k now)"
  shows "same_tokens (lookup (sv_store s)) (lookup (sv_store s')) k"
  using assms
proof (induction rule: sv_step.induct)
  case (sv_login s token cl r st' w')
  then have "k \<noteq> fst (new_uuid (sv_world s))" by auto
  with create_continues [OF sv_login(4,3,1)] show ?case by (simp add: same_tokens_def)
next
  case (sv_logout s j oe st')
  then show ?case using delete_same_tokens [of "sv_store s" j k] by (simp add: sm_Delete_def)
next
  case (sv_cleanup s now r st')
  then show ?case using delete_expired [of "sv_store s" now r st']
    by (auto simp: CleanupExpired_def same_tokens_def split: sum.splits option.splits if_splits)
next
  case (sv_advance s i p p' st' w')
  have "p \<noteq> Renewing j now" for j now
  proof
    assume "p = Renewing j now"
    with sv_advance(1,2) sv_advance(6) [of i j now] show False
      by (auto simp: after_lock_def split: prod.splits option.splits if_splits)
  qed
  from resolve_step_same_tokens [OF sv_advance(4,3,2) this] show ?case by simp
qed (simp_all add: same_tokens_def)

text \<open>The invariant: the grants of each session form a chain, and the store holds what the newest one brought.\<close>

definition grants_inv :: "('a, 'b) server \<Rightarrow> bool" where
  "grants_inv s \<longleftrightarrow> invar (sv_store s) \<and> dom (lookup (sv_store s)) \<subseteq> sv_ids s \<and> gr_ID ` set (sv_grants s) \<subseteq> sv_ids s \<and>
     (\<forall>k. successively follows (grants_of k (sv_grants s)) \<and> newest_stored (lookup (sv_store s)) (sv_grants s) k)"

lemma grants_inv_renewing:
  assumes "grants_inv s" and "sm_store m = ops" and "resolve_step uuid_ok m (Renewing k now, sv_store s, sv_world s) = (p', st', w')"
  shows "gr_ID ` set (granted m lookup (Renewing k now) (sv_store s) (sv_world s) @ sv_grants s) \<subseteq> sv_ids s \<and>
    successively follows (grants_of j (granted m lookup (Renewing k now) (sv_store s) (sv_world s) @ sv_grants s)) \<and>
    newest_stored (lookup st') (granted m lookup (Renewing k now) (sv_store s) (sv_world s) @ sv_grants s) j"
proof -
  have iv: "invar (sv_store s)" and cover: "dom (lookup (sv_store s)) \<subseteq> sv_ids s" and ids: "gr_ID ` set (sv_grants s) \<subseteq> sv_ids s"
    and chain: "successively follows (grants_of j (sv_grants s))"
    and newest: "newest_stored (lookup (sv_store s)) (sv_grants s) j"
    using assms(1) by (auto simp: grants_inv_def)
  from iv assms(2,3) show ?thesis
  proof (cases rule: renewing_grants)
    case unchanged
    with ids chain newest show ?thesis by simp
  next
    case (renewed t t')
    from renewed(1) cover have "k \<in> sv_ids s" by auto
    with renewed ids chain newest show ?thesis
      by (cases "grants_of j (sv_grants s)") (auto simp: grants_of_def newest_stored_def follows_def)
  qed
qed

lemma grants_inv_step:
  assumes "grants_inv s" and "sv_step uuid_ok new_uuid m lookup s s'" and "sm_store m = ops"
  shows "grants_inv s'"
proof -
  let ?S = "lookup (sv_store s)" and ?S' = "lookup (sv_store s')"
  have iv: "invar (sv_store s)" and cover: "dom ?S \<subseteq> sv_ids s" and ids: "gr_ID ` set (sv_grants s) \<subseteq> sv_ids s"
    and chain: "\<And>k. successively follows (grants_of k (sv_grants s))" and newest: "\<And>k. newest_stored ?S (sv_grants s) k"
    using assms(1) by (auto simp: grants_inv_def)
  note grow = sv_step_ids [OF assms(2)] and cont = sv_step_continues [OF assms(2,3) iv]
  have "invar (sv_store s')" using sm_step_invar [OF sv_step_sm [OF assms(2)] assms(3)] iv by simp
  moreover have "dom ?S' \<subseteq> sv_ids s'"
  proof
    fix k
    assume "k \<in> dom ?S'"
    with cont [of k] continues_None [of ?S ?S' k] cover grow show "k \<in> sv_ids s'" by blast
  qed
  moreover have "gr_ID ` set (sv_grants s') \<subseteq> sv_ids s' \<and> successively follows (grants_of k (sv_grants s')) \<and>
      newest_stored ?S' (sv_grants s') k" for k
  proof (cases "\<exists>i j now. sv_calls s i = Some (Renewing j now) \<and> sv_calls s' i \<noteq> Some (Renewing j now)")
    case True
    then obtain i j now where call: "sv_calls s i = Some (Renewing j now)" "sv_calls s' i \<noteq> Some (Renewing j now)" by blast
    from assms(2) call obtain p' st' w' where "resolve_step uuid_ok m (Renewing j now, sv_store s, sv_world s) = (p', st', w')"
      and "sv_store s' = st'" "sv_ids s' = sv_ids s"
      and "sv_grants s' = granted m lookup (Renewing j now) (sv_store s) (sv_world s) @ sv_grants s"
      by cases (auto simp del: resolve_step.simps split: if_splits)
    with grants_inv_renewing [OF assms(1,3), of uuid_ok j now p' st' w' k] show ?thesis by simp
  next
    case False
    from assms(2) False have quiet: "sv_grants s' = sv_grants s"
      by cases (auto intro!: granted_other simp: after_lock_def split: if_splits prod.splits option.splits)
    have "newest_stored ?S' (sv_grants s) k"
    proof (cases "k \<in> sv_ids s")
      case True
      with sv_step_same_tokens [OF assms(2,3) iv True] False newest newest_stored_same show ?thesis by blast
    next
      case False
      with ids have "grants_of k (sv_grants s) = []" by (auto simp: grants_of_def filter_empty_conv)
      then show ?thesis by (simp add: newest_stored_def)
    qed
    with quiet ids grow chain show ?thesis by auto
  qed
  ultimately show ?thesis by (simp add: grants_inv_def)
qed

lemma grants_inv_reachable:
  assumes "sv_reachable uuid_ok new_uuid m lookup s s'" and "sm_store m = ops" and "fresh_server lookup s" and "invar (sv_store s)"
  shows "grants_inv s'"
proof -
  have keeps: "preserved (sv_step uuid_ok new_uuid m lookup) grants_inv"
    by unfold_locales (rule grants_inv_step [OF _ _ assms(2)])
  have start: "grants_inv s"
    using assms(3,4) by (simp add: grants_inv_def fresh_server_def grants_of_def newest_stored_def)
  show ?thesis by (rule preserved.reachable_keeps [OF keeps assms(1) [unfolded sv_reachable_def] start])
qed

end

section \<open>Schedules\<close>

text \<open>A schedule says who acts next; running one is a program, and its states are the reachable ones.\<close>

datatype 'w sv_action =
    Call nat string
  | Advance nat
  | LogIn oauth2_token claims
  | LogOut string
  | Sweep instant
  | Tick 'w

fun sv_do ::
  "(string \<Rightarrow> bool) \<Rightarrow> ('w \<Rightarrow> string \<times> 'w) \<Rightarrow> ('st, 'w) session_manager \<Rightarrow> ('st \<Rightarrow> string \<Rightarrow> session option) \<Rightarrow>
   'w sv_action \<Rightarrow> ('st, 'w) server \<Rightarrow> ('st, 'w) server"
where
  "sv_do uuid_ok new_uuid m lookup (Call i k) s =
     (case sv_calls s i of None \<Rightarrow> s\<lparr>sv_calls := (sv_calls s)(i \<mapsto> Starting k)\<rparr> | Some _ \<Rightarrow> s)"
| "sv_do uuid_ok new_uuid m lookup (Advance i) s =
     (case sv_calls s i of
        None \<Rightarrow> s
      | Some p \<Rightarrow>
          (case resolve_step uuid_ok m (p, sv_store s, sv_world s) of
             (p', st', w') \<Rightarrow>
               s\<lparr>sv_calls := (sv_calls s)(i \<mapsto> p'), sv_store := st', sv_world := w',
                 sv_grants := granted m lookup p (sv_store s) (sv_world s) @ sv_grants s\<rparr>))"
| "sv_do uuid_ok new_uuid m lookup (LogIn token cl) s =
     (if fst (new_uuid (sv_world s)) \<in> sv_ids s then s
      else (case sm_Create new_uuid m (sv_store s) token cl (sv_world s) of
              (r, st', w') \<Rightarrow>
                s\<lparr>sv_store := st', sv_world := w', sv_ids := insert (fst (new_uuid (sv_world s))) (sv_ids s)\<rparr>))"
| "sv_do uuid_ok new_uuid m lookup (LogOut k) s = s\<lparr>sv_store := snd (sm_Delete m (sv_store s) k)\<rparr>"
| "sv_do uuid_ok new_uuid m lookup (Sweep now) s = s\<lparr>sv_store := snd (CleanupExpired m (sv_store s) now)\<rparr>"
| "sv_do uuid_ok new_uuid m lookup (Tick w) s = s\<lparr>sv_world := w\<rparr>"

lemma sv_do_step:
  "sv_do uuid_ok new_uuid m lookup a s = s \<or> sv_step uuid_ok new_uuid m lookup s (sv_do uuid_ok new_uuid m lookup a s)"
  by (cases a) (auto intro: sv_step.intros simp: prod_eq_iff split: option.split prod.split)

lemma sv_step_do:
  "sv_step uuid_ok new_uuid m lookup s s' \<Longrightarrow> \<exists>a. s' = sv_do uuid_ok new_uuid m lookup a s"
proof (induction rule: sv_step.induct)
  case (sv_call s i k)
  then show ?case by (intro exI [of _ "Call i k"]) simp
next
  case (sv_advance s i p p' st' w')
  then show ?case by (intro exI [of _ "Advance i"]) simp
next
  case (sv_login s token cl r st' w')
  then show ?case by (intro exI [of _ "LogIn token cl"]) simp
next
  case (sv_logout s k oe st')
  then show ?case by (intro exI [of _ "LogOut k"]) simp
next
  case (sv_cleanup s now r st')
  then show ?case by (intro exI [of _ "Sweep now"]) simp
next
  case (sv_tick s w')
  then show ?case by (intro exI [of _ "Tick w'"]) simp
qed

lemma schedule_reachable: "sv_reachable uuid_ok new_uuid m lookup s (fold (sv_do uuid_ok new_uuid m lookup) as s)"
proof (induction "as" arbitrary: s)
  case (Cons a as)
  with sv_do_step [of uuid_ok new_uuid m lookup a s] show ?case
    unfolding sv_reachable_def by (metis converse_rtranclp_into_rtranclp fold_simps(2))
qed (simp add: sv_reachable_def)

lemma reachable_schedule:
  assumes "sv_reachable uuid_ok new_uuid m lookup s s'"
  shows "\<exists>as. s' = fold (sv_do uuid_ok new_uuid m lookup) as s"
  using assms unfolding sv_reachable_def
proof (induction rule: rtranclp_induct)
  case base
  show ?case by (intro exI [of _ "[]"]) simp
next
  case (step t u)
  then obtain as a where "t = fold (sv_do uuid_ok new_uuid m lookup) as s" "u = sv_do uuid_ok new_uuid m lookup a t"
    using sv_step_do by blast
  then show ?case by (intro exI [of _ "as @ [a]"]) simp
qed

text \<open>The run of a schedule rests when the schedule is over.\<close>

lemma schedule_run:
  "run_of (sv_step uuid_ok new_uuid m lookup) (\<lambda>n. fold (sv_do uuid_ok new_uuid m lookup) (take n as) s)"
  unfolding run_of_def
proof
  fix n
  let ?r = "\<lambda>n. fold (sv_do uuid_ok new_uuid m lookup) (take n as) s"
  show "?r (Suc n) = ?r n \<or> sv_step uuid_ok new_uuid m lookup (?r n) (?r (Suc n))"
  proof (cases "n < length as")
    case True
    then have "?r (Suc n) = sv_do uuid_ok new_uuid m lookup (as ! n) (?r n)" by (simp add: take_Suc_conv_app_nth)
    with sv_do_step show ?thesis by metis
  qed simp
qed

lemma schedule_fair:
  assumes "\<not> enabled_in act (fold (sv_do uuid_ok new_uuid m lookup) as s)"
  shows "weakly_fair act (\<lambda>n. fold (sv_do uuid_ok new_uuid m lookup) (take n as) s)"
  unfolding weakly_fair_def
proof (intro allI impI)
  fix n
  let ?r = "\<lambda>n. fold (sv_do uuid_ok new_uuid m lookup) (take n as) s"
  assume "\<forall>m \<ge> n. enabled_in act (?r m)"
  then have "enabled_in act (?r (n + length as))" using le_add1 by blast
  with assms show "\<exists>m \<ge> n. act (?r m) (?r (Suc m))" by simp
qed

text \<open>A server over the in-memory store, whose issuer honours every second refresh.\<close>

definition demo_flaky :: "(fake_store, instant \<times> bool) session_manager" where
  "demo_flaky = \<lparr>sm_store = fake_ops, sm_refresh = (\<lambda>rt (t, ok). if ok then (Inr demo_token, t, False) else (Inl (Foreign 0), t, True)),
     sm_verifier = None, sm_clientID = ''app'', sm_idleTimeout = 0, sm_absoluteTimeout = 12 * Hour, sm_now = fst\<rparr>"

definition demo_server :: "'w \<Rightarrow> (fake_store, 'w) server" where
  "demo_server w = \<lparr>sv_store = \<lparr>fs_data = [], fs_withLockCall = 0\<rparr>, sv_world = w, sv_calls = Map.empty, sv_ids = {}, sv_grants = []\<rparr>"

definition demo_login :: oauth2_token where
  "demo_login = \<lparr>ot_AccessToken = ''a1'', ot_TokenType = ''Bearer'', ot_RefreshToken = ''r1'', ot_Expiry = 10 * Minute,
     ot_Extra = [''refresh_expires_in'' \<mapsto> JNum 3600]\<rparr>"

definition demo_logged :: session where
  "demo_logged = \<lparr>se_ID = ''u'', se_Tokens = \<lparr>ts_AccessToken = ''a1'', ts_RefreshToken = ''r1'', ts_IDToken = [],
       ts_TokenType = ''Bearer'', ts_Scopes = [], ts_AccessTokenExpiresAt = 10 * Minute, ts_RefreshTokenExpiresAt = Minute + Hour\<rparr>,
     se_Claims = no_claims, se_ExpiresAt = Minute + Hour, se_CreatedAt = Minute, se_UpdatedAt = Minute, se_LastSeenAt = zero_time\<rparr>"

definition demo_renewed :: session where
  "demo_renewed = renewed demo_flaky (30 * Minute) (30 * Minute) demo_token demo_logged"

lemma demo_flaky_simps [simp]:
  "sm_store demo_flaky = fake_ops" "sm_now demo_flaky = fst" "sm_verifier demo_flaky = None" "sm_absoluteTimeout demo_flaky = 12 * Hour"
  by (simp_all add: demo_flaky_def)

lemma demo_flaky_store:
  "session_contract (sm_store demo_flaky) (\<lambda>st. map_of (fs_data st)) (\<lambda>st. wf_map (fs_data st))"
  "reliable_store (sm_store demo_flaky) (\<lambda>st. map_of (fs_data st)) (\<lambda>st. wf_map (fs_data st))"
  using fake.session_contract_axioms fake_reliable.reliable_store_axioms by simp_all

lemma demo_logs_in:
  "sm_Create (\<lambda>w. (''u'', w)) demo_flaky \<lparr>fs_data = [], fs_withLockCall = 0\<rparr> demo_login no_claims (Minute, False) =
     (Inr demo_logged, \<lparr>fs_data = [(''u'', demo_logged)], fs_withLockCall = 0\<rparr>, Minute, False)"
  by (simp add: sm_Create_def fs_Create_def demo_logged_def Let_def demo_login_def tokenSetFrom_def
        computeExpiresAt_def no_tokens_def float_to_int64_def is_int64_def wrap64_def clock_simps)

lemma demo_logged_phase:
  "after_get demo_flaky ''u'' (30 * Minute) (Inr demo_logged) = Renewing ''u'' (30 * Minute)"
  by (simp add: after_get_def isExpired_def demo_logged_def demo_flaky_def clock_simps)

lemma demo_refusal:
  "refresh_locked demo_flaky (30 * Minute) demo_logged (None, 30 * Minute, False) =
     (Inl (Wrapped ''%w: refresh rejected'' [ErrSessionNotFound]), None, 30 * Minute, True)"
  "refresh_locked demo_flaky (30 * Minute) demo_logged (None, 30 * Minute, True) =
     (Inr (Some demo_renewed), Some demo_renewed, 30 * Minute, False)"
  by (simp_all add: refresh_locked_def demo_renewed_def isExpired_def demo_logged_def demo_flaky_def Let_def clock_simps)

definition demo_do :: "(instant \<times> bool) sv_action list \<Rightarrow> (fake_store, instant \<times> bool) server \<Rightarrow> (fake_store, instant \<times> bool) server" where
  "demo_do = fold (sv_do (\<lambda>k. True) (\<lambda>w. (''u'', w)) demo_flaky (\<lambda>st. map_of (fs_data st)))"

text \<open>Two requests find the access token expired; the issuer refuses the refresh of the first and honours that of the second.\<close>

definition demo_race :: "(fake_store, instant \<times> bool) server" where
  "demo_race = demo_do [LogIn demo_login no_claims, Tick (30 * Minute, False), Call 0 ''u'', Call 1 ''u'', Advance 0, Advance 0,
     Advance 1, Advance 1, Advance 0, Advance 1] (demo_server (Minute, False))"

lemma demo_race_eq:
  "sv_store demo_race = \<lparr>fs_data = [(''u'', demo_renewed)], fs_withLockCall = 2\<rparr>"
  "sv_ids demo_race = {''u''}"
  "sv_calls demo_race = [0 \<mapsto> Dropping ''u'' (Wrapped ''%w: refresh rejected'' [ErrSessionNotFound]),
     1 \<mapsto> Handed ''u'' (30 * Minute) (Some demo_renewed)]"
  "sv_grants demo_race =
     [\<lparr>gr_ID = ''u'', gr_Now = 30 * Minute, gr_Presented = ts_RefreshToken (se_Tokens demo_logged), gr_Tokens = se_Tokens demo_renewed\<rparr>]"
  by (simp_all add: demo_race_def demo_do_def demo_server_def demo_logs_in demo_logged_phase demo_refusal fs_Get_def fs_WithLock_def
      after_lock_def notFound_def granted_def fun_eq_iff)

lemma demo_race_reachable:
  "sv_reachable (\<lambda>k. True) (\<lambda>w. (''u'', w)) demo_flaky (\<lambda>st. map_of (fs_data st)) (demo_server (Minute, False)) demo_race"
  unfolding demo_race_def demo_do_def by (rule schedule_reachable)

lemma demo_server_fresh: "fresh_server (\<lambda>st. map_of (fs_data st)) (demo_server w)" "wf_map (fs_data (sv_store (demo_server w)))"
  by (simp_all add: fresh_server_def demo_server_def wf_map_def)

text \<open>
  The deletion after a refused refresh is not under the lock: in between, another request for the same session may be
  granted a refresh, and its renewed session is then deleted by the first. The race above ends so.
\<close>

lemma late_drop:
  "\<exists>s. sv_reachable (\<lambda>k. True) (\<lambda>w. (''u'', w)) demo_flaky (\<lambda>st. map_of (fs_data st)) (demo_server (Minute, False)) s \<and>
     sv_calls s 1 = Some (Handed ''u'' (30 * Minute) (Some demo_renewed)) \<and>
     gr_Tokens (hd (sv_grants s)) = se_Tokens demo_renewed \<and> map_of (fs_data (sv_store s)) ''u'' = None"
proof (intro exI conjI)
  let ?s = "demo_do [Advance 0] demo_race"
  have "sv_reachable (\<lambda>k. True) (\<lambda>w. (''u'', w)) demo_flaky (\<lambda>st. map_of (fs_data st)) demo_race ?s"
    unfolding demo_do_def by (rule schedule_reachable)
  with demo_race_reachable
  show "sv_reachable (\<lambda>k. True) (\<lambda>w. (''u'', w)) demo_flaky (\<lambda>st. map_of (fs_data st)) (demo_server (Minute, False)) ?s"
    unfolding sv_reachable_def by (rule rtranclp_trans)
qed (simp_all add: demo_do_def demo_race_eq granted_def fs_Delete_def)

section \<open>Requests return\<close>

definition sv_advances ::
  "(string \<Rightarrow> bool) \<Rightarrow> ('st, 'w) session_manager \<Rightarrow> ('st \<Rightarrow> string \<Rightarrow> session option) \<Rightarrow> nat \<Rightarrow> ('st, 'w) server \<Rightarrow> ('st, 'w) server \<Rightarrow> bool"
where
  "sv_advances uuid_ok m lookup i s s' \<longleftrightarrow>
     (\<exists>p p' st' w'. sv_calls s i = Some p \<and> phase_result p = None \<and> resolve_step uuid_ok m (p, sv_store s, sv_world s) = (p', st', w') \<and>
        s' = s\<lparr>sv_calls := (sv_calls s)(i \<mapsto> p'), sv_store := st', sv_world := w',
               sv_grants := granted m lookup p (sv_store s) (sv_world s) @ sv_grants s\<rparr>)"

fun phase_rank :: "call_phase \<Rightarrow> nat" where
  "phase_rank (Starting k) = 4"
| "phase_rank (Loading k now) = 3"
| "phase_rank (Validating k now s) = 2"
| "phase_rank (Renewing k now) = 2"
| "phase_rank (Touching k now s) = 1"
| "phase_rank (Dropping k e) = 1"
| "phase_rank _ = 0"

lemma phase_rank_zero: "phase_rank p = 0 \<longleftrightarrow> phase_result p \<noteq> None"
  by (cases p) simp_all

lemma resolve_step_rank:
  "resolve_step uuid_ok m (p, st, w) = (p', st', w') \<Longrightarrow> phase_result p = None \<Longrightarrow> phase_rank p' < phase_rank p"
  by (cases p)
    (auto simp: after_get_def after_verify_def after_lock_def split: if_splits sum.splits option.splits prod.splits)

definition call_rank :: "nat \<Rightarrow> ('st, 'w) server \<Rightarrow> nat" where
  "call_rank i s = (case sv_calls s i of None \<Rightarrow> 0 | Some p \<Rightarrow> phase_rank p)"

definition call_running :: "nat \<Rightarrow> ('st, 'w) server \<Rightarrow> bool" where
  "call_running i s \<longleftrightarrow> (\<exists>p. sv_calls s i = Some p \<and> phase_result p = None)"

definition call_returned :: "nat \<Rightarrow> ('st, 'w) server \<Rightarrow> bool" where
  "call_returned i s \<longleftrightarrow> (\<exists>p. sv_calls s i = Some p \<and> phase_result p \<noteq> None)"

lemma advances_nearer:
  assumes "sv_advances uuid_ok m lookup i s s'" and "call_running i s"
  shows "call_returned i s' \<or> call_running i s' \<and> call_rank i s' < call_rank i s"
proof -
  from assms obtain p p' st' w' where "sv_calls s i = Some p" "phase_result p = None" "sv_calls s' i = Some p'"
    "resolve_step uuid_ok m (p, sv_store s, sv_world s) = (p', st', w')"
    by (auto simp: sv_advances_def call_running_def)
  with resolve_step_rank [of uuid_ok m p "sv_store s" "sv_world s" p' st' w'] show ?thesis
    by (auto simp: call_returned_def call_running_def call_rank_def)
qed

interpretation request: ranked "sv_step uuid_ok new_uuid m lookup" "\<lambda>s. True" "sv_advances uuid_ok m lookup i"
  "call_running i" "call_returned i" "call_rank i"
  for uuid_ok new_uuid m lookup i
proof unfold_locales
  fix s s' :: "('b, 'a) server"
  assume run: "call_running i s"
  show "call_returned i s' \<or> call_running i s' \<and> call_rank i s' \<le> call_rank i s" if "sv_step uuid_ok new_uuid m lookup s s'"
  proof (cases "sv_advances uuid_ok m lookup i s s'")
    case True
    from advances_nearer [OF this run] show ?thesis by auto
  next
    case False
    with that run have "sv_calls s' i = sv_calls s i"
      by cases (auto simp: sv_advances_def call_running_def simp del: resolve_step.simps)
    with run show ?thesis by (simp add: call_running_def call_rank_def)
  qed
  show "enabled_in (sv_advances uuid_ok m lookup i) s"
    using run by (auto simp: enabled_in_def sv_advances_def call_running_def simp del: resolve_step.simps) (metis prod.collapse)
  show "call_returned i s' \<or> call_running i s' \<and> call_rank i s' < call_rank i s" if "sv_advances uuid_ok m lookup i s s'"
    using advances_nearer [OF that run] .
qed simp

section \<open>Properties\<close>

text \<open>
  C12: with an absolute timeout, and however requests, logins, logouts, cleanups and the issuer interleave between the
  calls of the store, a request that hands out a session had read the clock before the session's creation plus that
  timeout; and none returns neither a session nor an error.
\<close>

theorem handed_in_time:
  assumes "session_contract (sm_store m) lookup invar" and "invar (sv_store s0)" and "fresh_server lookup s0"
    and "sv_reachable uuid_ok new_uuid m lookup s0 s" and "0 < sm_absoluteTimeout m"
    and "sv_calls s i = Some (Handed k now r)"
  shows "\<exists>sess. r = Some sess \<and> now < se_CreatedAt sess + sm_absoluteTimeout m"
proof -
  have "session_contract.sv_inv lookup invar m s"
    by (rule session_contract.sv_inv_reachable [OF assms(1,4) refl assms(5,3,2)])
  then have "phase_ok m (lookup (sv_store s)) (sv_ids s) (Handed k now r)"
    using assms(6) unfolding session_contract.sv_inv_def [OF assms(1)] by blast
  then show ?thesis by (simp add: in_time_def)
qed

theorem handed_in_time_witness:
  "\<exists>sess. Some demo_renewed = Some sess \<and> 30 * Minute < se_CreatedAt sess + sm_absoluteTimeout demo_flaky"
proof (rule handed_in_time [OF demo_flaky_store(1) demo_server_fresh(2,1) demo_race_reachable])
  show "sv_calls demo_race 1 = Some (Handed ''u'' (30 * Minute) (Some demo_renewed))" by (simp add: demo_race_eq)
qed (simp add: clock_simps)

text \<open>
  C11: a logout is final. Once the store has deleted a session it never holds one under that id again, whatever the
  requests in flight go on to do, and of the requests for it only those that had been given the session before can
  still hand it out: a request that has not loaded it by then, or is waiting for the lock to refresh it, fails.
\<close>

theorem logout_final:
  assumes "session_contract (sm_store m) lookup invar" and "invar (sv_store s)"
    and "k \<in> sv_ids s" and "sm_Delete m (sv_store s) k = (None, st')"
    and "sv_reachable uuid_ok new_uuid m lookup (s\<lparr>sv_store := st'\<rparr>) s'"
  shows "lookup (sv_store s') k = None \<and>
    (\<forall>i now r. sv_calls s' i = Some (Handed k now r) \<longrightarrow> (\<exists>p. sv_calls s i = Some p \<and> has_session k p))"
proof -
  let ?t = "s\<lparr>sv_store := st'\<rparr>"
  have gone: "invar st'" "lookup st' k = None"
    using session_contract.delete [OF assms(1,2), of k None st'] assms(4) by (simp_all add: sm_Delete_def)
  let ?I = "{i. \<forall>p. sv_calls s i = Some p \<longrightarrow> \<not> has_session k p}"
  have "session_contract.locked_out lookup invar k ?I ?t"
    using gone assms(3) by (simp add: session_contract.locked_out_def [OF assms(1)])
  then have "session_contract.locked_out lookup invar k ?I s'"
    by (rule session_contract.locked_out_reachable [OF assms(1,5) refl])
  then show ?thesis unfolding session_contract.locked_out_def [OF assms(1)] by fastforce
qed

theorem logout_final_witness:
  "map_of (fs_data (sv_store (demo_do [Call 2 ''u'', Advance 2, Advance 2, Advance 0]
     (demo_race\<lparr>sv_store := \<lparr>fs_data = [], fs_withLockCall = 2\<rparr>\<rparr>)))) ''u'' = None"
proof -
  let ?t = "demo_race\<lparr>sv_store := \<lparr>fs_data = [], fs_withLockCall = 2\<rparr>\<rparr>"
  have del: "sm_Delete demo_flaky (sv_store demo_race) ''u'' = (None, \<lparr>fs_data = [], fs_withLockCall = 2\<rparr>)"
    by (simp add: sm_Delete_def demo_race_eq fs_Delete_def)
  have "wf_map (fs_data (sv_store demo_race))" and "''u'' \<in> sv_ids demo_race" by (simp_all add: demo_race_eq wf_map_def)
  from logout_final [OF demo_flaky_store(1) this del schedule_reachable] show ?thesis unfolding demo_do_def by blast
qed

text \<open>
  C10: over a store that does not fail, and however requests interleave, the refresh grants of a session form a
  chain: each presents the refresh token the one before it brought, never an older one, and only when the clock of
  its request is at or past the expiry of the access token that came with it; the stored session carries the tokens of
  the newest grant. So of the requests that find the access token expired at the same time one asks the issuer.
\<close>

theorem refresh_grants_chain:
  assumes "reliable_store (sm_store m) lookup invar" and "invar (sv_store s0)" and "fresh_server lookup s0"
    and "sv_reachable uuid_ok new_uuid m lookup s0 s"
  shows "successively (\<lambda>newer older. gr_Presented newer = ts_RefreshToken (gr_Tokens older) \<and>
      ts_AccessTokenExpiresAt (gr_Tokens older) \<le> gr_Now newer) (grants_of k (sv_grants s)) \<and>
    (\<forall>sess g gs. lookup (sv_store s) k = Some sess \<and> grants_of k (sv_grants s) = g # gs \<longrightarrow> se_Tokens sess = gr_Tokens g)"
proof -
  have "reliable_store.grants_inv lookup invar s"
    by (rule reliable_store.grants_inv_reachable [OF assms(1,4) refl assms(3,2)])
  then have "successively follows (grants_of k (sv_grants s))" "newest_stored (lookup (sv_store s)) (sv_grants s) k"
    unfolding reliable_store.grants_inv_def [OF assms(1)] by blast+
  then show ?thesis unfolding newest_stored_def follows_def [abs_def] by blast
qed

theorem refresh_grants_chain_witness:
  "\<exists>g. sv_grants demo_race = [g] \<and> map_of (fs_data (sv_store demo_race)) ''u'' = Some demo_renewed \<and>
     se_Tokens demo_renewed = gr_Tokens g"
proof -
  obtain g where g: "sv_grants demo_race = [g]" "grants_of ''u'' (sv_grants demo_race) = [g]"
    by (simp add: demo_race_eq grants_of_def)
  moreover have "map_of (fs_data (sv_store demo_race)) ''u'' = Some demo_renewed" by (simp add: demo_race_eq)
  ultimately show ?thesis
    using refresh_grants_chain [OF demo_flaky_store(2) demo_server_fresh(2,1) demo_race_reachable, of "''u''"] by blast
qed


definition demo_schedule :: "(instant \<times> bool) sv_action list" where
  "demo_schedule = [Call 0 ''u'', Advance 0, Advance 0]"


end
