(* ===== verification/Application.thy ===== *)
theory Application
  imports Chain Requests
begin

text \<open>
  The login handlers and the middlewares together (\<^verbatim>\<open>src/httpserver/middlewares\<close> over \<^verbatim>\<open>src/oidcauth\<close>): a browser that logs in,
  sends requests through the guarded chain and logs out. What the browser does with the cookies of an answer is the
  documented behaviour of an HTTP client; everything else is the handlers and the chain of the other theories.
\<close>

section \<open>The browser\<close>

text \<open>A cookie with a negative maximum age is removed; 0 leaves the attribute out and the cookie is kept.\<close>

fun set_cookie :: "effect \<Rightarrow> (string \<Rightarrow> string option) \<Rightarrow> string \<Rightarrow> string option" where
  "set_cookie (SetCookie ck) jar = (if ck_MaxAge ck < 0 then jar(ck_Name ck := None) else jar(ck_Name ck \<mapsto> ck_Value ck))"
| "set_cookie _ jar = jar"

definition jar_after :: "effect list \<Rightarrow> (string \<Rightarrow> string option) \<Rightarrow> string \<Rightarrow> string option" where
  "jar_after effs jar = fold set_cookie effs jar"

text \<open>
  A request from that browser to a route whose middlewares are configured with the names of the handlers: it sends the
  cookies, no bearer token, and echoes the CSRF cookie in the header.
\<close>

definition browser_sends :: "(string \<Rightarrow> string option) \<Rightarrow> auth_cookie_options \<Rightarrow> string \<Rightarrow> csrf_options \<Rightarrow> request \<Rightarrow> bool" where
  "browser_sends jar cookies cookie copts rq \<longleftrightarrow>
     sessionCookieName cookie = ac_sessionName cookies \<and> co_CookieName (csrf_withDefaults copts) = ac_csrfName cookies \<and>
     rq_Cookie rq = jar \<and> rq_Header rq ''Authorization'' = [] \<and>
     jar (ac_csrfName cookies) = Some (rq_Header rq (co_HeaderName (csrf_withDefaults copts)))"

section \<open>A login\<close>

text \<open>
  The callback went all the way: the issuer reported no error, the state is one the handler signed, the issuer exchanged
  the code with the state's verifier, the verifier read claims \<open>cl\<close> from the access token, and the session was stored.
\<close>

definition logs_in ::
  "('e, 'w) auth_env \<Rightarrow> ('st, 'w, 'e) auth_handler \<Rightarrow> request \<Rightarrow> 'st \<times> 'w \<Rightarrow> session \<Rightarrow> claims \<Rightarrow> 'st \<times> 'w \<Rightarrow> bool"
where
  "logs_in env h rq sw s cl sw' \<longleftrightarrow>
     (\<exists>ls token w1 w2 w3.
        rq_Query rq ''error'' = [] \<and> rq_Query rq ''code'' \<noteq> [] \<and>
        decodeState env h (au_now env (snd sw)) (rq_Query rq ''state'') = Inr ls \<and>
        Exchange (au_oauth2 env) (ah_flow h) (rq_Query rq ''code'') (ls_Verifier ls) (snd sw) = (Inr token, w1) \<and>
        ah_verifier h (ot_AccessToken token) w1 = (Inr cl, w2) \<and>
        sm_Create (au_new_uuid env) (ah_sessions h) (fst sw) token cl w2 = (Inr s, fst sw', w3) \<and>
        snd sw' = snd (au_random env 24 w3))"

definition session_cookies :: "('e, 'w) auth_env \<Rightarrow> ('st, 'w, 'e) auth_handler \<Rightarrow> session \<Rightarrow> 'w \<Rightarrow> effect list" where
  "session_cookies env h s w =
     [setCookie h (ac_sessionName (ah_cookies h)) (se_ID s) (max 0 (time_sub (se_ExpiresAt s) (au_now env w))) True,
      setCookie h (ac_csrfName (ah_cookies h)) (b64_encode (fst (au_random env 24 w)))
        (max 0 (time_sub (se_ExpiresAt s) (au_now env w))) False]"

lemma applySession_cookies: "applySession env h s w = (session_cookies env h s w, snd (au_random env 24 w))"
  by (simp add: applySession_eq session_cookies_def Let_def split: prod.split)

lemma Callback_outcome:
  assumes "Callback env h rq st w = (effs, st', w')"
  obtains (refused) status body where "effs = [noStore, AbortWithStatusJSON status body]"
      "st' = st \<or> (\<exists>token cl w2 e w3. sm_Create (au_new_uuid env) (ah_sessions h) st token cl w2 = (Inl e, st', w3))"
  | (session) s cl w3 url where "logs_in env h rq (st, w) s cl (st', w')"
      "effs = noStore # session_cookies env h s w3 @ [Redirect 302 url]"
proof -
  have "(\<exists>status body. effs = [noStore, AbortWithStatusJSON status body] \<and>
      (st' = st \<or> (\<exists>token cl w2 e w3. sm_Create (au_new_uuid env) (ah_sessions h) st token cl w2 = (Inl e, st', w3)))) \<or>
    (\<exists>s cl w3 url. logs_in env h rq (st, w) s cl (st', w') \<and> effs = noStore # session_cookies env h s w3 @ [Redirect 302 url])"
    using assms unfolding Callback_def
    by (auto simp: applySession_cookies respond_defs logs_in_def split: if_splits sum.splits prod.splits)
  then show thesis using refused session by blast
qed

lemma sm_Create_id: "sm_Create new_id m st token cl w = (Inr s, st', w') \<Longrightarrow> se_ID s = fst (new_id w)"
  by (auto simp: sm_Create_def Let_def split: prod.splits option.splits)

lemma created_id: "logs_in env h rq sw s cl sw' \<Longrightarrow> \<exists>w. se_ID s = fst (au_new_uuid env w)"
  unfolding logs_in_def by (blast dest: sm_Create_id)

text \<open>What the browser holds after a login and after a logout.\<close>

lemma jar_after_session:
  assumes "ac_sessionName (ah_cookies h) \<noteq> ac_csrfName (ah_cookies h)"
  shows "jar_after (noStore # session_cookies env h s w @ [Redirect 302 url]) jar =
    jar(ac_sessionName (ah_cookies h) \<mapsto> se_ID s, ac_csrfName (ah_cookies h) \<mapsto> b64_encode (fst (au_random env 24 w)))"
proof -
  have "\<not> trunc_div (max 0 d) Second < 0" for d by (simp add: trunc_div_def Second_def)
  then show ?thesis by (simp add: jar_after_def session_cookies_def setCookie_def noStore_def)
qed

lemma jar_after_logout:
  "jar_after (fst (Logout h rq st)) jar (ac_sessionName (ah_cookies h)) = None"
  by (simp add: jar_after_def Logout_def clearSessionCookie_def clearCookie_def noStore_def respond_defs Let_def)

context session_contract
begin

lemma create_outcome:
  assumes "invar st" and "sm_store m = ops" and "sm_Create new_id m st token cl w = (r, st', w')"
  shows "invar st' \<and> (case r of Inl e \<Rightarrow> lookup st' = lookup st
    | Inr s \<Rightarrow> lookup st' = (lookup st)(se_ID s \<mapsto> s) \<and> se_Claims s = cl)"
proof -
  from assms(2,3) obtain s oe where "ss_Create ops st s = (oe, st')" "se_Claims s = cl"
    "r = (case oe of None \<Rightarrow> Inr s | Some e \<Rightarrow> Inl (Wrapped ''oidcauth: create session: %w'' [e]))"
    by (auto simp: sm_Create_def Let_def split: prod.splits option.splits)
  with create [OF assms(1)] show ?thesis by (auto split: option.splits)
qed

lemma logs_in_stores:
  assumes "invar (fst sw)" and "sm_store (ah_sessions h) = ops" and "logs_in env h rq sw s cl sw'"
  shows "invar (fst sw')" and "lookup (fst sw') = (lookup (fst sw))(se_ID s \<mapsto> s)" and "se_Claims s = cl"
  using assms(3) create_outcome [OF assms(1,2)] by (fastforce simp: logs_in_def)+

end

section \<open>The application\<close>

text \<open>
  Its steps: the handlers of a login, and the pieces of the requests that resolve a session (the refresh handler and the
  authorization middleware run \<^verbatim>\<open>Resolve\<close>, which is four such pieces), interleaved in any order with logouts,
  cleanups and changes of the world.
\<close>

inductive app_step ::
  "('e, 'w) auth_env \<Rightarrow> ('st, 'w, 'e) auth_handler \<Rightarrow> 'st \<times> 'w \<Rightarrow> 'st \<times> 'w \<Rightarrow> bool"
  for env h where
  app_login: "Login env h rq w = (effs, w') \<Longrightarrow> app_step env h (st, w) (st, w')"
| app_callback: "Callback env h rq st w = (effs, st', w') \<Longrightarrow> app_step env h (st, w) (st', w')"
| app_refresh: "RefreshHandler env h rq st w = Some (effs, st', w') \<Longrightarrow> app_step env h (st, w) (st', w')"
| app_piece: "resolve_step (au_uuid_ok env) (ah_sessions h) (p, st, w) = (p', st', w') \<Longrightarrow> app_step env h (st, w) (st', w')"
| app_logout: "Logout h rq st = (effs, st') \<Longrightarrow> app_step env h (st, w) (st', w)"
| app_cleanup: "CleanupExpired (ah_sessions h) st now = (r, st') \<Longrightarrow> app_step env h (st, w) (st', w)"
| app_world: "app_step env h (st, w) (st, w')"

text \<open>The session under \<open>k\<close> with these claims goes back to a login: where it happened, and that it led here.\<close>

definition came_from_login ::
  "('e, 'w) auth_env \<Rightarrow> ('st, 'w, 'e) auth_handler \<Rightarrow> 'st \<times> 'w \<Rightarrow> 'st \<times> 'w \<Rightarrow> string \<Rightarrow> claims \<Rightarrow> bool"
where
  "came_from_login env h start here k cl \<longleftrightarrow>
     (\<exists>rq s a b. (app_step env h)\<^sup>*\<^sup>* start a \<and> logs_in env h rq a s cl b \<and> se_ID s = k \<and> (app_step env h)\<^sup>*\<^sup>* b here)"

lemma came_from_login_step:
  "came_from_login env h start a k cl \<Longrightarrow> app_step env h a b \<Longrightarrow> came_from_login env h start b k cl"
  unfolding came_from_login_def by (blast intro: rtranclp.rtrancl_into_rtrancl)

context session_contract
begin

lemma pieces_continue:
  assumes "invar st" and "sm_store m = ops" and "(resolve_step uuid_ok m ^^ n) (p, st, w) = (p', st', w')"
  shows "invar st' \<and> (\<forall>k. continues (lookup st) (lookup st') k)"
  using assms(3)
proof (induction n arbitrary: p' st' w')
  case 0
  with assms(1) show ?case by simp
next
  case (Suc n)
  obtain p1 st1 w1 where one: "(resolve_step uuid_ok m ^^ n) (p, st, w) = (p1, st1, w1)" by (metis prod_cases3)
  with Suc have step: "resolve_step uuid_ok m (p1, st1, w1) = (p', st', w')" by simp
  note IH = Suc.IH [OF one]
  have "invar st'" using sm_step_invar [OF resolve_step_sm [OF step] assms(2)] IH by simp
  moreover have "continues (lookup st) (lookup st') k" for k
  proof -
    have "continues (lookup st1) (lookup st') k" using resolve_step_continues [OF _ assms(2) step] IH by blast
    moreover have "continues (lookup st) (lookup st1) k" using IH by blast
    ultimately show ?thesis by (fastforce simp: continues_def)
  qed
  ultimately show ?case by blast
qed

lemma resolve_continues:
  assumes "invar st" and "sm_store m = ops" and "Resolve uuid_ok m st k w = (x, st', w')"
  shows "invar st' \<and> (\<forall>j. continues (lookup st) (lookup st') j)"
proof -
  from assms(3) obtain p where "(resolve_step uuid_ok m ^^ 4) (Starting k, st, w) = (p, st', w')"
    using resolve_solo [of uuid_ok m k st w] by auto
  from pieces_continue [OF assms(1,2) this] show ?thesis .
qed

text \<open>Every step either continues the sessions or is a login that adds one.\<close>

lemma app_step_sessions:
  assumes "app_step env h a b" and "invar (fst a)" and "sm_store (ah_sessions h) = ops"
  shows "invar (fst b) \<and> ((\<forall>k. continues (lookup (fst a)) (lookup (fst b)) k) \<or>
    (\<exists>rq s cl. logs_in env h rq a s cl b \<and> lookup (fst b) = (lookup (fst a))(se_ID s \<mapsto> s) \<and> se_Claims s = cl))"
  using assms
proof (induction rule: app_step.induct)
  case (app_callback rq st w effs st' w')
  from app_callback(1) show ?case
  proof (cases rule: Callback_outcome)
    case refused
    with create_outcome [OF _ app_callback(3), of st] app_callback(2) have "invar st' \<and> lookup st' = lookup st" by fastforce
    then show ?thesis by simp
  next
    case (session s cl w3 url)
    with logs_in_stores [OF app_callback(2,3) session(1)] show ?thesis by auto
  qed
next
  case (app_refresh rq st w effs st' w')
  then have "st' = st \<or> (\<exists>k x w1. Resolve (au_uuid_ok env) (ah_sessions h) st k w = (x, st', w1))"
    by (fastforce simp: RefreshHandler_def split: option.splits if_splits prod.splits sum.splits)
  with resolve_continues [OF _ app_refresh(3), of st] app_refresh(2) show ?case by auto
next
  case (app_piece p st w p' st' w')
  with pieces_continue [where n = 1 and uuid_ok = "au_uuid_ok env" and p = p, OF _ app_piece(3), of st w p' st' w'] show ?case by simp
next
  case (app_logout rq st effs st' w)
  then have "st' = st \<or> (\<exists>k. st' = snd (ss_Delete ops st k))" by (auto simp: Logout_def Let_def sm_Delete_def split: if_splits)
  with app_logout(2) delete_continues delete_keeps(1) show ?case by auto
next
  case (app_cleanup st now r st' w)
  with delete_expired [of st now r st'] show ?case
    by (auto simp: CleanupExpired_def continues_def split: sum.splits option.splits if_splits)
qed auto

lemma sessions_come_from_logins:
  assumes "(app_step env h)\<^sup>*\<^sup>* start here" and "invar (fst start)" and "lookup (fst start) = Map.empty"
    and "sm_store (ah_sessions h) = ops"
  shows "invar (fst here) \<and> (\<forall>k s. lookup (fst here) k = Some s \<longrightarrow> came_from_login env h start here k (se_Claims s))"
  using assms(1)
proof (induction rule: rtranclp_induct)
  case base
  with assms show ?case by simp
next
  case (step a b)
  note sessions = app_step_sessions [OF step(2) _ assms(4)]
  have "came_from_login env h start b k (se_Claims s)" if "lookup (fst b) k = Some s" for k s
  proof (cases "\<forall>k. continues (lookup (fst a)) (lookup (fst b)) k")
    case True
    with that obtain s0 where "lookup (fst a) k = Some s0" "se_Claims s = se_Claims s0" unfolding continues_def by metis
    with step came_from_login_step show ?thesis by metis
  next
    case False
    with sessions step(3) obtain rq s1 cl where login: "logs_in env h rq a s1 cl b"
      "lookup (fst b) = (lookup (fst a))(se_ID s1 \<mapsto> s1)" "se_Claims s1 = cl" by blast
    show ?thesis
    proof (cases "k = se_ID s1")
      case True
      with login that have "logs_in env h rq a s (se_Claims s) b" "se_ID s = k" by auto
      with step(1) show ?thesis unfolding came_from_login_def by blast
    next
      case False
      with login that step came_from_login_step show ?thesis by (metis fun_upd_apply)
    qed
  qed
  with sessions step(3) show ?case by blast
qed

end

section \<open>An example\<close>

text \<open>An issuer that exchanges every code, a verifier that finds the role in every token, and the in-memory store.\<close>

definition demo_editor :: claims where
  "demo_editor = no_claims\<lparr>cl_ResourceAccess := [''app'' \<mapsto> [''roles'' \<mapsto> [''editor'']]]\<rparr>"

definition demo_app_env :: "(unit, instant) auth_env" where
  "demo_app_env = demo_auth_env\<lparr>au_oauth2 := \<lparr>oa_AuthCodeURL = (\<lambda>f s v. s), oa_Exchange = (\<lambda>f c v w. (Inr demo_login, w)),
     oa_Token = (\<lambda>f r w. (Inl (Foreign 0), w))\<rparr>\<rparr>"

definition demo_app :: "(fake_store, instant, unit) auth_handler" where
  "demo_app = demo_auth_handler\<lparr>ah_verifier := (\<lambda>t w. (Inr demo_editor, w))\<rparr>"

definition demo_callback :: request where
  "demo_callback = \<lparr>rq_Method = ''GET'', rq_Header = (\<lambda>h. []), rq_Cookie = (\<lambda>c. None),
     rq_Query = (\<lambda>q. if q = ''code'' then ''c'' else if q = ''state''
       then b64_encode ''x'' @ ''.'' @ signState demo_app_env demo_app (b64_encode ''x'') else []),
     rq_ClientIP = ''10.0.0.1'', rq_Keys = Map.empty\<rparr>"

definition demo_editor_session :: session where
  "demo_editor_session = demo_logged\<lparr>se_Claims := demo_editor\<rparr>"

definition demo_empty :: fake_store where "demo_empty = \<lparr>fs_data = [], fs_withLockCall = 0\<rparr>"

definition demo_stored :: fake_store where "demo_stored = \<lparr>fs_data = [(''u'', demo_editor_session)], fs_withLockCall = 0\<rparr>"

lemma demo_app_sessions [simp]: "ah_sessions demo_app = demo_manager" "au_uuid_ok demo_app_env k"
  by (simp_all add: demo_app_def demo_auth_handler_def demo_app_env_def demo_auth_env_def)

lemma demo_creates:
  "sm_Create (\<lambda>w. (''u'', w)) demo_manager demo_empty demo_login demo_editor Minute = (Inr demo_editor_session, demo_stored, Minute)"
  by (simp add: sm_Create_def fs_Create_def demo_editor_session_def demo_logged_def demo_stored_def demo_empty_def Let_def demo_login_def
        tokenSetFrom_def computeExpiresAt_def no_tokens_def float_to_int64_def is_int64_def wrap64_def clock_simps)

lemma demo_state: "decodeState demo_app_env demo_app Minute (rq_Query demo_callback ''state'') = Inr demo_login_state"
proof -
  have "au_hmac demo_app_env (ah_stateSigningKey demo_app) (b64_encode ''x'') \<noteq> []"
    "au_unmarshal demo_app_env ''x'' = Some demo_login_state"
    by (simp_all add: demo_app_env_def demo_auth_env_def)
  from decode_signed [OF this(1) _ this(2), of Minute] show ?thesis
    by (simp add: demo_callback_def demo_login_state_def loginStateTTL_def unix_of_def clock_simps)
qed

lemma demo_calls_back:
  "Callback demo_app_env demo_app demo_callback demo_empty Minute =
     (noStore # session_cookies demo_app_env demo_app demo_editor_session Minute @ [Redirect 302 ''https://f''], demo_stored, Minute)"
proof -
  have "rq_Query demo_callback ''error'' = []" "rq_Query demo_callback ''code'' = ''c''" by (simp_all add: demo_callback_def)
  moreover have "Exchange (au_oauth2 demo_app_env) (ah_flow demo_app) c v w = (Inr demo_login, w)" for c v w
    by (simp add: Exchange_def demo_app_env_def)
  moreover have "ah_verifier demo_app t w = (Inr demo_editor, w)" "au_new_uuid demo_app_env = (\<lambda>w. (''u'', w))"
    "au_now demo_app_env w = w" "snd (au_random demo_app_env n w) = w" for t w n
    by (simp_all add: demo_app_def demo_app_env_def demo_auth_env_def)
  moreover have "resolveReturnTo demo_app_env demo_app p = ''https://f''" for p
    by (simp add: resolveReturnTo_def demo_app_def demo_app_env_def demo_auth_env_def demo_auth_handler_def)
  ultimately show ?thesis
    using demo_state by (simp add: Callback_def demo_creates applySession_cookies)
qed

lemma demo_login_only:
  assumes "logs_in demo_app_env demo_app rq sw s cl sw'"
  shows "cl = demo_editor" and "sw = (demo_empty, Minute) \<Longrightarrow> s = demo_editor_session"
proof -
  have env: "ah_verifier demo_app t w = (Inr demo_editor, w)" "au_new_uuid demo_app_env = (\<lambda>w. (''u'', w))"
    "Exchange (au_oauth2 demo_app_env) (ah_flow demo_app) c v w = (Inr demo_login, w)" for t w c v
    by (simp_all add: demo_app_def demo_app_env_def demo_auth_env_def Exchange_def)
  show "cl = demo_editor" using assms by (auto simp: logs_in_def env)
  show "s = demo_editor_session" if "sw = (demo_empty, Minute)"
    using assms that by (auto simp: logs_in_def env demo_creates)
qed

lemma demo_only_editor: "came_from_login demo_app_env demo_app start here k cl \<Longrightarrow> cl = demo_editor"
  by (auto simp: came_from_login_def dest: demo_login_only(1))

text \<open>The browser's next request.\<close>

definition demo_next :: request where
  "demo_next = \<lparr>rq_Method = ''POST'', rq_Header = (\<lambda>h. if h = CSRFHeader then b64_encode ''r'' else []),
     rq_Cookie = [SessionCookie \<mapsto> ''u'', CSRFCookie \<mapsto> b64_encode ''r''], rq_Query = (\<lambda>q. []),
     rq_ClientIP = ''10.0.0.1'', rq_Keys = Map.empty\<rparr>"

lemma demo_next_token: "extractToken demo_next (sessionCookieName []) = Inr ''u''"
  by (simp add: extractToken_cases readSessionCookie_def extractBearerToken_def demo_next_def sessionCookieName_def
      SessionCookie_def CSRFCookie_def CSRFHeader_def)

lemma demo_app_stores:
  "session_contract (sm_store (ah_sessions demo_app)) (\<lambda>st. map_of (fs_data st)) (\<lambda>st. wf_map (fs_data st))"
  "reliable_store (sm_store (ah_sessions demo_app)) (\<lambda>st. map_of (fs_data st)) (\<lambda>st. wf_map (fs_data st))"
  using demo_contract demo_reliable by simp_all

section \<open>Properties\<close>



text \<open>
  C3: a login opens the route. After a callback that redirected, over a store that does not fail, a request of the
  same browser gets through the whole chain at any later moment exactly when it is not a preflight, its client is within
  its rate, the session the callback created can be kept alive, and the claims read at login hold the role
  without contradicting role contexts: the cookies the callback set satisfy the authorization and the CSRF check.
\<close>

theorem login_opens_route:
  assumes "gin_chain serve" and "reliable_store (sm_store (ah_sessions h)) lookup invar" and "invar st"
    and "Callback env h rq st w = (effs, st', w')" and "Redirect 302 url \<in> set effs"
    and "ac_sessionName (ah_cookies h) \<noteq> ac_csrfName (ah_cookies h)"
    and "browser_sends (jar_after effs jar) (ah_cookies h) cookie copts rq2"
    and "\<And>w. fst (au_new_uuid env w) \<noteq> [] \<and> au_uuid_ok env (fst (au_new_uuid env w))"
    and "\<And>w. fst (au_random env 24 w) \<noteq> []"
  shows "\<exists>s cl. logs_in env h rq (st, w) s cl (st', w') \<and>
    ((\<exists>rq1 lw1. reaches serve (guards policy ops provided clock copts (session_verifier (au_uuid_ok env) (ah_sessions h)) cookie role extras)
        rq2 (l, st', w2) rq1 lw1) \<longleftrightarrow>
     rq_Method rq2 \<noteq> ''OPTIONS'' \<and>
     fst (rl_allow ops (rq_ClientIP rq2) (clock (st', w2))
       (case provided of None \<Rightarrow> l | Some opts \<Rightarrow> retune ops opts (clock (st', w2)) l)) \<and>
     fst (kept_alive (ah_sessions h) s w2) \<noteq> None \<and> sm_HasRole (ah_sessions h) cl role \<and>
     (\<exists>staged. stage_extras (sm_HasRole (ah_sessions h) cl) extras [] = Some (Inr staged)))"
proof -
  have contract: "session_contract (sm_store (ah_sessions h)) lookup invar" using assms(2) by (rule reliable_store.axioms)
  from assms(4) obtain s cl w3 url' where login: "logs_in env h rq (st, w) s cl (st', w')"
    and effs: "effs = noStore # session_cookies env h s w3 @ [Redirect 302 url']"
    by (cases rule: Callback_outcome) (use assms(5) in \<open>auto simp: noStore_def\<close>)
  from session_contract.logs_in_stores [OF contract _ refl login] assms(3)
  have stored: "invar st'" "lookup st' (se_ID s) = Some s" "se_Claims s = cl" by simp_all
  have id: "se_ID s \<noteq> []" "au_uuid_ok env (se_ID s)" using created_id [OF login] assms(8) by metis+
  from jar_after_session [OF assms(6), of env s w3 url' jar] assms(7) have "rq_Cookie rq2 (sessionCookieName cookie) = Some (se_ID s)"
    "rq_Header rq2 ''Authorization'' = []"
    "rq_Cookie rq2 (co_CookieName (csrf_withDefaults copts)) = Some (rq_Header rq2 (co_HeaderName (csrf_withDefaults copts)))"
    "rq_Header rq2 (co_HeaderName (csrf_withDefaults copts)) = b64_encode (fst (au_random env 24 w3))"
    using assms(6) by (auto simp: browser_sends_def effs)
  with id assms(9) have "extractToken rq2 (sessionCookieName cookie) = Inr (se_ID s)" "csrf_echoed copts rq2"
    by (simp_all add: extractToken_cases readSessionCookie_def extractBearerToken_def csrf_echoed_def)
  with session_chain_iff [OF assms(1,2) stored(1), of policy ops provided clock copts "au_uuid_ok env" cookie role extras rq2 l w2]
    id(2) stored(2,3) login show ?thesis
    by (intro exI [of _ s] exI [of _ cl]) (auto simp: sm_HasRole_def prod_eq_iff split: option.splits)
qed

theorem login_opens_route_witness:
  "\<exists>rq1 lw1. reaches serve_chain (guards None demo_bucket None snd \<lparr>co_CookieName = [], co_HeaderName = []\<rparr>
       (session_verifier (au_uuid_ok demo_app_env) (ah_sessions demo_app)) [] ''editor'' [])
     demo_next (newIPRateLimiter 60 1 0, demo_stored, 2 * Minute) rq1 lw1"
proof -
  let ?effs = "noStore # session_cookies demo_app_env demo_app demo_editor_session Minute @ [Redirect 302 ''https://f'']"
  let ?copts = "\<lparr>co_CookieName = [], co_HeaderName = []\<rparr>"
  have names: "ac_sessionName (ah_cookies demo_app) = SessionCookie" "ac_csrfName (ah_cookies demo_app) = CSRFCookie"
    by (simp_all add: demo_app_def demo_auth_handler_def ac_sessionName_def ac_csrfName_def)
  then have differ: "ac_sessionName (ah_cookies demo_app) \<noteq> ac_csrfName (ah_cookies demo_app)"
    by (simp add: SessionCookie_def CSRFCookie_def)
  have browser: "browser_sends (jar_after ?effs Map.empty) (ah_cookies demo_app) [] ?copts demo_next"
    unfolding jar_after_session [OF differ]
    by (simp add: browser_sends_def names demo_next_def sessionCookieName_def csrf_withDefaults_def SessionCookie_def CSRFCookie_def
        CSRFHeader_def demo_editor_session_def demo_logged_def demo_app_env_def demo_auth_env_def Let_def)
  have wf: "wf_map (fs_data demo_empty)" by (simp add: demo_empty_def wf_map_def)
  have random: "fst (au_new_uuid demo_app_env w) \<noteq> [] \<and> au_uuid_ok demo_app_env (fst (au_new_uuid demo_app_env w))"
    "fst (au_random demo_app_env 24 w) \<noteq> []" for w
    by (simp_all add: demo_app_env_def demo_auth_env_def)
  have "Redirect 302 ''https://f'' \<in> set ?effs" by simp
  from login_opens_route [OF serve_chain_gin demo_app_stores(2) wf demo_calls_back this differ browser random, of None demo_bucket None snd
      "''editor''" "[]" "newIPRateLimiter 60 1 0" "2 * Minute"]
  obtain s cl where login: "logs_in demo_app_env demo_app demo_callback (demo_empty, Minute) s cl (demo_stored, Minute)"
    and iff: "(\<exists>rq1 lw1. reaches serve_chain (guards None demo_bucket None snd ?copts
       (session_verifier (au_uuid_ok demo_app_env) (ah_sessions demo_app)) [] ''editor'' [])
       demo_next (newIPRateLimiter 60 1 0, demo_stored, 2 * Minute) rq1 lw1) \<longleftrightarrow>
     rq_Method demo_next \<noteq> ''OPTIONS'' \<and>
     fst (rl_allow demo_bucket (rq_ClientIP demo_next) (snd (demo_stored, 2 * Minute))
       (case None of None \<Rightarrow> newIPRateLimiter 60 1 0 | Some opts \<Rightarrow> retune demo_bucket opts (snd (demo_stored, 2 * Minute)) (newIPRateLimiter 60 1 0))) \<and>
     fst (kept_alive (ah_sessions demo_app) s (2 * Minute)) \<noteq> None \<and> sm_HasRole (ah_sessions demo_app) cl ''editor'' \<and>
     (\<exists>staged. stage_extras (sm_HasRole (ah_sessions demo_app) cl) [] [] = Some (Inr staged))"
    by blast
  from login have "s = demo_editor_session" "cl = demo_editor" by (auto dest: demo_login_only)
  then have "fst (kept_alive demo_manager s (2 * Minute)) \<noteq> None" "sm_HasRole demo_manager cl ''editor''"
    by (simp_all add: kept_alive_def revalidates_def isExpired_def demo_editor_session_def demo_logged_def demo_manager_def sm_HasRole_def
        client_roles_def demo_editor_def no_claims_def clock_simps)
  moreover have "fst (rl_allow demo_bucket (rq_ClientIP demo_next) (2 * Minute) (newIPRateLimiter 60 1 0))"
    by (simp add: rl_allow_def evictIfDue_def newIPRateLimiter_def demo_bucket_def rateLimitIdleTimeout_def clock_simps)
  ultimately show ?thesis unfolding iff by (simp add: demo_next_def)
qed

text \<open>
  C4: a logout closes it. After a logout over a store that does not fail, no request that presents the id of the session gets
  through the chain to its handler, at any later moment, nor does a request with the cookies the logout left in
  the browser and no bearer token.
\<close>

theorem logout_closes_route:
  assumes "gin_chain serve" and "reliable_store (sm_store (ah_sessions h)) lookup invar" and "invar st"
    and "Logout h rq st = (effs, st')" and "rq_Cookie rq (ac_sessionName (ah_cookies h)) = Some k" and "k \<noteq> []"
    and "extractToken rq2 (sessionCookieName cookie) = Inr k \<or>
      sessionCookieName cookie = ac_sessionName (ah_cookies h) \<and> rq_Cookie rq2 = jar_after effs jar \<and> rq_Header rq2 ''Authorization'' = []"
  shows "\<not> reaches serve (guards policy ops provided clock copts (session_verifier uuid_ok (ah_sessions h)) cookie role extras)
    rq2 (l, st', w2) rq1 lw1"
proof
  assume "reaches serve (guards policy ops provided clock copts (session_verifier uuid_ok (ah_sessions h)) cookie role extras)
    rq2 (l, st', w2) rq1 lw1"
  moreover have "st' = snd (ss_Delete (sm_store (ah_sessions h)) st k)"
    using assms(4-6) by (auto simp: Logout_def Let_def sm_Delete_def)
  with reliable_store.delete_removes [OF assms(2,3), of k] have "invar st'" "lookup st' k = None" by simp_all
  ultimately obtain k' s where k': "extractToken rq2 (sessionCookieName cookie) = Inr k'" "lookup st' k' = Some s"
    using session_chain_iff [OF assms(1,2) \<open>invar st'\<close>, of policy ops provided clock copts uuid_ok cookie role extras rq2 l w2] by blast
  show False
  proof (cases "extractToken rq2 (sessionCookieName cookie) = Inr k")
    case True
    with k' \<open>lookup st' k = None\<close> show False by simp
  next
    case False
    with assms(7) jar_after_logout [of h rq st jar] assms(4) have "rq_Cookie rq2 (sessionCookieName cookie) = None" "rq_Header rq2 ''Authorization'' = []"
      by simp_all
    with k'(1) show False by (simp add: extractToken_cases readSessionCookie_def extractBearerToken_def)
  qed
qed

theorem logout_closes_route_witness:
  "\<not> (\<exists>rq1 lw1. reaches serve_chain (guards None demo_bucket None snd \<lparr>co_CookieName = [], co_HeaderName = []\<rparr>
       (session_verifier (\<lambda>k. True) (ah_sessions demo_app)) [] ''editor'' [])
     demo_next (newIPRateLimiter 60 1 0, snd (Logout demo_app demo_next demo_stored), 2 * Minute) rq1 lw1)"
proof -
  have wf: "wf_map (fs_data demo_stored)" by (simp add: demo_stored_def wf_map_def)
  have out: "Logout demo_app demo_next demo_stored = (fst (Logout demo_app demo_next demo_stored), snd (Logout demo_app demo_next demo_stored))"
    by simp
  have cookie: "rq_Cookie demo_next (ac_sessionName (ah_cookies demo_app)) = Some ''u''"
    by (simp add: demo_next_def demo_app_def demo_auth_handler_def ac_sessionName_def SessionCookie_def CSRFCookie_def)
  show ?thesis
    using logout_closes_route [OF serve_chain_gin demo_app_stores(2) wf out cookie _ disjI1 [OF demo_next_token]] by blast
qed

end
