(* ===== verification/Pagination.thy ===== *)
theory Pagination
  imports Prelude
begin

text \<open>
  Package \<^verbatim>\<open>pagination\<close> (\<^verbatim>\<open>paginator.go\<close>, \<^verbatim>\<open>filter.go\<close>, \<^verbatim>\<open>helper.go\<close>, \<^verbatim>\<open>gorm_scope.go\<close>): pages and their
  arithmetic, filters and their rendering as parameterised SQL, and sort strings. A scope is modelled
  by the calls it makes on the gorm handle.
\<close>

section \<open>Pages\<close>

definition DefPage :: int where "DefPage = 1"
definition DefPerPage :: int where "DefPerPage = 20"
definition MaxPerPage :: int where "MaxPerPage = 100"

record page =
  pg_Number :: int
  pg_PerPage :: int

definition Normalize :: "page \<Rightarrow> page" where
  "Normalize p =
     (let p1 = (if pg_Number p \<le> 0 then p\<lparr>pg_Number := DefPage\<rparr> else p);
          p2 = (if pg_PerPage p1 \<le> 0 then p1\<lparr>pg_PerPage := DefPerPage\<rparr> else p1)
      in if MaxPerPage < pg_PerPage p2 then p2\<lparr>pg_PerPage := MaxPerPage\<rparr> else p2)"

definition page_Offset :: "page \<Rightarrow> int" where
  "page_Offset p = wrap64 (wrap64 (pg_Number p - 1) * pg_PerPage p)"

record 'a result =
  re_Data :: "'a list"
  re_Total :: int
  re_Page :: int
  re_PerPage :: int
  re_TotalPages :: int
  re_HasNext :: bool
  re_HasPrev :: bool

text \<open>
  \<open>int(math.Ceil(float64(tot) / float64(perPage)))\<close>: below 2 to the 53rd both conversions are exact
  and rounding the quotient never crosses an integer, so it is the ceiling of the exact quotient. A
  zero divisor gives an infinity or NaN, which amd64 converts to the smallest integer.
\<close>

definition total_pages :: "int \<Rightarrow> int \<Rightarrow> int" where
  "total_pages tot perPage =
     (if perPage = 0 then - 9223372036854775808 else \<lceil>of_int tot / (of_int perPage :: rat)\<rceil>)"

definition NewResult :: "'a list \<Rightarrow> int \<Rightarrow> page \<Rightarrow> 'a result" where
  "NewResult data tot p =
     (let totalPages = total_pages tot (pg_PerPage p)
      in \<lparr>re_Data = data, re_Total = tot, re_Page = pg_Number p, re_PerPage = pg_PerPage p,
          re_TotalPages = totalPages, re_HasNext = (pg_Number p < totalPages), re_HasPrev = (1 < pg_Number p)\<rparr>)"

definition Presenter :: "'a result \<Rightarrow> ('a list \<Rightarrow> 'b list) \<Rightarrow> 'b result" where
  "Presenter r pFn = \<lparr>re_Data = pFn (re_Data r), re_Total = re_Total r, re_Page = re_Page r,
     re_PerPage = re_PerPage r, re_TotalPages = re_TotalPages r, re_HasNext = re_HasNext r, re_HasPrev = re_HasPrev r\<rparr>"

section \<open>Filters\<close>

text \<open>
  The values of filters: nil, a value with its default text, or a pointer to a value. \<open>Operator\<close> and
  \<open>LogicOp\<close> are string types.
\<close>

datatype any_val = ANil | AVal string | APtr "any_val option"

datatype filter_expr = Filter (fi_Field: string) (fi_Op: string) (fi_Value: any_val) (fi_Group: "filter_group option")
  and filter_group = FilterGroup (fg_Op: string) (fg_Filters: "filter_expr list")

definition newGroup :: "string \<Rightarrow> filter_expr list \<Rightarrow> filter_expr" where
  "newGroup op filters = Filter [] [] ANil (Some (FilterGroup op filters))"

definition OrGroup :: "filter_expr list \<Rightarrow> filter_expr" where "OrGroup filters = newGroup ''OR'' filters"
definition AndGroup :: "filter_expr list \<Rightarrow> filter_expr" where "AndGroup filters = newGroup ''AND'' filters"

record sort_clause =
  so_Field :: string
  so_Direction :: string

record query =
  qu_Page :: page
  qu_Filters :: "filter_expr list"
  qu_Sorts :: "sort_clause list"

definition NewQuery :: "page \<Rightarrow> filter_expr list \<Rightarrow> sort_clause list \<Rightarrow> query" where
  "NewQuery p filters sorts = \<lparr>qu_Page = Normalize p, qu_Filters = filters, qu_Sorts = sorts\<rparr>"

definition derefVal :: "any_val \<Rightarrow> any_val" where
  "derefVal v = (case v of APtr None \<Rightarrow> ANil | APtr (Some x) \<Rightarrow> x | _ \<Rightarrow> v)"

text \<open>A builder is the list of its filters; a nil \<open>build\<close> function is \<open>None\<close>.\<close>

definition Where :: "string \<Rightarrow> string \<Rightarrow> any_val \<Rightarrow> filter_expr list \<Rightarrow> filter_expr list" where
  "Where field op v b = b @ [Filter field op (derefVal v) None]"

definition WhereIf :: "bool \<Rightarrow> string \<Rightarrow> string \<Rightarrow> any_val \<Rightarrow> filter_expr list \<Rightarrow> filter_expr list" where
  "WhereIf c field op v b = (if c then Where field op v b else b)"

definition WhereGroup ::
  "string \<Rightarrow> (filter_expr list \<Rightarrow> filter_expr list) option \<Rightarrow> filter_expr list \<Rightarrow> filter_expr list"
where
  "WhereGroup op build b =
     (case build of
        None \<Rightarrow> b
      | Some f \<Rightarrow> (let inner = f [] in if length inner = 0 then b else b @ [newGroup op inner]))"

definition WhereGroupIf ::
  "bool \<Rightarrow> string \<Rightarrow> (filter_expr list \<Rightarrow> filter_expr list) option \<Rightarrow> filter_expr list \<Rightarrow> filter_expr list"
where
  "WhereGroupIf c op build b = (if c then WhereGroup op build b else b)"

definition WhereGroupOr :: "(filter_expr list \<Rightarrow> filter_expr list) option \<Rightarrow> filter_expr list \<Rightarrow> filter_expr list" where
  "WhereGroupOr build b = WhereGroup ''OR'' build b"

definition WhereGroupOrIf ::
  "bool \<Rightarrow> (filter_expr list \<Rightarrow> filter_expr list) option \<Rightarrow> filter_expr list \<Rightarrow> filter_expr list"
where
  "WhereGroupOrIf c build b = WhereGroupIf c ''OR'' build b"

definition OrderBy :: "string \<Rightarrow> string \<Rightarrow> sort_clause list \<Rightarrow> sort_clause list" where
  "OrderBy field dir b = b @ [\<lparr>so_Field = field, so_Direction = dir\<rparr>]"

section \<open>LIKE patterns\<close>

definition LikeEscapeChar :: char where "LikeEscapeChar = CHR ''!''"

definition LikeEscapeClause :: string where
  "LikeEscapeClause = ''ESCAPE '' @ [CHR 0x27] @ [LikeEscapeChar] @ [CHR 0x27]"

definition likeEscaper :: "string \<Rightarrow> string" where
  "likeEscaper s = concat (map (\<lambda>c. if c \<in> {LikeEscapeChar, CHR ''%'', CHR ''_''} then [LikeEscapeChar, c] else [c]) s)"

text \<open>\<open>sprint\<close> is \<^verbatim>\<open>fmt.Sprintf\<close> with the verb \<open>%v\<close>.\<close>

definition EscapeLike :: "(any_val \<Rightarrow> string) \<Rightarrow> any_val \<Rightarrow> string" where
  "EscapeLike sprint v = likeEscaper (sprint v)"

section \<open>SQL\<close>

fun filterExpr :: "(any_val \<Rightarrow> string) \<Rightarrow> filter_expr \<Rightarrow> string \<times> any_val list"
  and groupExpr :: "(any_val \<Rightarrow> string) \<Rightarrow> filter_group \<Rightarrow> string \<times> any_val list"
  and group_parts :: "(any_val \<Rightarrow> string) \<Rightarrow> filter_expr list \<Rightarrow> string list \<times> any_val list"
where
  "filterExpr sprint (Filter field op v (Some g)) = groupExpr sprint g"
| "filterExpr sprint (Filter field op v None) =
     (if op = ''IS NULL'' then (field @ '' IS NULL'', [])
      else if op = ''IS NOT NULL'' then (field @ '' IS NOT NULL'', [])
      else if op = ''IN'' \<or> op = ''NOT IN'' then (field @ '' '' @ op @ '' (?)'', [v])
      else if op = ''LIKE'' \<or> op = ''ILIKE'' then
        (field @ '' '' @ op @ '' ? '' @ LikeEscapeClause, [AVal (''%'' @ EscapeLike sprint (derefVal v) @ ''%'')])
      else (field @ '' '' @ op @ '' ?'', [v]))"
| "groupExpr sprint (FilterGroup lop filters) =
     (case group_parts sprint filters of
        (exprs, args) \<Rightarrow>
          if length exprs = 0 then ([], [])
          else (''('' @ join ('' '' @ (if lop \<noteq> ''OR'' then ''AND'' else lop) @ '' '') exprs @ '')'', args))"
| "group_parts sprint [] = ([], [])"
| "group_parts sprint (f # fs) =
     (case filterExpr sprint f of
        (expr, exprArgs) \<Rightarrow>
          (case group_parts sprint fs of
             (exprs, args) \<Rightarrow> if expr = [] then (exprs, args) else (expr # exprs, exprArgs @ args)))"

datatype gorm_call = GWhere string "any_val list" | GCount | GOrder string | GLimit int | GOffset int

fun applyFilters :: "(any_val \<Rightarrow> string) \<Rightarrow> filter_expr list \<Rightarrow> gorm_call list" where
  "applyFilters sprint [] = []"
| "applyFilters sprint (f # fs) =
     (case filterExpr sprint f of
        (expr, args) \<Rightarrow> if expr = [] then applyFilters sprint fs else GWhere expr args # applyFilters sprint fs)"

text \<open>
  Simple case folding of the four letters: \<open>strings.EqualFold\<close> and \<open>strings.ToUpper\<close> take U+017F, the
  bytes C5 BF, for an S as well.
\<close>

definition fold_alts :: "char \<Rightarrow> string list" where
  "fold_alts c =
     (if c = CHR ''A'' then [''A'', ''a''] else if c = CHR ''C'' then [''C'', ''c'']
      else if c = CHR ''D'' then [''D'', ''d''] else if c = CHR ''E'' then [''E'', ''e'']
      else if c = CHR ''S'' then [''S'', ''s'', [CHR 0xC5, CHR 0xBF]] else [[c]])"

fun folds_to :: "string \<Rightarrow> string \<Rightarrow> bool" where
  "folds_to s [] \<longleftrightarrow> s = []"
| "folds_to s (c # cs) \<longleftrightarrow>
     list_ex (\<lambda>a. prefix a s \<and> folds_to (drop (length a) s) cs) (fold_alts c)"

definition sort_direction :: "string \<Rightarrow> string" where
  "sort_direction dir = (if folds_to dir ''ASC'' then ''ASC'' else if folds_to dir ''DESC'' then ''DESC'' else ''ASC'')"

definition applySorts :: "sort_clause list \<Rightarrow> gorm_call list" where
  "applySorts sorts = map (\<lambda>s. GOrder (so_Field s @ '' '' @ sort_direction (so_Direction s))) sorts"

definition Scope :: "(any_val \<Rightarrow> string) \<Rightarrow> query \<Rightarrow> gorm_call list" where
  "Scope sprint q =
     applyFilters sprint (qu_Filters q) @ [GCount] @ applySorts (qu_Sorts q) @
     [GLimit (pg_PerPage (qu_Page q)), GOffset (page_Offset (qu_Page q))]"

definition FilterScope :: "(any_val \<Rightarrow> string) \<Rightarrow> filter_expr list \<Rightarrow> gorm_call list" where
  "FilterScope sprint filters = applyFilters sprint filters"

section \<open>Sort strings\<close>

text \<open>Reading the first token of an empty list would panic: \<open>None\<close>.\<close>

fun parse_parts :: "string list \<Rightarrow> sort_clause list option" where
  "parse_parts [] = Some []"
| "parse_parts (raw # rest) =
     (let part = trim_space raw in
      if part = [] then parse_parts rest
      else (let tokens = strings_fields part;
                dir = (if length tokens = 2 \<and> folds_to (tokens ! 1) ''DESC'' then ''DESC'' else ''ASC'')
            in case tokens of
                 [] \<Rightarrow> None
               | field # _ \<Rightarrow> map_option ((#) \<lparr>so_Field = field, so_Direction = dir\<rparr>) (parse_parts rest)))"

definition ParseSort :: "string \<Rightarrow> sort_clause list option" where
  "ParseSort raw = parse_parts (split_on (CHR '','') raw)"

section \<open>Lemmas\<close>

lemma total_pages_ceiling:
  assumes "0 < d"
  shows "total_pages n d \<le> k \<longleftrightarrow> n \<le> k * d"
proof -
  have "total_pages n d \<le> k \<longleftrightarrow> of_int n / (of_int d :: rat) \<le> of_int k"
    using assms by (simp add: total_pages_def ceiling_le_iff)
  also have "\<dots> \<longleftrightarrow> (of_int n :: rat) \<le> of_int k * of_int d"
    using assms by (simp add: pos_divide_le_eq)
  also have "\<dots> \<longleftrightarrow> n \<le> k * d" by (metis of_int_le_iff of_int_mult)
  finally show ?thesis .
qed

lemma Normalize_bounds:
  "1 \<le> pg_Number (Normalize p)" "1 \<le> pg_PerPage (Normalize p)" "pg_PerPage (Normalize p) \<le> 100"
  by (auto simp: Normalize_def Let_def DefPage_def DefPerPage_def MaxPerPage_def)

text \<open>SQL's LIKE with an escape character; used to state what the patterns match.\<close>

function like :: "char \<Rightarrow> string \<Rightarrow> string \<Rightarrow> bool" where
  "like e [] t = (t = [])"
| "like e (p # ps) t =
     (if p = e then
        (case (ps, t) of (c # ps', x # t') \<Rightarrow> x = c \<and> like e ps' t' | _ \<Rightarrow> False)
      else if p = CHR ''%'' then like e ps t \<or> (case t of [] \<Rightarrow> False | x # t' \<Rightarrow> like e (p # ps) t')
      else (case t of [] \<Rightarrow> False | x # t' \<Rightarrow> (p = CHR ''_'' \<or> x = p) \<and> like e ps t'))"
  by pat_completeness auto
termination
  by (relation "measures [\<lambda>(e, p, t). length t + length p]") auto

lemma like_literal: "like LikeEscapeChar (likeEscaper s @ q) t \<longleftrightarrow> (\<exists>u. t = s @ u \<and> like LikeEscapeChar q u)"
proof (induction s arbitrary: t)
  case Nil
  then show ?case by (simp add: likeEscaper_def)
next
  case (Cons c s)
  then show ?case
    by (cases t) (auto simp: likeEscaper_def LikeEscapeChar_def)
qed

lemma like_percent: "like LikeEscapeChar (CHR ''%'' # q) t \<longleftrightarrow> (\<exists>a u. t = a @ u \<and> like LikeEscapeChar q u)"
proof (induction t)
  case Nil
  then show ?case by (simp add: LikeEscapeChar_def)
next
  case (Cons x t)
  have "like LikeEscapeChar (CHR ''%'' # q) (x # t) \<longleftrightarrow>
      like LikeEscapeChar q (x # t) \<or> like LikeEscapeChar (CHR ''%'' # q) t"
    by (simp add: LikeEscapeChar_def)
  also have "\<dots> \<longleftrightarrow> (\<exists>a u. x # t = a @ u \<and> like LikeEscapeChar q u)"
    unfolding Cons.IH by (metis append_Cons append_Nil list.exhaust list.inject)
  finally show ?case .
qed

text \<open>Placeholders and arguments.\<close>

definition placeholders :: "string \<Rightarrow> nat" where "placeholders s = count_list s (CHR ''?'')"

lemma placeholders_append [simp]: "placeholders (a @ b) = placeholders a + placeholders b"
  by (simp add: placeholders_def)

lemma placeholders_simps [simp]:
  "placeholders [] = 0" "placeholders (c # s) = (if c = CHR ''?'' then 1 else 0) + placeholders s"
  by (simp_all add: placeholders_def)

lemma placeholders_join: "placeholders sep = 0 \<Longrightarrow> placeholders (join sep xs) = sum_list (map placeholders xs)"
  by (induction xs rule: induct_list012) (simp_all add: placeholders_def)

text \<open>Names without a question mark, everywhere in a filter.\<close>

fun plain_filter :: "filter_expr \<Rightarrow> bool" and plain_group :: "filter_group \<Rightarrow> bool" and plain_list :: "filter_expr list \<Rightarrow> bool" where
  "plain_filter (Filter field op v (Some g)) = plain_group g"
| "plain_filter (Filter field op v None) \<longleftrightarrow> placeholders field = 0 \<and> placeholders op = 0"
| "plain_group (FilterGroup op fs) = plain_list fs"
| "plain_list [] = True"
| "plain_list (f # fs) \<longleftrightarrow> plain_filter f \<and> plain_list fs"

lemma placeholders_literals [simp]:
  "placeholders LikeEscapeClause = 0"
  "placeholders (join '' AND '' xs) = sum_list (map placeholders xs)"
  "placeholders (join '' OR '' xs) = sum_list (map placeholders xs)"
  by (simp_all add: LikeEscapeClause_def LikeEscapeChar_def placeholders_join)

lemma filterExpr_placeholders:
  "plain_filter f \<Longrightarrow> placeholders (fst (filterExpr sprint f)) = length (snd (filterExpr sprint f))"
  "plain_group g \<Longrightarrow> placeholders (fst (groupExpr sprint g)) = length (snd (groupExpr sprint g))"
  "plain_list fs \<Longrightarrow> sum_list (map placeholders (fst (group_parts sprint fs))) = length (snd (group_parts sprint fs))"
proof (induction sprint f and sprint g and sprint fs rule: filterExpr_groupExpr_group_parts.induct)
  case (2 sprint field op v)
  then show ?case by auto
next
  case (3 sprint lop filters)
  then show ?case by (auto split: prod.splits)
next
  case (5 sprint f fs)
  then show ?case by (auto split: prod.splits)
qed simp_all

text \<open>The arguments in the order of the conditions.\<close>

definition cond_args :: "(any_val \<Rightarrow> string) \<Rightarrow> string \<Rightarrow> any_val \<Rightarrow> any_val list" where
  "cond_args sprint op v =
     (if op = ''IS NULL'' \<or> op = ''IS NOT NULL'' then []
      else if op = ''LIKE'' \<or> op = ''ILIKE'' then [AVal (''%'' @ EscapeLike sprint (derefVal v) @ ''%'')] else [v])"

fun conditions :: "filter_expr \<Rightarrow> (string \<times> any_val) list" and group_conditions :: "filter_group \<Rightarrow> (string \<times> any_val) list"
  and list_conditions :: "filter_expr list \<Rightarrow> (string \<times> any_val) list" where
  "conditions (Filter field op v (Some g)) = group_conditions g"
| "conditions (Filter field op v None) = [(op, v)]"
| "group_conditions (FilterGroup op fs) = list_conditions fs"
| "list_conditions [] = []"
| "list_conditions (f # fs) = conditions f @ list_conditions fs"

lemma filterExpr_args:
  "snd (filterExpr sprint f) = concat (map (\<lambda>(op, v). cond_args sprint op v) (conditions f)) \<and>
     (fst (filterExpr sprint f) = [] \<longleftrightarrow> conditions f = [])"
  "snd (groupExpr sprint g) = concat (map (\<lambda>(op, v). cond_args sprint op v) (group_conditions g)) \<and>
     (fst (groupExpr sprint g) = [] \<longleftrightarrow> group_conditions g = [])"
  "snd (group_parts sprint fs) = concat (map (\<lambda>(op, v). cond_args sprint op v) (list_conditions fs)) \<and>
     (fst (group_parts sprint fs) = [] \<longleftrightarrow> list_conditions fs = [])"
proof (induction sprint f and sprint g and sprint fs rule: filterExpr_groupExpr_group_parts.induct)
  case (2 sprint field op v)
  then show ?case by (simp add: cond_args_def)
next
  case (3 sprint lop filters)
  then show ?case by (auto split: prod.splits)
next
  case (5 sprint f fs)
  then show ?case by (auto split: prod.splits)
qed simp_all

lemma space_len_prefix:
  assumes "space_len ws t = 0" and "prefix p t" and "[] \<notin> set ws"
  shows "space_len ws p = 0"
proof -
  have "\<not> prefix w t" if "w \<in> set ws" for w
  proof
    assume "prefix w t"
    with that have ne: "filter (\<lambda>w. prefix w t) ws \<noteq> []" by (auto simp: filter_empty_conv)
    then have "hd (filter (\<lambda>w. prefix w t) ws) \<in> set ws" using hd_in_set by fastforce
    with ne assms(1,3) show False by (auto simp: space_len_def split: list.splits)
  qed
  with assms(2) have "filter (\<lambda>w. prefix w p) ws = []"
    by (auto simp: filter_empty_conv dest: prefix_order.trans)
  then show ?thesis by (simp add: space_len_def)
qed

lemma fields_from_cur: "cur \<noteq> [] \<Longrightarrow> fields_from cur s \<noteq> []"
  by (induction cur s rule: fields_from.induct) auto

lemma fields_trim_space:
  assumes "trim_space s \<noteq> []"
  shows "strings_fields (trim_space s) \<noteq> []"
proof -
  let ?l = "trim_left unicode_spaces s"
  have "suffix (rev (trim_space s)) (rev ?l)"
    using trim_left_suffix [of "map rev unicode_spaces" "rev ?l"] by (simp add: trim_space_def)
  then have "prefix (trim_space s) ?l" by (simp add: suffix_to_prefix)
  then have "space_len unicode_spaces (trim_space s) = 0"
    by (rule space_len_prefix [OF trim_left_stop]) (auto simp: unicode_spaces_def)
  with assms show ?thesis
    by (cases "trim_space s") (simp_all add: strings_fields_def fields_from_cur)
qed

lemma parse_parts_total:
  "\<exists>sorts. parse_parts raws = Some sorts \<and>
     (\<forall>s \<in> set sorts. so_Field s \<noteq> [] \<and> so_Direction s \<in> {''ASC'', ''DESC''}) \<and>
     length sorts = length (filter (\<lambda>r. trim_space r \<noteq> []) raws)"
proof (induction raws)
  case (Cons r raws)
  show ?case
  proof (cases "trim_space r = []")
    case True
    with Cons show ?thesis by simp
  next
    case False
    from fields_trim_space [OF this] obtain f fs where fs: "strings_fields (trim_space r) = f # fs"
      by (cases "strings_fields (trim_space r)") auto
    then have "f \<noteq> []" using fields_from_nonempty [of f "[]" "trim_space r"] by (simp add: strings_fields_def)
    with Cons False fs show ?thesis by (auto simp: Let_def)
  qed
qed simp

section \<open>Properties\<close>

text \<open>
  C23: a search term in a LIKE filter is matched literally: the pattern the filter sends, read by LIKE
  with the escape clause the filter appends, matches exactly the texts that contain the term, wildcards
  and escape characters in it included.
\<close>

theorem like_filter_literal:
  "case filterExpr sprint (Filter field ''LIKE'' v None) of (expr, args) \<Rightarrow>
     expr = field @ '' LIKE ? ESCAPE '' @ [CHR 0x27, LikeEscapeChar, CHR 0x27] \<and>
     (\<exists>pat. args = [AVal pat] \<and>
        (\<forall>t. like LikeEscapeChar pat t \<longleftrightarrow> contains t (sprint (derefVal v))))"
proof -
  have "like LikeEscapeChar (''%'' @ EscapeLike sprint (derefVal v) @ ''%'') t \<longleftrightarrow> contains t (sprint (derefVal v))" for t
  proof -
    have "like LikeEscapeChar ''%'' u" for u using like_percent [of "[]" u] by simp
    then show ?thesis
      using like_percent [of "EscapeLike sprint (derefVal v) @ ''%''" t]
      by (auto simp: EscapeLike_def like_literal contains_def sublist_def simp del: like.simps)
  qed
  then show ?thesis by (simp add: LikeEscapeClause_def)
qed

text \<open>
  The rendering of a filter, however deeply its groups are nested, has as many placeholders as
  arguments, the arguments stand in the order of the conditions, and the text is empty exactly when the
  filter has no condition; operators and field names are assumed to contain no question mark.
\<close>

lemma filter_expr_binds:
  assumes "plain_filter f"
  shows "case filterExpr sprint f of (expr, args) \<Rightarrow>
    placeholders expr = length args \<and>
    args = concat (map (\<lambda>(op, v). cond_args sprint op v) (conditions f)) \<and>
    (expr = [] \<longleftrightarrow> conditions f = [])"
  using filterExpr_placeholders(1) [OF assms, of sprint] filterExpr_args(1) [of sprint f]
  by (simp add: case_prod_unfold)

theorem filter_expr_binds_witness:
  "(let f = OrGroup [Filter ''a'' ''='' (AVal ''1'') None, AndGroup [], Filter ''b'' ''IN'' (AVal ''2'') None] in
    plain_filter f \<and>
    placeholders (fst (filterExpr (\<lambda>v. []) f)) = length (snd (filterExpr (\<lambda>v. []) f)) \<and>
    fst (filterExpr (\<lambda>v. []) f) = ''(a = ? OR b IN (?))'')"
proof -
  let ?f = "OrGroup [Filter ''a'' ''='' (AVal ''1'') None, AndGroup [], Filter ''b'' ''IN'' (AVal ''2'') None]"
  have "plain_filter ?f" by (simp add: OrGroup_def AndGroup_def newGroup_def)
  moreover from filter_expr_binds [OF this, of "\<lambda>v. []"]
  have "placeholders (fst (filterExpr (\<lambda>v. []) ?f)) = length (snd (filterExpr (\<lambda>v. []) ?f))"
    by (simp add: case_prod_unfold)
  ultimately show ?thesis by (simp add: OrGroup_def AndGroup_def newGroup_def)
qed

text \<open>
  For a normalised page the number of pages is the least that holds all rows, there is a next page
  exactly when rows remain after this one, and the offset is the number of rows before the page, for row
  counts below 2 to the 53rd and as long as the product fits 64 bits.
\<close>

lemma page_arithmetic:
  assumes "p = Normalize q" and "0 \<le> n" and "n < 9007199254740992" and "pg_Number p \<le> 92233720368547758"
  shows "(let r = NewResult data n p in
    (\<forall>k. re_TotalPages r \<le> k \<longleftrightarrow> n \<le> k * pg_PerPage p) \<and>
    (re_HasNext r \<longleftrightarrow> page_Offset p + pg_PerPage p < n) \<and> (re_HasPrev r \<longleftrightarrow> 0 < page_Offset p) \<and>
    page_Offset p = (pg_Number p - 1) * pg_PerPage p)"
proof -
  note b = Normalize_bounds [of q, folded assms(1)]
  have "(pg_Number p - 1) * pg_PerPage p \<le> 92233720368547758 * 100"
    using assms(4) b by (intro mult_mono) auto
  moreover have "0 \<le> (pg_Number p - 1) * pg_PerPage p" using b by simp
  ultimately have "is_int64 ((pg_Number p - 1) * pg_PerPage p)" unfolding is_int64_def by linarith
  moreover have "is_int64 (pg_Number p - 1)" using assms(4) b by (simp add: is_int64_def)
  ultimately have off: "page_Offset p = (pg_Number p - 1) * pg_PerPage p" by (simp add: page_Offset_def)
  have "pg_Number p < total_pages n (pg_PerPage p) \<longleftrightarrow> pg_Number p * pg_PerPage p < n"
    using total_pages_ceiling [of "pg_PerPage p" n "pg_Number p"] b by linarith
  moreover have "page_Offset p + pg_PerPage p = pg_Number p * pg_PerPage p"
    unfolding off by (simp add: algebra_simps)
  moreover have "1 < pg_Number p \<longleftrightarrow> 0 < page_Offset p"
    unfolding off using b by (simp add: zero_less_mult_iff)
  moreover have "total_pages n (pg_PerPage p) \<le> k \<longleftrightarrow> n \<le> k * pg_PerPage p" for k
    using total_pages_ceiling [of "pg_PerPage p" n k] b by simp
  ultimately show ?thesis
    unfolding NewResult_def Let_def by (simp add: off)
qed

theorem page_arithmetic_witness:
  "(let r = NewResult [1 :: nat] 41 (Normalize \<lparr>pg_Number = 2, pg_PerPage = 0\<rparr>) in
    (\<forall>k. re_TotalPages r \<le> k \<longleftrightarrow> 41 \<le> k * 20) \<and> re_HasNext r \<and> re_HasPrev r)"
  using page_arithmetic [of "\<lparr>pg_Number = 2, pg_PerPage = 20\<rparr>" "\<lparr>pg_Number = 2, pg_PerPage = 0\<rparr>" 41 "[1 :: nat]"]
  by (simp add: Normalize_def DefPerPage_def MaxPerPage_def Let_def)

text \<open>
  The offset wraps around for page numbers that normalisation lets through: page
  92233720368547760 of 100 rows asks for a negative offset.
\<close>

lemma page_offset_wraps:
  "page_Offset (Normalize \<lparr>pg_Number = 92233720368547760, pg_PerPage = 100\<rparr>) < 0"
  by (simp add: Normalize_def page_Offset_def wrap64_def DefPerPage_def MaxPerPage_def Let_def)

text \<open>
  A sort string never makes the parser panic; it yields one clause for each part that is not blank,
  each with a field that is not empty and the direction ASC or DESC.
\<close>

lemma parse_sort_total:
  "\<exists>sorts. ParseSort raw = Some sorts \<and>
     (\<forall>s \<in> set sorts. so_Field s \<noteq> [] \<and> so_Direction s \<in> {''ASC'', ''DESC''}) \<and>
     length sorts = length (filter (\<lambda>r. trim_space r \<noteq> []) (split_on (CHR '','') raw))"
  unfolding ParseSort_def by (rule parse_parts_total)

end
