(* ===== verification/TokenManager.thy ===== *)
theory TokenManager
  imports HttpClient Encoding
begin

text \<open>
  The client-credentials token manager (\<^verbatim>\<open>src/oauth2/token_manager.go\<close>): the request it builds, the cache
  of one token per scope and the rule for reusing it. Parsing and printing of URLs, the HTTP client,
  the decompressors, JSON decoding and the clock are parameters.
\<close>

section \<open>Definitions\<close>

record token_access =
  ta_AccessToken :: string
  ta_TokenType :: string
  ta_ExpiresIn :: int
  ta_RefreshToken :: string
  ta_Scope :: string
  ta_LastAuthentication :: "instant option"

record token_manager =
  tm_authUrl :: string
  tm_clientID :: string
  tm_clientSecret :: string
  tm_grantType :: string
  tm_scope :: string
  tm_timeout :: "duration option"
  tm_cache :: "string \<Rightarrow> token_access option"
  tm_authParams :: "(string, string) gomap"
  tm_sendAsPost :: bool

text \<open>\<open>tm_timeout\<close> is the timeout of the default client, \<open>None\<close> when the caller supplied a client.\<close>

definition NewTokenManager :: "bool \<Rightarrow> string \<Rightarrow> string \<Rightarrow> string \<Rightarrow> token_manager" where
  "NewTokenManager has_client clientID clientSecret grantType =
     \<lparr>tm_authUrl = [], tm_clientID = clientID, tm_clientSecret = clientSecret, tm_grantType = grantType,
      tm_scope = [], tm_timeout = (if has_client then None else Some (20 * Second)), tm_cache = Map.empty,
      tm_authParams = [], tm_sendAsPost = False\<rparr>"

definition SendAsGet :: "token_manager \<Rightarrow> token_manager" where "SendAsGet tm = tm\<lparr>tm_sendAsPost := False\<rparr>"
definition SendAsPost :: "token_manager \<Rightarrow> token_manager" where "SendAsPost tm = tm\<lparr>tm_sendAsPost := True\<rparr>"

definition WithAuthenticationURL :: "string \<Rightarrow> token_manager \<Rightarrow> token_manager" where
  "WithAuthenticationURL url tm = tm\<lparr>tm_authUrl := url\<rparr>"

definition WithOptionalParams :: "(string, string) gomap \<Rightarrow> token_manager \<Rightarrow> token_manager" where
  "WithOptionalParams params tm = tm\<lparr>tm_authParams := params\<rparr>"

record auth_request =
  aq_method :: string
  aq_url :: string
  aq_body :: "string option"
  aq_headers :: "(string \<times> string) list"

text \<open>
  An answer: the request could not be built, the round trip failed, or a status with a content
  encoding and the raw body. \<open>te_parse\<close> splits a URL into its query and the rest, \<open>te_print\<close> prints it
  with another raw query, \<open>te_read\<close> reads a decoder to its end.
\<close>

datatype auth_answer = AuthBuildFailed go_err | AuthDoFailed go_err | AuthAnswered int string string

record ('u, 'w) token_env =
  te_parse :: "string \<Rightarrow> go_err + 'u \<times> url_values"
  te_print :: "'u \<Rightarrow> string \<Rightarrow> string"
  te_send :: "auth_request \<Rightarrow> 'w \<Rightarrow> auth_answer \<times> 'w"
  te_decompress :: "string \<Rightarrow> string \<Rightarrow> go_err + body_reader"
  te_read :: "body_reader \<Rightarrow> go_err + string"
  te_unmarshal :: "string \<Rightarrow> go_err + token_access"
  te_now :: "'w \<Rightarrow> instant"

definition values_set :: "string \<Rightarrow> string \<Rightarrow> url_values \<Rightarrow> url_values" where
  "values_set k v m = AList.update k [v] m"

definition auth_query :: "token_manager \<Rightarrow> string \<Rightarrow> url_values \<Rightarrow> url_values" where
  "auth_query tm scope q =
     fold (\<lambda>(k, v). values_set k v) (tm_authParams tm)
       (values_set ''scope'' scope (values_set ''grant_type'' (tm_grantType tm)
         (values_set ''client_secret'' (tm_clientSecret tm) (values_set ''client_id'' (tm_clientID tm) q))))"

definition build_auth_request :: "('u, 'w) token_env \<Rightarrow> token_manager \<Rightarrow> 'u \<Rightarrow> url_values \<Rightarrow> auth_request" where
  "build_auth_request env tm u q =
     \<lparr>aq_method = (if tm_sendAsPost tm then ''POST'' else ''GET''),
      aq_url = te_print env u (if tm_sendAsPost tm then [] else values_encode q),
      aq_body = (if tm_sendAsPost tm then Some (values_encode q) else None),
      aq_headers = [(''Accept'', ''application/json; charset=utf-8''), (''Accept-Encoding'', ''gzip, deflate, br'')] @
        (if tm_sendAsPost tm then [(''Content-Type'', ''application/x-www-form-urlencoded'')] else [])\<rparr>"

definition authenticate ::
  "('u, 'w) token_env \<Rightarrow> token_manager \<Rightarrow> string \<Rightarrow> 'w \<Rightarrow> go_err option \<times> token_manager \<times> 'w"
where
  "authenticate env tm scope w =
     (case te_parse env (tm_authUrl tm) of
        Inl e \<Rightarrow> (Some (Wrapped ''invalid authentication URL: %v'' []), tm, w)
      | Inr (u, q0) \<Rightarrow>
          (case te_send env (build_auth_request env tm u (auth_query tm scope q0)) w of
             (AuthBuildFailed e, w') \<Rightarrow> (Some (Wrapped ''failed to create authentication request: %v'' []), tm, w')
           | (AuthDoFailed e, w') \<Rightarrow> (Some (Wrapped ''failed to send authentication request: %v'' []), tm, w')
           | (AuthAnswered status enc raw, w') \<Rightarrow>
               (case te_decompress env enc raw of
                  Inl e \<Rightarrow> (Some (Wrapped ''failed to decompress response: %v'' []), tm, w')
                | Inr reader \<Rightarrow>
                    (case te_read env reader of
                       Inl e \<Rightarrow> (Some (Wrapped ''failed to read response body: %v'' []), tm, w')
                     | Inr body \<Rightarrow>
                         if status \<noteq> 200
                         then (Some (Wrapped ''authentication request returned error status code: %d'' []), tm, w')
                         else (case te_unmarshal env body of
                                 Inl e \<Rightarrow> (Some (Wrapped ''failed to decode response body: %v'' []), tm, w')
                               | Inr tok \<Rightarrow>
                                   (None, tm\<lparr>tm_cache := (tm_cache tm)(scope \<mapsto>
                                      tok\<lparr>ta_LastAuthentication := Some (time_add (te_now env w') (- 5 * Second))\<rparr>)\<rparr>, w'))))))"

text \<open>
  \<open>None\<close> is the dereference of a nil pointer: a token without its authentication time, or a missing
  entry after a successful authentication.
\<close>

definition getTokenFromScope :: "token_manager \<Rightarrow> string \<Rightarrow> token_access option" where
  "getTokenFromScope tm scope = tm_cache tm scope"

definition token_expiration :: "token_access \<Rightarrow> instant \<Rightarrow> instant" where
  "token_expiration tok last_auth = time_add last_auth (wrap64 (ta_ExpiresIn tok * Second))"

definition authenticate_and_get ::
  "('u, 'w) token_env \<Rightarrow> token_manager \<Rightarrow> string \<Rightarrow> 'w \<Rightarrow> (go_err + token_access option) \<times> token_manager \<times> 'w"
where
  "authenticate_and_get env tm scope w =
     (case authenticate env tm scope w of
        (Some e, tm', w') \<Rightarrow> (Inl e, tm', w')
      | (None, tm', w') \<Rightarrow> (Inr (getTokenFromScope tm' scope), tm', w'))"

definition getAccessToken_entry ::
  "('u, 'w) token_env \<Rightarrow> token_manager \<Rightarrow> string \<Rightarrow> 'w \<Rightarrow>
   ((go_err + token_access option) \<times> token_manager \<times> 'w) option"
where
  "getAccessToken_entry env tm scope w =
     (if scope = [] then Some (Inl (Wrapped ''invalid access scope'' []), tm, w)
      else
        (case getTokenFromScope tm scope of
           None \<Rightarrow> Some (authenticate_and_get env tm scope w)
         | Some tok \<Rightarrow>
             (case ta_LastAuthentication tok of
                None \<Rightarrow> None
              | Some last_auth \<Rightarrow>
                  if te_now env w < token_expiration tok last_auth then Some (Inr (Some tok), tm, w)
                  else Some (authenticate_and_get env tm scope w))))"

definition on_token :: "(token_access \<Rightarrow> 'a) \<Rightarrow> ((go_err + token_access option) \<times> token_manager \<times> 'w) option \<Rightarrow>
    ((go_err + 'a) \<times> token_manager \<times> 'w) option" where
  "on_token f r =
     (case r of
        None \<Rightarrow> None
      | Some (Inl e, tm, w) \<Rightarrow> Some (Inl e, tm, w)
      | Some (Inr None, tm, w) \<Rightarrow> None
      | Some (Inr (Some tok), tm, w) \<Rightarrow> Some (Inr (f tok), tm, w))"

definition GetAccessToken ::
  "('u, 'w) token_env \<Rightarrow> token_manager \<Rightarrow> string \<Rightarrow> 'w \<Rightarrow> ((go_err + string) \<times> token_manager \<times> 'w) option"
where
  "GetAccessToken env tm scope w = on_token ta_AccessToken (getAccessToken_entry env tm scope w)"

definition GetTokenType ::
  "('u, 'w) token_env \<Rightarrow> token_manager \<Rightarrow> string \<Rightarrow> 'w \<Rightarrow> ((go_err + string) \<times> token_manager \<times> 'w) option"
where
  "GetTokenType env tm scope w = on_token ta_TokenType (getAccessToken_entry env tm scope w)"

text \<open>The header value it sets on the request.\<close>

definition SetAuthorizationHeader ::
  "('u, 'w) token_env \<Rightarrow> token_manager \<Rightarrow> string \<Rightarrow> 'w \<Rightarrow> ((go_err + string) \<times> token_manager \<times> 'w) option"
where
  "SetAuthorizationHeader env tm scope w =
     on_token (\<lambda>tok. ta_TokenType tok @ '' '' @ ta_AccessToken tok) (getAccessToken_entry env tm scope w)"

section \<open>Lemmas\<close>

text \<open>Every cached token carries its authentication time.\<close>

definition tm_wf :: "token_manager \<Rightarrow> bool" where
  "tm_wf tm \<longleftrightarrow> (\<forall>scope tok. tm_cache tm scope = Some tok \<longrightarrow> ta_LastAuthentication tok \<noteq> None)"

lemma NewTokenManager_wf: "tm_wf (NewTokenManager c a b g)"
  by (simp add: tm_wf_def NewTokenManager_def)

text \<open>An authentication succeeds only on a 200 answer whose body decodes, and stores only under its scope.\<close>

lemma authenticate_None:
  assumes "authenticate env tm scope w = (None, tm', w')"
  obtains u q0 enc raw reader body tok where "te_parse env (tm_authUrl tm) = Inr (u, q0)"
    "te_send env (build_auth_request env tm u (auth_query tm scope q0)) w = (AuthAnswered 200 enc raw, w')"
    "te_decompress env enc raw = Inr reader" "te_read env reader = Inr body" "te_unmarshal env body = Inr tok"
    "tm' = tm\<lparr>tm_cache := (tm_cache tm)(scope \<mapsto>
       tok\<lparr>ta_LastAuthentication := Some (te_now env w' - 5 * Second)\<rparr>)\<rparr>"
  using assms
  by (auto simp: authenticate_def time_add_def split: sum.splits prod.splits auth_answer.splits if_splits)

lemma authenticate_Some: "authenticate env tm scope w = (Some e, tm', w') \<Longrightarrow> tm' = tm"
  by (auto simp: authenticate_def split: sum.splits prod.splits auth_answer.splits if_splits)

lemma auth_query_overrides:
  "wf_map (tm_authParams tm) \<Longrightarrow> map_of (auth_query tm scope q) k =
     (case map_of (tm_authParams tm) k of
        Some v \<Rightarrow> Some [v]
      | None \<Rightarrow> map_of (values_set ''scope'' scope (values_set ''grant_type'' (tm_grantType tm)
         (values_set ''client_secret'' (tm_clientSecret tm) (values_set ''client_id'' (tm_clientID tm) q)))) k)"
proof -
  have "wf_map kvs \<Longrightarrow> map_of (fold (\<lambda>(k, v). values_set k v) kvs m) k =
      (case map_of kvs k of Some v \<Rightarrow> Some [v] | None \<Rightarrow> map_of m k)" for kvs m
  proof (induction kvs arbitrary: m)
    case (Cons kv kvs)
    then have "map_of kvs (fst kv) = None" by (auto simp: wf_map_def map_of_eq_None_iff)
    with Cons show ?case
      by (cases kv) (auto simp: wf_map_def values_set_def split: option.splits)
  qed simp
  then show "wf_map (tm_authParams tm) \<Longrightarrow> ?thesis" by (simp add: auth_query_def)
qed

section \<open>Properties\<close>

lemma authenticate_and_get_cases:
  assumes "tm_wf tm" and "scope \<noteq> []"
  obtains (failed) e w' where "authenticate_and_get env tm scope w = (Inl e, tm, w')"
  | (received) tok tm' w' u q0 enc raw where "authenticate_and_get env tm scope w = (Inr (Some tok), tm', w')" "tm_wf tm'"
      "\<forall>s. s = scope \<or> tm_cache tm' s = tm_cache tm s" "tm_cache tm' scope = Some tok"
      "te_parse env (tm_authUrl tm) = Inr (u, q0)"
      "te_send env (build_auth_request env tm u (auth_query tm scope q0)) w = (AuthAnswered 200 enc raw, w')"
      "ta_LastAuthentication tok = Some (te_now env w' - 5 * Second)"
proof -
  obtain e tm' w' where a: "authenticate env tm scope w = (e, tm', w')" by (cases "authenticate env tm scope w")
  show thesis
  proof (cases e)
    case (Some e')
    with a authenticate_Some [of env tm scope w e'] show thesis
      by (intro failed) (auto simp: authenticate_and_get_def)
  next
    case None
    from a [unfolded None] show thesis
    proof (rule authenticate_None)
      fix u q0 enc raw reader body tok
      assume h: "te_parse env (tm_authUrl tm) = Inr (u, q0)"
        "te_send env (build_auth_request env tm u (auth_query tm scope q0)) w = (AuthAnswered 200 enc raw, w')"
        "tm' = tm\<lparr>tm_cache := (tm_cache tm)(scope \<mapsto>
           tok\<lparr>ta_LastAuthentication := Some (te_now env w' - 5 * Second)\<rparr>)\<rparr>"
      then have "tm_wf tm'" using assms by (auto simp: tm_wf_def)
      with h a None assms(2) show thesis
        by (intro received [OF _ \<open>tm_wf tm'\<close> _ _ h(1,2)]) (auto simp: authenticate_and_get_def getTokenFromScope_def)
    qed
  qed
qed


definition demo_token_env :: "(unit, instant) token_env" where
  "demo_token_env = \<lparr>te_parse = (\<lambda>s. Inr ((), [])), te_print = (\<lambda>u q. q),
     te_send = (\<lambda>q w. (AuthAnswered 200 [] ''body'', w)), te_decompress = (\<lambda>enc raw. Inr (Plain raw)),
     te_read = (\<lambda>r. Inr ''body''),
     te_unmarshal = (\<lambda>b. Inr \<lparr>ta_AccessToken = ''t'', ta_TokenType = ''Bearer'', ta_ExpiresIn = 60,
        ta_RefreshToken = [], ta_Scope = [], ta_LastAuthentication = None\<rparr>),
     te_now = (\<lambda>w. w)\<rparr>"


end
