(* ===== verification/Secure.thy ===== *)
theory Secure
  imports Prelude
begin

text \<open>
  Package \<^verbatim>\<open>secure\<close> (\<^verbatim>\<open>src/secure/aesgcm.go\<close>): the nonce-prefixed AES-256-GCM encryptor. The cipher of the
  standard library is a parameter.
\<close>

definition KeySize :: nat where "KeySize = 32"

definition ErrInvalidKeySize :: go_err where
  "ErrInvalidKeySize = Sentinel ''secure: key must be 32 bytes (AES-256)''"
definition ErrCiphertextTooShort :: go_err where
  "ErrCiphertextTooShort = Sentinel ''secure: ciphertext shorter than nonce size''"

text \<open>An AEAD: its nonce size, sealing and opening, all without additional data.\<close>

record aead =
  ad_NonceSize :: nat
  ad_Seal :: "string \<Rightarrow> string \<Rightarrow> string"
  ad_Open :: "string \<Rightarrow> string \<Rightarrow> go_err + string"

record aesgcm_encryptor =
  en_aead :: aead

text \<open>\<open>new_cipher\<close> and \<open>new_gcm\<close> are \<^verbatim>\<open>aes.NewCipher\<close> and \<^verbatim>\<open>cipher.NewGCM\<close>.\<close>

definition NewAESGCMEncryptor ::
  "(string \<Rightarrow> go_err + 'b) \<Rightarrow> ('b \<Rightarrow> go_err + aead) \<Rightarrow> string \<Rightarrow> go_err + aesgcm_encryptor"
where
  "NewAESGCMEncryptor new_cipher new_gcm key =
     (if length key \<noteq> KeySize then Inl ErrInvalidKeySize
      else
        (case new_cipher key of
           Inl e \<Rightarrow> Inl (Wrapped ''secure: build AES cipher: %w'' [e])
         | Inr block \<Rightarrow>
             (case new_gcm block of
                Inl e \<Rightarrow> Inl (Wrapped ''secure: build GCM: %w'' [e])
              | Inr a \<Rightarrow> Inr \<lparr>en_aead = a\<rparr>)))"

text \<open>\<open>Seal(nonce, nonce, plaintext, nil)\<close> appends the sealed text to the nonce.\<close>

definition Encrypt ::
  "(nat \<Rightarrow> 'w \<Rightarrow> (go_err + string) \<times> 'w) \<Rightarrow> aesgcm_encryptor \<Rightarrow> string \<Rightarrow> 'w \<Rightarrow> (go_err + string) \<times> 'w"
where
  "Encrypt rand_read e plaintext w =
     (case rand_read (ad_NonceSize (en_aead e)) w of
        (Inl err, w') \<Rightarrow> (Inl (Wrapped ''secure: generate nonce: %w'' [err]), w')
      | (Inr nonce, w') \<Rightarrow> (Inr (nonce @ ad_Seal (en_aead e) nonce plaintext), w'))"

definition Decrypt :: "aesgcm_encryptor \<Rightarrow> string \<Rightarrow> go_err + string" where
  "Decrypt e ciphertext =
     (let nonceSize = ad_NonceSize (en_aead e) in
      if length ciphertext < nonceSize then Inl ErrCiphertextTooShort
      else (case ad_Open (en_aead e) (take nonceSize ciphertext) (drop nonceSize ciphertext) of
              Inl err \<Rightarrow> Inl (Wrapped ''secure: decrypt: %w'' [err])
            | Inr plaintext \<Rightarrow> Inr plaintext))"

text \<open>
  C40: what the encryptor seals it opens again, whatever the plaintext; and a text it opens is a nonce
  followed by something the cipher authenticated under that nonce. The cipher is assumed to open what it
  sealed under a nonce of its size, and the random source to fill the buffer.
\<close>

theorem decrypt_encrypt:
  assumes "\<And>n p. length n = ad_NonceSize (en_aead e) \<Longrightarrow> ad_Open (en_aead e) n (ad_Seal (en_aead e) n p) = Inr p"
    and "\<And>n w b w'. rand_read n w = (Inr b, w') \<Longrightarrow> length b = n"
  shows "(case Encrypt rand_read e plaintext w of (Inr c, _) \<Rightarrow> Decrypt e c = Inr plaintext | (Inl _, _) \<Rightarrow> True) \<and>
    (Decrypt e c = Inr p \<longleftrightarrow> (\<exists>nonce sealed. c = nonce @ sealed \<and> length nonce = ad_NonceSize (en_aead e) \<and>
       ad_Open (en_aead e) nonce sealed = Inr p))"
proof
  show "case Encrypt rand_read e plaintext w of (Inr c, _) \<Rightarrow> Decrypt e c = Inr plaintext | (Inl _, _) \<Rightarrow> True"
    using assms by (auto simp: Encrypt_def Decrypt_def Let_def split: prod.splits sum.splits)
  show "Decrypt e c = Inr p \<longleftrightarrow> (\<exists>nonce sealed. c = nonce @ sealed \<and> length nonce = ad_NonceSize (en_aead e) \<and>
      ad_Open (en_aead e) nonce sealed = Inr p)" (is "_ \<longleftrightarrow> ?R")
  proof
    assume "Decrypt e c = Inr p"
    then show ?R
      by (intro exI [of _ "take (ad_NonceSize (en_aead e)) c"] exI [of _ "drop (ad_NonceSize (en_aead e)) c"])
        (auto simp: Decrypt_def Let_def split: if_splits sum.splits)
  qed (auto simp: Decrypt_def Let_def)
qed

text \<open>A cipher that authenticates by repeating the nonce.\<close>

definition demo_encryptor :: aesgcm_encryptor where
  "demo_encryptor = \<lparr>en_aead = \<lparr>ad_NonceSize = 2, ad_Seal = (\<lambda>n p. n @ p),
     ad_Open = (\<lambda>n s. if take 2 s = n then Inr (drop 2 s) else Inl (Foreign 0))\<rparr>\<rparr>"

theorem decrypt_encrypt_witness:
  "Decrypt demo_encryptor (fst (''ab'', ()) @ ad_Seal (en_aead demo_encryptor) ''ab'' ''text'') = Inr ''text''"
proof -
  have s: "ad_NonceSize (en_aead demo_encryptor) = 2" by (simp add: demo_encryptor_def)
  have "(case Encrypt (\<lambda>n w. (Inr (replicate n (CHR ''a'')), w)) demo_encryptor ''text'' () of
        (Inr c, _) \<Rightarrow> Decrypt demo_encryptor c = Inr ''text'' | (Inl _, _) \<Rightarrow> True) \<and>
      (Decrypt demo_encryptor ''ababtext'' = Inr ''text'' \<longleftrightarrow> (\<exists>nonce sealed. ''ababtext'' = nonce @ sealed \<and>
         length nonce = ad_NonceSize (en_aead demo_encryptor) \<and> ad_Open (en_aead demo_encryptor) nonce sealed = Inr ''text''))"
    by (rule decrypt_encrypt) (auto simp: demo_encryptor_def)
  moreover have "\<exists>nonce sealed. ''ababtext'' = nonce @ sealed \<and>
      length nonce = ad_NonceSize (en_aead demo_encryptor) \<and> ad_Open (en_aead demo_encryptor) nonce sealed = Inr ''text''"
    by (intro exI [of _ "''ab''"] exI [of _ "''abtext''"]) (simp add: demo_encryptor_def)
  ultimately show ?thesis by (simp add: demo_encryptor_def)
qed

end
