(* ===== verification/Fcm.thy ===== *)
theory Fcm
  imports Prelude
begin

text \<open>
  Package \<^verbatim>\<open>fcm\<close>: the service account and project checks (\<^verbatim>\<open>credentials.go\<close>, \<^verbatim>\<open>fcm.go\<close>), the message that is
  sent (\<^verbatim>\<open>message.go\<close>) and the reading of the answer (\<^verbatim>\<open>response.go\<close>). JSON decoding, the key parsers, the
  transport with its token source, path escaping and the clock are parameters.
\<close>

section \<open>Configuration\<close>

definition ErrInvalidCredentials :: go_err where
  "ErrInvalidCredentials = Sentinel ''fcm: service account credentials are invalid''"
definition ErrMissingProject :: go_err where "ErrMissingProject = Sentinel ''fcm: project id must not be empty''"
definition ErrProjectMismatch :: go_err where
  "ErrProjectMismatch = Sentinel ''fcm: project does not match the service account''"
definition ErrEmptyAddress :: go_err where "ErrEmptyAddress = Sentinel ''fcm: address must not be empty''"

definition DefaultEndpoint :: string where "DefaultEndpoint = ''https://fcm.googleapis.com''"
definition DefaultTokenURL :: string where "DefaultTokenURL = ''https://oauth2.googleapis.com/token''"
definition messagingScope :: string where "messagingScope = ''https://www.googleapis.com/auth/firebase.messaging''"

record service_account =
  sv_Type :: string
  sv_ProjectID :: string
  sv_PrivateKeyID :: string
  sv_PrivateKey :: string
  sv_ClientEmail :: string
  sv_TokenURI :: string

definition DefaultTimeout :: duration where "DefaultTimeout = 15 * Second"
definition maxResponseBody :: nat where "maxResponseBody = 65536"

text \<open>An \<^verbatim>\<open>http.Client\<close>, by its timeout and its transport; a transport the caller supplies is named by a number.\<close>

datatype round_tripper = DefaultTransport | CallerTransport nat

record fcm_http_client =
  hl_Timeout :: duration
  hl_Transport :: "round_tripper option"

definition transportOf :: "fcm_http_client \<Rightarrow> round_tripper" where
  "transportOf c = (case hl_Transport c of Some t \<Rightarrow> t | None \<Rightarrow> DefaultTransport)"

record fcm_config =
  fm_ProjectID :: string
  fm_Credentials :: string
  fm_Endpoint :: string
  fm_TokenURL :: string
  fm_HTTPClient :: "fcm_http_client option"

text \<open>
  The parsers of the standard library: the bytes of a PEM block, if there is one; the kind of a PKCS #8
  key (RSA or not) or its error; whether a PKCS #1 key parses.
\<close>

record key_env =
  ke_pem :: "string \<Rightarrow> string option"
  ke_pkcs8 :: "string \<Rightarrow> go_err + bool"
  ke_pkcs1 :: "string \<Rightarrow> bool"
  ke_account :: "string \<Rightarrow> go_err + service_account"
  ke_path_escape :: "string \<Rightarrow> string"

definition validateKey :: "key_env \<Rightarrow> string \<Rightarrow> go_err option" where
  "validateKey env key0 =
     (let key = (case ke_pem env key0 of Some b \<Rightarrow> b | None \<Rightarrow> key0) in
      case ke_pkcs8 env key of
        Inl err \<Rightarrow> if \<not> ke_pkcs1 env key
                  then Some (Wrapped ''private_key is neither PKCS #8 nor PKCS #1: %w'' [err]) else None
      | Inr is_rsa \<Rightarrow> if \<not> is_rsa then Some (Sentinel ''private_key is not an RSA key'') else None)"

definition parseServiceAccount :: "key_env \<Rightarrow> string \<Rightarrow> go_err + service_account" where
  "parseServiceAccount env raw =
     (case ke_account env raw of
        Inl err \<Rightarrow> Inl (Wrapped ''%w: %w'' [ErrInvalidCredentials, err])
      | Inr account \<Rightarrow>
          if sv_Type account \<noteq> ''service_account'' \<or> sv_ClientEmail account = [] \<or> sv_PrivateKey account = []
          then Inl (Wrapped ''%w: expected a service account key with client_email and private_key'' [ErrInvalidCredentials])
          else (case validateKey env (sv_PrivateKey account) of
                  Some err \<Rightarrow> Inl (Wrapped ''%w: %w'' [ErrInvalidCredentials, err])
                | None \<Rightarrow> Inr account))"

definition resolveProjectID :: "string \<Rightarrow> string \<Rightarrow> go_err + string" where
  "resolveProjectID configured account =
     (let projectID = (if trim_space configured = [] then account else trim_space configured) in
      if projectID = [] then Inl ErrMissingProject
      else if account \<noteq> [] \<and> projectID \<noteq> account then Inl (Wrapped ''%w: %q is not %q'' [ErrProjectMismatch])
      else Inr projectID)"

fun firstNonEmpty :: "string list \<Rightarrow> string" where
  "firstNonEmpty [] = []"
| "firstNonEmpty (v # vs) = (if trim_space v \<noteq> [] then trim_space v else firstNonEmpty vs)"

text \<open>\<open>strings.TrimRight(s, "/")\<close>\<close>

definition trim_right_slash :: "string \<Rightarrow> string" where
  "trim_right_slash s = rev (dropWhile (\<lambda>c. c = CHR ''/'') (rev s))"

text \<open>
  \<open>jwt_config\<close> is the signer the token source is built from, \<open>cl_tokenClient\<close> the client its context carries,
  \<open>cl_base\<close> the transport under the authorising one and \<open>cl_timeout\<close> the timeout of the copied client.
\<close>

record jwt_config =
  jw_Email :: string
  jw_PrivateKey :: string
  jw_PrivateKeyID :: string
  jw_Scopes :: "string list"
  jw_TokenURL :: string

record fcm_client =
  cl_projectID :: string
  cl_sendURL :: string
  cl_jwt :: jwt_config
  cl_tokenClient :: fcm_http_client
  cl_base :: round_tripper
  cl_timeout :: duration

definition fcm_New :: "key_env \<Rightarrow> fcm_config \<Rightarrow> go_err + fcm_client" where
  "fcm_New env cfg =
     (case parseServiceAccount env (fm_Credentials cfg) of
        Inl err \<Rightarrow> Inl err
      | Inr account \<Rightarrow>
          (case resolveProjectID (fm_ProjectID cfg) (sv_ProjectID account) of
             Inl err \<Rightarrow> Inl err
           | Inr projectID \<Rightarrow>
               (let base = (case fm_HTTPClient cfg of
                              Some c \<Rightarrow> c | None \<Rightarrow> \<lparr>hl_Timeout = DefaultTimeout, hl_Transport = None\<rparr>);
                    jwtConfig = \<lparr>jw_Email = sv_ClientEmail account, jw_PrivateKey = sv_PrivateKey account,
                      jw_PrivateKeyID = sv_PrivateKeyID account, jw_Scopes = [messagingScope],
                      jw_TokenURL = firstNonEmpty [fm_TokenURL cfg, sv_TokenURI account, DefaultTokenURL]\<rparr>;
                    endpoint = trim_right_slash (firstNonEmpty [fm_Endpoint cfg, DefaultEndpoint])
                in Inr \<lparr>cl_projectID = projectID,
                        cl_sendURL = endpoint @ ''/v1/projects/'' @ ke_path_escape env projectID @ ''/messages:send'',
                        cl_jwt = jwtConfig, cl_tokenClient = base, cl_base = transportOf base,
                        cl_timeout = hl_Timeout base\<rparr>)))"

section \<open>Messages\<close>

definition maxTitleBytes :: nat where "maxTitleBytes = 512"
definition maxBodyBytes :: nat where "maxBodyBytes = 2048"

record notification_message =
  nm_Address :: string
  nm_Title :: string
  nm_Body :: string
  nm_Link :: string
  nm_Tag :: string
  nm_Data :: "(string, string) gomap"
  nm_TTL :: duration

record send_request =
  sr_Token :: string
  sr_Data :: "(string, string) gomap"
  sr_Headers :: "(string, string) gomap"

text \<open>\<open>utf8.RuneStart\<close>: not a continuation byte.\<close>

definition rune_start :: "char \<Rightarrow> bool" where
  "rune_start c \<longleftrightarrow> (of_char c :: nat) div 64 \<noteq> 2"

text \<open>The loop; its index never leaves the string, because the limit is below its length.\<close>

fun cut_back :: "string \<Rightarrow> nat \<Rightarrow> nat" where
  "cut_back s 0 = 0"
| "cut_back s (Suc n) = (if \<not> rune_start (s ! Suc n) then cut_back s n else Suc n)"

definition truncateBytes :: "string \<Rightarrow> nat \<Rightarrow> string" where
  "truncateBytes s limit = (if length s \<le> limit then s else take (cut_back s limit) s)"

definition newSendRequest :: "notification_message \<Rightarrow> go_err + send_request" where
  "newSendRequest msg =
     (let token = trim_space (nm_Address msg) in
      if token = [] then Inl ErrEmptyAddress
      else
        (let data = AList.update ''tag'' (nm_Tag msg) (AList.update ''link'' (nm_Link msg)
               (AList.update ''body'' (truncateBytes (nm_Body msg) maxBodyBytes)
                 (AList.update ''title'' (truncateBytes (nm_Title msg) maxTitleBytes) (nm_Data msg))));
             headers = [(''Urgency'', ''high'')] @
               (if 0 < nm_TTL msg then [(''TTL'', format_nat (nat (trunc_div (nm_TTL msg) Second)))] else [])
         in Inr \<lparr>sr_Token = token, sr_Data = data, sr_Headers = headers\<rparr>))"

section \<open>Answers\<close>

record send_response =
  sp_StatusCode :: int
  sp_Body :: string
  sp_Headers :: "(string, string) gomap"
  sp_AcceptedName :: string
  sp_ErrorCode :: string
  sp_RetryAfter :: duration

text \<open>\<open>pe_name\<close> and \<open>pe_error\<close> decode the two shapes of an answer: the name, and the status with the codes of the details.\<close>

record parse_env =
  pe_name :: "string \<Rightarrow> string option"
  pe_error :: "string \<Rightarrow> (string \<times> string list) option"
  pe_time :: "string \<Rightarrow> instant option"

definition parseErrorCode :: "parse_env \<Rightarrow> string \<Rightarrow> string" where
  "parseErrorCode env body =
     (case pe_error env body of
        None \<Rightarrow> []
      | Some (status, codes) \<Rightarrow> (case filter (\<lambda>c. c \<noteq> []) codes of c # _ \<Rightarrow> c | [] \<Rightarrow> status))"

definition fcm_parseRetryAfter :: "parse_env \<Rightarrow> instant \<Rightarrow> string \<Rightarrow> duration" where
  "fcm_parseRetryAfter env now s =
     (if s = [] then 0
      else case atoi s of
          Some seconds \<Rightarrow> max (wrap64 (seconds * Second)) 0
        | None \<Rightarrow> (case pe_time env s of Some t \<Rightarrow> max (time_sub t now) 0 | None \<Rightarrow> 0))"

definition newSendResponse ::
  "parse_env \<Rightarrow> instant \<Rightarrow> int \<Rightarrow> string \<Rightarrow> string \<Rightarrow> (string, string) gomap \<Rightarrow> send_response"
where
  "newSendResponse env now status retryAfter body headers =
     (let out = \<lparr>sp_StatusCode = status, sp_Body = body, sp_Headers = headers, sp_AcceptedName = [],
            sp_ErrorCode = [], sp_RetryAfter = 0\<rparr>
      in if status = 200 then
           (case pe_name env body of Some name \<Rightarrow> out\<lparr>sp_AcceptedName := name\<rparr> | None \<Rightarrow> out)
         else out\<lparr>sp_ErrorCode := parseErrorCode env body, sp_RetryAfter := fcm_parseRetryAfter env now retryAfter\<rparr>)"

definition Accepted :: "send_response \<Rightarrow> bool" where
  "Accepted r \<longleftrightarrow> sp_StatusCode r = 200"

definition Retryable :: "send_response \<Rightarrow> bool" where
  "Retryable r =
     (if sp_ErrorCode r \<in> {''QUOTA_EXCEEDED'', ''UNAVAILABLE'', ''INTERNAL''} then True
      else sp_StatusCode r = 429 \<or> 500 \<le> sp_StatusCode r)"

definition InvalidToken :: "send_response \<Rightarrow> bool" where
  "InvalidToken r \<longleftrightarrow> sp_ErrorCode r = ''UNREGISTERED'' \<or> sp_ErrorCode r = ''SENDER_ID_MISMATCH''"

text \<open>
  \<open>Send\<close>. \<open>post\<close> is the client's \<open>Do\<close> with the authorised transport: the error of building or sending the
  request (the format tells which), or the status, the \<open>Retry-After\<close> header and the bytes of the body
  that could be read, at most 64 KB.
\<close>

definition fcm_Send ::
  "parse_env \<Rightarrow> (send_request \<Rightarrow> go_err + string) \<Rightarrow>
   (fcm_client \<Rightarrow> string \<Rightarrow> 'w \<Rightarrow> (go_err + (go_err + int \<times> string \<times> string)) \<times> 'w) \<Rightarrow> ('w \<Rightarrow> instant) \<Rightarrow>
   fcm_client \<Rightarrow> notification_message \<Rightarrow> 'w \<Rightarrow> (go_err + send_response) \<times> 'w"
where
  "fcm_Send env marshal post now c msg w =
     (case newSendRequest msg of
        Inl err \<Rightarrow> (Inl err, w)
      | Inr request \<Rightarrow>
          (case marshal request of
             Inl err \<Rightarrow> (Inl (Wrapped ''fcm: encode message: %w'' [err]), w)
           | Inr payload \<Rightarrow>
               (case post c payload w of
                  (Inl err, w') \<Rightarrow> (Inl (Wrapped ''fcm: build request: %w'' [err]), w')
                | (Inr (Inl err), w') \<Rightarrow> (Inl (Wrapped ''fcm: send message: %w'' [err]), w')
                | (Inr (Inr (status, retryAfter, body)), w') \<Rightarrow>
                    (Inr (newSendResponse env (now w') status retryAfter (take maxResponseBody body) (sr_Headers request)), w'))))"

section \<open>Lemmas\<close>

lemma cut_back_le: "cut_back s n \<le> n"
  by (induction s n rule: cut_back.induct) auto

lemma cut_back_start: "cut_back s n = 0 \<or> rune_start (s ! cut_back s n)"
  by (induction s n rule: cut_back.induct) auto

lemma cut_back_max: "cut_back s n < m \<Longrightarrow> m \<le> n \<Longrightarrow> \<not> rune_start (s ! m)"
  by (induction s n rule: cut_back.induct) (auto simp: le_Suc_eq split: if_splits)

text \<open>
  \<open>cut_text limit s t\<close>: \<open>t\<close> is \<open>s\<close> when that fits, and else its longest prefix within the limit that ends
  before the start of a character.
\<close>

definition cut_text :: "nat \<Rightarrow> string \<Rightarrow> string \<Rightarrow> bool" where
  "cut_text limit s t \<longleftrightarrow> prefix t s \<and> length t \<le> limit \<and>
     (if length s \<le> limit then t = s
      else (t = [] \<or> rune_start (s ! length t)) \<and> (\<forall>m \<in> {length t <.. limit}. \<not> rune_start (s ! m)))"

section \<open>Properties\<close>

lemma truncate_bytes: "cut_text limit s (truncateBytes s limit)"
proof (cases "length s \<le> limit")
  case True
  then show ?thesis by (simp add: truncateBytes_def cut_text_def)
next
  case False
  have "length (truncateBytes s limit) = cut_back s limit"
    using False cut_back_le [of s limit] by (simp add: truncateBytes_def)
  with False cut_back_le [of s limit] cut_back_start [of s limit] cut_back_max [of s limit] show ?thesis
    by (auto simp: truncateBytes_def cut_text_def take_is_prefix)
qed

text \<open>
  A message is refused exactly when its address is blank; otherwise the request carries the trimmed
  address, the title and body within their limits, the link and the tag, whatever the extra data says
  under those keys, and the extra data unchanged under every other key.
\<close>

lemma send_request_fields:
  "case newSendRequest msg of
     Inl e \<Rightarrow> e = ErrEmptyAddress \<and> trim_space (nm_Address msg) = []
   | Inr r \<Rightarrow> sr_Token r = trim_space (nm_Address msg) \<and> sr_Token r \<noteq> [] \<and>
       map_of (sr_Data r) = (map_of (nm_Data msg))(''title'' \<mapsto> truncateBytes (nm_Title msg) 512,
         ''body'' \<mapsto> truncateBytes (nm_Body msg) 2048, ''link'' \<mapsto> nm_Link msg, ''tag'' \<mapsto> nm_Tag msg) \<and>
       map_of (sr_Headers r) ''Urgency'' = Some ''high'' \<and>
       (map_of (sr_Headers r) ''TTL'' = None \<longleftrightarrow> nm_TTL msg \<le> 0)"
  by (auto simp: newSendRequest_def Let_def maxTitleBytes_def maxBodyBytes_def)

text \<open>The time to live is sent in whole seconds, rounded down.\<close>

lemma send_request_ttl:
  assumes "newSendRequest msg = Inr r"
  shows "map_of (sr_Headers r) ''TTL'' = (if 0 < nm_TTL msg then Some (format_nat (nat (nm_TTL msg div Second))) else None)"
proof -
  have "0 < nm_TTL msg \<Longrightarrow> trunc_div (nm_TTL msg) Second = nm_TTL msg div Second"
    by (simp add: trunc_div_def clock_simps)
  then show ?thesis using assms by (auto simp: newSendRequest_def Let_def split: if_splits)
qed

lemma retry_after_nonneg: "0 \<le> fcm_parseRetryAfter env now s"
  by (simp add: fcm_parseRetryAfter_def split: option.splits)

lemma send_response_verdicts:
  "let r = newSendResponse env now status ra body headers in
     sp_StatusCode r = status \<and> sp_Body r = body \<and> sp_Headers r = headers \<and> 0 \<le> sp_RetryAfter r \<and>
     (Accepted r \<longleftrightarrow> status = 200) \<and> \<not> (Accepted r \<and> (Retryable r \<or> InvalidToken r)) \<and>
     \<not> (status = 429 \<and> \<not> Retryable r) \<and> \<not> (500 \<le> status \<and> \<not> Retryable r)"
  using retry_after_nonneg [of env now ra]
  by (simp add: newSendResponse_def Accepted_def Retryable_def InvalidToken_def Let_def split: option.splits)

text \<open>A time to live below one second is sent as zero seconds, which asks not to keep the message at all.\<close>

lemma ttl_below_a_second:
  assumes "0 < nm_TTL msg" and "nm_TTL msg < Second" and "newSendRequest msg = Inr r"
  shows "map_of (sr_Headers r) ''TTL'' = Some ''0''"
proof -
  have "trunc_div (nm_TTL msg) Second = 0" using assms(1,2) by (simp add: trunc_div_def clock_simps)
  moreover have "format_nat 0 = ''0''" by code_simp
  ultimately show ?thesis using assms by (auto simp: newSendRequest_def Let_def split: if_splits)
qed

text \<open>
  The project messages are sent through is the configured one or, when that is blank, the service
  account's, and never differs from an account's that is known.
\<close>

lemma resolve_project_iff:
  "resolveProjectID configured account = Inr p \<longleftrightarrow>
     p \<noteq> [] \<and> p = (if trim_space configured = [] then account else trim_space configured) \<and> (account = [] \<or> p = account)"
  by (auto simp: resolveProjectID_def Let_def)

text \<open>
  C39: a message FCM answers is the one the caller gave: the request carries the trimmed, non-blank
  address, the caller's data with its title and body keys set to the title and body cut at a character boundary
  to 512 and 2048 bytes and its link and tag keys to the link and tag, and the time to live in whole seconds
  when it is positive. The answer is returned as a response and not as an error, accepted exactly on
  status 200, and an accepted message is never reported as retryable nor its address as invalid, while 429
  and every 5xx are retryable; the delay is not negative.
\<close>

theorem send_contract:
  assumes "newSendRequest msg = Inr r" and "marshal r = Inr payload"
    and "post c payload w = (Inr (Inr (status, retryAfter, body)), w')"
  shows "\<exists>title txt resp. fcm_Send env marshal post now c msg w = (Inr resp, w') \<and>
    sr_Token r = trim_space (nm_Address msg) \<and> sr_Token r \<noteq> [] \<and>
    cut_text 512 (nm_Title msg) title \<and> cut_text 2048 (nm_Body msg) txt \<and>
    map_of (sr_Data r) = (map_of (nm_Data msg))(''title'' \<mapsto> title, ''body'' \<mapsto> txt,
      ''link'' \<mapsto> nm_Link msg, ''tag'' \<mapsto> nm_Tag msg) \<and>
    map_of (sr_Headers r) ''TTL'' = (if 0 < nm_TTL msg then Some (format_nat (nat (nm_TTL msg div Second))) else None) \<and>
    sp_StatusCode resp = status \<and> sp_Body resp = take 65536 body \<and> sp_Headers resp = sr_Headers r \<and>
    (Accepted resp \<longleftrightarrow> status = 200) \<and> \<not> (Accepted resp \<and> (Retryable resp \<or> InvalidToken resp)) \<and>
    \<not> (status = 429 \<and> \<not> Retryable resp) \<and> \<not> (500 \<le> status \<and> \<not> Retryable resp) \<and> 0 \<le> sp_RetryAfter resp"
proof -
  define resp where "resp = newSendResponse env (now w') status retryAfter (take 65536 body) (sr_Headers r)"
  have send: "fcm_Send env marshal post now c msg w = (Inr resp, w')"
    using assms by (simp add: fcm_Send_def maxResponseBody_def resp_def)
  have verdicts: "sp_StatusCode resp = status" "sp_Body resp = take 65536 body" "sp_Headers resp = sr_Headers r"
    "Accepted resp \<longleftrightarrow> status = 200" "\<not> (Accepted resp \<and> (Retryable resp \<or> InvalidToken resp))"
    "\<not> (status = 429 \<and> \<not> Retryable resp)" "\<not> (500 \<le> status \<and> \<not> Retryable resp)" "0 \<le> sp_RetryAfter resp"
    using send_response_verdicts [of env "now w'" status retryAfter "take 65536 body" "sr_Headers r"]
    unfolding resp_def [symmetric] Let_def by - (elim conjE, assumption)+
  have token: "sr_Token r = trim_space (nm_Address msg)" "sr_Token r \<noteq> []"
    and data: "map_of (sr_Data r) = (map_of (nm_Data msg))(''title'' \<mapsto> truncateBytes (nm_Title msg) 512,
      ''body'' \<mapsto> truncateBytes (nm_Body msg) 2048, ''link'' \<mapsto> nm_Link msg, ''tag'' \<mapsto> nm_Tag msg)"
    using send_request_fields [of msg, unfolded assms(1) sum.case] by - (elim conjE, assumption)+
  show ?thesis
    by (rule exI [of _ "truncateBytes (nm_Title msg) 512"], rule exI [of _ "truncateBytes (nm_Body msg) 2048"],
        rule exI [of _ resp]) (intro conjI send token data truncate_bytes send_request_ttl [OF assms(1)] verdicts)
qed

definition demo_message :: notification_message where
  "demo_message = \<lparr>nm_Address = '' tok '', nm_Title = ''Hi'', nm_Body = ''There'', nm_Link = ''/x'', nm_Tag = ''t'',
     nm_Data = [(''id'', ''7''), (''tag'', ''other'')], nm_TTL = 90 * Second\<rparr>"

definition demo_client :: fcm_client where
  "demo_client = \<lparr>cl_projectID = ''p'', cl_sendURL = ''https://fcm.googleapis.com/v1/projects/p/messages:send'',
     cl_jwt = \<lparr>jw_Email = ''e'', jw_PrivateKey = ''k'', jw_PrivateKeyID = ''i'', jw_Scopes = [messagingScope], jw_TokenURL = DefaultTokenURL\<rparr>,
     cl_tokenClient = \<lparr>hl_Timeout = DefaultTimeout, hl_Transport = None\<rparr>, cl_base = DefaultTransport, cl_timeout = DefaultTimeout\<rparr>"

definition demo_parse_env :: parse_env where
  "demo_parse_env = \<lparr>pe_name = (\<lambda>_. None), pe_error = (\<lambda>_. Some (''UNAVAILABLE'', [])), pe_time = (\<lambda>_. None)\<rparr>"

lemma demo_request: "\<exists>r. newSendRequest demo_message = Inr r"
  by (auto simp: newSendRequest_def demo_message_def Let_def) code_simp

theorem send_contract_witness:
  "\<exists>r title txt resp. newSendRequest demo_message = Inr r \<and>
     fcm_Send demo_parse_env (\<lambda>_. Inr ''{}'') (\<lambda>_ _ w. (Inr (Inr (503, ''30'', ''{}'')), w)) (\<lambda>_. 0) demo_client demo_message () = (Inr resp, ()) \<and>
     cut_text 512 ''Hi'' title \<and> cut_text 2048 ''There'' txt \<and>
     map_of (sr_Data r) ''tag'' = Some ''t'' \<and> map_of (sr_Data r) ''id'' = Some ''7'' \<and>
     map_of (sr_Headers r) ''TTL'' = Some (format_nat 90) \<and> Retryable resp \<and> \<not> Accepted resp"
proof -
  obtain r where r: "newSendRequest demo_message = Inr r" using demo_request by blast
  show ?thesis
    using send_contract [of demo_message r "\<lambda>_. Inr ''{}''" "''{}''" "\<lambda>_ _ w. (Inr (Inr (503, ''30'', ''{}'')), w)" demo_client "()"
        503 "''30''" "''{}''" "()" demo_parse_env "\<lambda>_. 0", OF r refl refl] r
    by (auto simp: demo_message_def clock_simps)
qed

end
