(* ===== verification/Progress.thy ===== *)
theory Progress
  imports Steps
begin

text \<open>
  The terminal progress display (\<^verbatim>\<open>src/cli/progress.go\<close>): a pool of display slots that gates the workers,
  the render loop and its life cycle, as operations on the shared state and as a step relation for any
  number of workers. The frames of the spinner package are a parameter.
\<close>

section \<open>State and operations\<close>

datatype line_status = statusIdle | statusRunning | statusDone | statusFailed

text \<open>\<open>sl_spin\<close> counts the calls of the spinner's \<open>Next\<close>.\<close>

record slot =
  sl_spin :: nat
  sl_desc :: string
  sl_msg :: string
  sl_status :: line_status

text \<open>
  \<open>pr_free\<close> is the content of the buffered channel, whose capacity is the number of slots; \<open>pr_stop\<close> and
  \<open>pr_done\<close> say that the two channels are closed, \<open>pr_loop\<close> that the render goroutine runs, \<open>pr_once\<close> that
  the \<open>Once\<close> is used up.
\<close>

record progress =
  pr_slots :: "slot list"
  pr_free :: "nat list"
  pr_once :: bool
  pr_stop :: bool
  pr_done :: bool
  pr_loop :: bool
  pr_started :: bool
  pr_out :: "string list"

definition progress_New :: "int \<Rightarrow> progress" where
  "progress_New numSlots0 =
     (let n = nat (if numSlots0 \<le> 0 then 1 else numSlots0)
      in \<lparr>pr_slots = replicate n \<lparr>sl_spin = 0, sl_desc = [], sl_msg = [], sl_status = statusIdle\<rparr>, pr_free = [0..<n],
          pr_once = False, pr_stop = False, pr_done = False, pr_loop = False, pr_started = False, pr_out = []\<rparr>)"

definition on_slot :: "nat \<Rightarrow> (slot \<Rightarrow> slot) \<Rightarrow> progress \<Rightarrow> progress outcome" where
  "on_slot idx f p =
     (if idx < length (pr_slots p) then Returns (p\<lparr>pr_slots := (pr_slots p)[idx := f (pr_slots p ! idx)]\<rparr>) else Panics)"

definition Acquire :: "string \<Rightarrow> progress \<Rightarrow> (nat \<times> progress) outcome" where
  "Acquire desc p =
     (case pr_free p of
        [] \<Rightarrow> Blocks
      | idx # rest \<Rightarrow>
          (case on_slot idx (\<lambda>s. s\<lparr>sl_desc := desc, sl_msg := ''Starting...'', sl_status := statusRunning\<rparr>)
                  (p\<lparr>pr_free := rest\<rparr>) of
             Returns p' \<Rightarrow> Returns (idx, p') | Panics \<Rightarrow> Panics | Blocks \<Rightarrow> Blocks))"

definition Release :: "nat \<Rightarrow> progress \<Rightarrow> progress outcome" where
  "Release idx p =
     (case on_slot idx (\<lambda>s. s\<lparr>sl_status := statusIdle\<rparr>) p of
        Returns p' \<Rightarrow>
          if length (pr_free p') < length (pr_slots p') then Returns (p'\<lparr>pr_free := pr_free p' @ [idx]\<rparr>) else Blocks
      | r \<Rightarrow> r)"

definition progress_Update :: "nat \<Rightarrow> string \<Rightarrow> progress \<Rightarrow> progress outcome" where
  "progress_Update idx msg p = on_slot idx (\<lambda>s. s\<lparr>sl_msg := msg\<rparr>) p"

definition progress_Done :: "nat \<Rightarrow> string \<Rightarrow> progress \<Rightarrow> progress outcome" where
  "progress_Done idx msg p = on_slot idx (\<lambda>s. s\<lparr>sl_msg := msg, sl_status := statusDone\<rparr>) p"

definition progress_Fail :: "nat \<Rightarrow> string \<Rightarrow> progress \<Rightarrow> progress outcome" where
  "progress_Fail idx msg p = on_slot idx (\<lambda>s. s\<lparr>sl_msg := msg, sl_status := statusFailed\<rparr>) p"

section \<open>Rendering\<close>

definition ansiClearLine :: string where "ansiClearLine = [CHR 0x0D, CHR 0x1B] @ ''[K''"

definition ansiCursorUp :: "nat \<Rightarrow> string" where "ansiCursorUp n = [CHR 0x1B] @ ''['' @ format_nat n @ ''A''"

text \<open>The check mark and the cross are the UTF-8 encodings of U+2713 and U+2717.\<close>

definition render_slot :: "(nat \<Rightarrow> string) \<Rightarrow> slot \<Rightarrow> string \<times> slot" where
  "render_slot frame s =
     (case sl_status s of
        statusIdle \<Rightarrow> (ansiClearLine @ ''    -'' @ [CHR 0x0A], s)
      | statusDone \<Rightarrow>
          (ansiClearLine @ ''['' @ [CHR 0xE2, CHR 0x9C, CHR 0x93] @ ''] '' @ sl_desc s @ '' - '' @ sl_msg s @ [CHR 0x0A], s)
      | statusFailed \<Rightarrow>
          (ansiClearLine @ ''['' @ [CHR 0xE2, CHR 0x9C, CHR 0x97] @ ''] '' @ sl_desc s @ '' - '' @ sl_msg s @ [CHR 0x0A], s)
      | statusRunning \<Rightarrow>
          (ansiClearLine @ ''['' @ frame (sl_spin s) @ ''] '' @ sl_desc s @ '' - '' @ sl_msg s @ [CHR 0x0A],
           s\<lparr>sl_spin := sl_spin s + 1\<rparr>))"

definition progress_render :: "(nat \<Rightarrow> string) \<Rightarrow> progress \<Rightarrow> progress" where
  "progress_render frame p =
     (let n = length (pr_slots p) in
      if n = 0 then p
      else
        (let text = (if pr_started p then ansiCursorUp n else []) @ concat (map (fst \<circ> render_slot frame) (pr_slots p))
         in p\<lparr>pr_slots := map (snd \<circ> render_slot frame) (pr_slots p), pr_out := pr_out p @ [text], pr_started := True\<rparr>))"

section \<open>Life cycle\<close>

definition progress_Start :: "progress \<Rightarrow> progress" where
  "progress_Start p =
     (if pr_once p then p else p\<lparr>pr_once := True, pr_loop := True, pr_out := pr_out p @ [[CHR 0x0A]]\<rparr>)"

text \<open>One turn of the render goroutine: a tick, or its end on the closed channel.\<close>

definition loop_tick :: "(nat \<Rightarrow> string) \<Rightarrow> progress \<Rightarrow> progress" where
  "loop_tick frame p = progress_render frame p"

definition loop_exit :: "progress \<Rightarrow> progress" where
  "loop_exit p = p\<lparr>pr_loop := False, pr_done := True\<rparr>"

text \<open>\<open>Stop\<close> up to its wait for \<open>doneCh\<close>, and after it.\<close>

definition stop_begin :: "progress \<Rightarrow> progress" where
  "stop_begin p = p\<lparr>pr_once := True, pr_stop := True\<rparr>"

definition stop_finish :: "(nat \<Rightarrow> string) \<Rightarrow> progress \<Rightarrow> progress" where
  "stop_finish frame p = (let p' = progress_render frame p in p'\<lparr>pr_out := pr_out p' @ [[CHR 0x0A]]\<rparr>)"

section \<open>Workers\<close>

text \<open>The second component of a state says which slot a worker holds.\<close>

inductive pool_step :: "(nat \<Rightarrow> string) \<Rightarrow> progress \<times> (nat \<rightharpoonup> nat) \<Rightarrow> progress \<times> (nat \<rightharpoonup> nat) \<Rightarrow> bool" for frame where
  p_acquire: "h w = None \<Longrightarrow> Acquire desc p = Returns (idx, p') \<Longrightarrow> pool_step frame (p, h) (p', h(w \<mapsto> idx))"
| p_release: "h w = Some idx \<Longrightarrow> Release idx p = Returns p' \<Longrightarrow> pool_step frame (p, h) (p', h(w := None))"
| p_update: "h w = Some idx \<Longrightarrow> progress_Update idx msg p = Returns p' \<Longrightarrow> pool_step frame (p, h) (p', h)"
| p_done: "h w = Some idx \<Longrightarrow> progress_Done idx msg p = Returns p' \<Longrightarrow> pool_step frame (p, h) (p', h)"
| p_fail: "h w = Some idx \<Longrightarrow> progress_Fail idx msg p = Returns p' \<Longrightarrow> pool_step frame (p, h) (p', h)"
| p_start: "pool_step frame (p, h) (progress_Start p, h)"
| p_tick: "pr_loop p \<Longrightarrow> pool_step frame (p, h) (loop_tick frame p, h)"
| p_exit: "pr_loop p \<Longrightarrow> pr_stop p \<Longrightarrow> pool_step frame (p, h) (loop_exit p, h)"
| p_stop: "pool_step frame (p, h) (stop_begin p, h)"
| p_finish: "pr_stop p \<Longrightarrow> pr_done p \<Longrightarrow> pool_step frame (p, h) (stop_finish frame p, h)"

definition pool_reachable ::
  "(nat \<Rightarrow> string) \<Rightarrow> progress \<times> (nat \<rightharpoonup> nat) \<Rightarrow> progress \<times> (nat \<rightharpoonup> nat) \<Rightarrow> bool"
where
  "pool_reachable frame = (pool_step frame)\<^sup>*\<^sup>*"

text \<open>The slots are the free ones and, one each, those of the workers; a free slot is shown as idle.\<close>

definition pool_inv :: "nat \<Rightarrow> progress \<times> (nat \<rightharpoonup> nat) \<Rightarrow> bool" where
  "pool_inv n s \<longleftrightarrow> (case s of (p, h) \<Rightarrow>
     length (pr_slots p) = n \<and> distinct (pr_free p) \<and> inj_on h (dom h) \<and>
     set (pr_free p) \<inter> ran h = {} \<and> set (pr_free p) \<union> ran h = {..<n} \<and>
     (\<forall>i \<in> set (pr_free p). sl_status (pr_slots p ! i) = statusIdle))"

lemma on_slot_Returns:
  assumes "on_slot idx f p = Returns p'"
  shows "idx < length (pr_slots p)" "p' = p\<lparr>pr_slots := (pr_slots p)[idx := f (pr_slots p ! idx)]\<rparr>"
  using assms by (auto simp: on_slot_def split: if_splits)

lemma render_slot_status [simp]: "sl_status (snd (render_slot frame s)) = sl_status s"
  by (simp add: render_slot_def split: line_status.split)

lemma progress_render_simps [simp]:
  "pr_free (progress_render frame p) = pr_free p"
  "length (pr_slots (progress_render frame p)) = length (pr_slots p)"
  "i < length (pr_slots p) \<Longrightarrow> sl_status (pr_slots (progress_render frame p) ! i) = sl_status (pr_slots p ! i)"
  "pr_loop (progress_render frame p) = pr_loop p" "pr_done (progress_render frame p) = pr_done p"
  "pr_once (progress_render frame p) = pr_once p" "pr_stop (progress_render frame p) = pr_stop p"
  by (simp_all add: progress_render_def Let_def)

text \<open>A change of the display or of the life cycle that keeps the queue and the states of free slots.\<close>

lemma pool_inv_display:
  assumes "pool_inv n (p, h)" and "pr_free p' = pr_free p" and "length (pr_slots p') = length (pr_slots p)"
    and "\<And>i. i \<in> set (pr_free p) \<Longrightarrow> sl_status (pr_slots p' ! i) = sl_status (pr_slots p ! i)"
  shows "pool_inv n (p', h)"
  using assms by (simp add: pool_inv_def)

lemma pool_free_bound: "pool_inv n (p, h) \<Longrightarrow> i \<in> set (pr_free p) \<Longrightarrow> i < length (pr_slots p)"
  by (auto simp: pool_inv_def)

lemma pool_inv_held:
  assumes "pool_inv n (p, h)" and "h w = Some idx" and "on_slot idx f p = Returns p'"
  shows "pool_inv n (p', h)"
proof (rule pool_inv_display [OF assms(1)])
  have "idx \<in> ran h" using assms(2) by (rule ranI)
  with assms(1) have "idx \<notin> set (pr_free p)" by (auto simp: pool_inv_def)
  with on_slot_Returns [OF assms(3)] show "\<And>i. i \<in> set (pr_free p) \<Longrightarrow>
      sl_status (pr_slots p' ! i) = sl_status (pr_slots p ! i)" by (auto simp: nth_list_update)
qed (use on_slot_Returns [OF assms(3)] in auto)

lemma pool_inv_acquire:
  assumes inv: "pool_inv n (p, h)" and w: "h w = None" and a: "Acquire desc p = Returns (idx, p')"
  shows "pool_inv n (p', h(w \<mapsto> idx))"
proof -
  from a obtain rest where free: "pr_free p = idx # rest"
    and p': "idx < length (pr_slots p)" "pr_free p' = rest" "length (pr_slots p') = length (pr_slots p)"
      "\<And>i. i \<noteq> idx \<Longrightarrow> pr_slots p' ! i = pr_slots p ! i"
    by (auto simp: Acquire_def on_slot_def split: list.splits if_splits)
  have "ran (h(w \<mapsto> idx)) = insert idx (ran h)" using w by (rule ran_map_upd)
  moreover have "inj_on (h(w \<mapsto> idx)) (dom (h(w \<mapsto> idx)))"
  proof (rule inj_onI)
    fix x y assume xy: "x \<in> dom (h(w \<mapsto> idx))" "y \<in> dom (h(w \<mapsto> idx))" "(h(w \<mapsto> idx)) x = (h(w \<mapsto> idx)) y"
    have "idx \<notin> ran h" and inj: "inj_on h (dom h)" using inv free by (auto simp: pool_inv_def)
    with xy show "x = y" by (auto simp: ran_def inj_on_def split: if_splits)
  qed
  moreover have "sl_status (pr_slots p' ! i) = statusIdle" if "i \<in> set rest" for i
  proof -
    from that inv free have "i \<noteq> idx" and "sl_status (pr_slots p ! i) = statusIdle" by (auto simp: pool_inv_def)
    with p'(4) show ?thesis by simp
  qed
  ultimately show ?thesis using inv free p'(1-3) unfolding pool_inv_def by auto
qed

lemma pool_inv_release:
  assumes inv: "pool_inv n (p, h)" and w: "h w = Some idx" and r: "Release idx p = Returns p'"
  shows "pool_inv n (p', h(w := None))"
proof -
  from r have p': "pr_free p' = pr_free p @ [idx]" "length (pr_slots p') = length (pr_slots p)"
      "idx < length (pr_slots p)" "sl_status (pr_slots p' ! idx) = statusIdle"
      "\<And>i. i \<noteq> idx \<Longrightarrow> pr_slots p' ! i = pr_slots p ! i"
    by (auto simp: Release_def on_slot_def split: if_splits outcome.splits)
  have inj: "inj_on h (dom h)" using inv by (simp add: pool_inv_def)
  then have only: "\<And>v. h v = Some idx \<Longrightarrow> v = w" using w by (metis domI inj_onD)
  have ran: "ran (h(w := None)) = ran h - {idx}"
  proof (rule set_eqI)
    fix y
    have "y \<in> ran (h(w := None)) \<longleftrightarrow> (\<exists>v. v \<noteq> w \<and> h v = Some y)" by (auto simp: ran_def)
    also have "\<dots> \<longleftrightarrow> (\<exists>v. h v = Some y) \<and> y \<noteq> idx" using only w by (metis option.inject)
    finally show "y \<in> ran (h(w := None)) \<longleftrightarrow> y \<in> ran h - {idx}" by (simp add: ran_def)
  qed
  have "idx \<in> ran h" using w by (rule ranI)
  moreover have "inj_on (h(w := None)) (dom (h(w := None)))"
  proof (rule inj_onI)
    fix x y assume "x \<in> dom (h(w := None))" "y \<in> dom (h(w := None))" "(h(w := None)) x = (h(w := None)) y"
    then show "x = y" using inj by (auto simp: inj_on_def split: if_splits)
  qed
  moreover have "sl_status (pr_slots p' ! i) = statusIdle" if "i \<in> set (pr_free p) \<union> {idx}" for i
    using that inv p'(4,5) by (cases "i = idx") (auto simp: pool_inv_def)
  ultimately show ?thesis using inv p'(1,2) ran unfolding pool_inv_def by auto
qed

lemma pool_inv_step: "pool_step frame s s' \<Longrightarrow> pool_inv n s \<Longrightarrow> pool_inv n s'"
proof (induction rule: pool_step.induct)
  case (p_update h w idx msg p p')
  then show ?case by (auto simp: progress_Update_def intro: pool_inv_held)
next
  case (p_done h w idx msg p p')
  then show ?case by (auto simp: progress_Done_def intro: pool_inv_held)
next
  case (p_fail h w idx msg p p')
  then show ?case by (auto simp: progress_Fail_def intro: pool_inv_held)
next
  case (p_tick p h)
  from p_tick(2) show ?case
    by (rule pool_inv_display) (use pool_free_bound [OF p_tick(2)] in \<open>simp_all add: loop_tick_def\<close>)
next
  case (p_finish p h)
  from p_finish(3) show ?case
    by (rule pool_inv_display) (use pool_free_bound [OF p_finish(3)] in \<open>simp_all add: stop_finish_def Let_def\<close>)
next
  case (p_start p h)
  then show ?case by (intro pool_inv_display [OF p_start]) (auto simp: progress_Start_def)
next
  case (p_exit p h)
  then show ?case by (intro pool_inv_display [OF p_exit(3)]) (auto simp: loop_exit_def)
next
  case (p_stop p h)
  then show ?case by (intro pool_inv_display [OF p_stop]) (auto simp: stop_begin_def)
qed (auto intro: pool_inv_acquire pool_inv_release)

lemma pool_inv_New: "pool_inv (nat (max 1 k)) (progress_New k, Map.empty)"
  by (auto simp: pool_inv_def progress_New_def Let_def max_def)

interpretation pool: preserved "pool_step frame" "pool_inv n" for frame n
  by unfold_locales (rule pool_inv_step)

lemma pool_inv_reachable:
  assumes "pool_reachable frame (progress_New k, Map.empty) s"
  shows "pool_inv (nat (max 1 k)) s"
  using assms pool_inv_New unfolding pool_reachable_def by (rule pool.reachable_keeps)

section \<open>Properties\<close>

text \<open>
  C27: whatever the workers and the render loop do, no two workers share a display slot, at most as many
  workers hold one as there are slots, a worker that releases the slot it holds neither blocks nor
  panics, and a worker that asks for a slot gets one at once exactly when some slot is not held.
\<close>

theorem slots_exclusive:
  assumes "pool_reachable frame (progress_New k, Map.empty) (p, h)"
  shows "inj_on h (dom h) \<and> card (ran h) \<le> nat (max 1 k) \<and>
    (\<forall>w idx. h w = Some idx \<longrightarrow> (\<exists>p'. Release idx p = Returns p')) \<and>
    ((\<exists>r. Acquire desc p = Returns r) \<longleftrightarrow> ran h \<noteq> {..<nat (max 1 k)})"
proof -
  let ?n = "nat (max 1 k)"
  have inv: "pool_inv ?n (p, h)" using assms by (rule pool_inv_reachable)
  then have sub: "ran h \<subseteq> {..<?n}" and free: "set (pr_free p) = {..<?n} - ran h" and len: "length (pr_slots p) = ?n"
    and dist: "distinct (pr_free p)" by (auto simp: pool_inv_def)
  have "\<exists>p'. Release idx p = Returns p'" if "h w = Some idx" for w idx
  proof -
    have "idx \<in> ran h" using that by (rule ranI)
    with sub free have "idx < ?n" "idx \<notin> set (pr_free p)" by auto
    then have "set (pr_free p) \<subset> {..<?n}" using free by auto
    then have "card (set (pr_free p)) < ?n" using psubset_card_mono [of "{..<?n}" "set (pr_free p)"] by simp
    with dist have "length (pr_free p) < ?n" by (simp add: distinct_card)
    with len \<open>idx < ?n\<close> show ?thesis by (simp add: Release_def on_slot_def)
  qed
  moreover have "(\<exists>r. Acquire desc p = Returns r) \<longleftrightarrow> pr_free p \<noteq> []"
  proof (cases "pr_free p")
    case (Cons i rest)
    with free len have "i < length (pr_slots p)" by auto
    with Cons show ?thesis by (simp add: Acquire_def on_slot_def)
  qed (simp add: Acquire_def)
  moreover have "pr_free p \<noteq> [] \<longleftrightarrow> ran h \<noteq> {..<?n}" using free sub by (auto simp: set_empty [symmetric] simp del: set_empty)
  moreover have "card (ran h) \<le> ?n" using card_mono [OF _ sub] by simp
  ultimately show ?thesis using inv by (auto simp: pool_inv_def)
qed

theorem slots_exclusive_witness:
  "pool_reachable (\<lambda>n. ''|'') (progress_New 1, Map.empty) (stop_begin (progress_New 1), Map.empty) \<and>
   (\<exists>r. Acquire ''job'' (stop_begin (progress_New 1)) = Returns r)"
proof -
  have r: "pool_reachable (\<lambda>n. ''|'') (progress_New 1, Map.empty) (stop_begin (progress_New 1), Map.empty)"
    unfolding pool_reachable_def by (rule r_into_rtranclp) (rule p_stop)
  from slots_exclusive [OF r, of "''job''"] r show ?thesis by auto
qed

text \<open>How a step moves the life cycle.\<close>

lemma pool_step_lifecycle:
  assumes "pool_step frame s s'"
  shows "pr_stop (fst s) \<Longrightarrow> pr_stop (fst s')" and "pr_once (fst s) \<Longrightarrow> pr_once (fst s')"
    and "pr_stop (fst s') \<Longrightarrow> pr_stop (fst s) \<or> pr_once (fst s')"
    and "pr_loop (fst s) \<Longrightarrow> pr_loop (fst s') \<or> pr_done (fst s')" and "pr_done (fst s) \<Longrightarrow> pr_done (fst s')"
    and "pr_once (fst s) \<Longrightarrow> \<not> pr_loop (fst s) \<Longrightarrow> pr_loop (fst s') = False \<and> pr_done (fst s') = pr_done (fst s)"
  using assms
  by (cases; auto simp: Acquire_def Release_def progress_Update_def progress_Done_def progress_Fail_def on_slot_def
      progress_Start_def stop_begin_def loop_exit_def loop_tick_def stop_finish_def Let_def
      split: if_splits outcome.splits list.splits)+

text \<open>
  When Stop is called before Start, the render goroutine can never run again and the channel Stop
  waits on is never closed, whatever else happens: the call does not return.
\<close>

definition never_starts :: "progress \<times> (nat \<rightharpoonup> nat) \<Rightarrow> bool" where
  "never_starts s \<longleftrightarrow> pr_once (fst s) \<and> \<not> pr_loop (fst s) \<and> \<not> pr_done (fst s)"

interpretation unstarted: preserved "pool_step frame" never_starts for frame
  by unfold_locales (use pool_step_lifecycle(2,6) in \<open>simp add: never_starts_def\<close>)

lemma stop_before_start_hangs:
  assumes "pool_reachable frame (stop_begin (progress_New k), h0) (p, h)"
  shows "\<not> pr_done p \<and> \<not> pr_loop p \<and> pr_once p"
proof -
  have "never_starts (p, h)"
    using assms unfolding pool_reachable_def
    by (rule unstarted.reachable_keeps) (simp add: never_starts_def stop_begin_def progress_New_def Let_def)
  then show ?thesis by (simp add: never_starts_def)
qed

theorem stop_before_start_hangs_witness:
  "\<not> pr_done (progress_Start (stop_begin (progress_New 2)))"
proof -
  have "pool_reachable (\<lambda>n. ''|'') (stop_begin (progress_New 2), Map.empty) (progress_Start (stop_begin (progress_New 2)), Map.empty)"
    unfolding pool_reachable_def by (rule r_into_rtranclp) (rule p_start)
  from stop_before_start_hangs [OF this] show ?thesis by simp
qed

text \<open>The render goroutine takes the closed channel.\<close>

definition loop_exits :: "progress \<times> (nat \<rightharpoonup> nat) \<Rightarrow> progress \<times> (nat \<rightharpoonup> nat) \<Rightarrow> bool" where
  "loop_exits s s' \<longleftrightarrow> pr_loop (fst s) \<and> pr_stop (fst s) \<and> s' = (loop_exit (fst s), snd s)"

definition stop_after_once :: "progress \<times> (nat \<rightharpoonup> nat) \<Rightarrow> bool" where
  "stop_after_once s \<longleftrightarrow> (pr_stop (fst s) \<longrightarrow> pr_once (fst s))"

lemma stop_after_once_step: "stop_after_once s \<Longrightarrow> pool_step frame s s' \<Longrightarrow> stop_after_once s'"
  unfolding stop_after_once_def using pool_step_lifecycle(2,3) by blast

interpretation stopping: helpful "pool_step frame" stop_after_once loop_exits
  "\<lambda>s. pr_stop (fst s) \<and> pr_loop (fst s)" "\<lambda>s. pr_done (fst s)" for frame
proof
  show "pr_stop (fst s) \<and> pr_loop (fst s) \<Longrightarrow> pool_step frame s s' \<Longrightarrow>
      (pr_stop (fst s') \<and> pr_loop (fst s')) \<or> pr_done (fst s')" for s s'
    using pool_step_lifecycle(1,4) by blast
qed (auto simp: enabled_in_def loop_exits_def loop_exit_def intro: stop_after_once_step)

lemma reachable_stop_after_once:
  assumes "pool_reachable frame (progress_New k, Map.empty) s"
  shows "stop_after_once s"
  using assms unfolding pool_reachable_def
  by (rule stopping.reachable_keeps) (simp add: stop_after_once_def progress_New_def Let_def)


definition demo_stop :: "(progress \<times> (nat \<rightharpoonup> nat)) list" where
  "demo_stop = (let p = progress_New 1; p1 = progress_Start p; p2 = stop_begin p1
     in [(p, Map.empty), (p1, Map.empty), (p2, Map.empty), (loop_exit p2, Map.empty)])"


text \<open>
  Several Stops. The first statement of Stop that looks at the channel and the one that closes it are two
  steps; \<open>stop_begin\<close> is their composition for a call that is alone between them. When two calls look
  before either closes, the second to close panics.
\<close>

definition stop_sees_open :: "progress \<Rightarrow> bool \<times> progress" where
  "stop_sees_open p = (\<not> pr_stop p, p\<lparr>pr_once := True\<rparr>)"

definition stop_close :: "progress \<Rightarrow> progress outcome" where
  "stop_close p = (if pr_stop p then Panics else Returns (p\<lparr>pr_stop := True\<rparr>))"

lemma stop_alone:
  "(case stop_sees_open p of (opened, p') \<Rightarrow> if opened then stop_close p' else Returns p') = Returns (stop_begin p)"
  by (cases p) (auto simp: stop_sees_open_def stop_close_def stop_begin_def)

lemma stop_race_panics:
  assumes "\<not> pr_stop p" and "stop_sees_open p = (a, p1)" and "stop_sees_open p1 = (b, p2)" and "stop_close p2 = Returns p3"
  shows "a \<and> b \<and> stop_close p3 = Panics"
  using assms by (auto simp: stop_sees_open_def stop_close_def split: if_splits)

end
