(* ===== verification/ConfigLoader.thy ===== *)
theory ConfigLoader
  imports Steps
begin

text \<open>
  The configuration loader (\<^verbatim>\<open>src/config/viper.go\<close>): reading with expansion of environment variables, validated
  reloads, subscriptions over buffered channels, and the debounced file watcher. Viper, the file system
  and the environment are parameters; the goroutines are a step relation.
\<close>

section \<open>Errors and options\<close>

definition ErrConfigFileReadFailed :: go_err where
  "ErrConfigFileReadFailed = Sentinel ''error reading configuration file''"
definition ErrConfigUnmarshalFailed :: go_err where
  "ErrConfigUnmarshalFailed = Sentinel ''error parsing configuration''"
definition ErrConfigValidationFailed :: go_err where
  "ErrConfigValidationFailed = Sentinel ''invalid configuration''"
definition ErrConfigReloadFailed :: go_err where
  "ErrConfigReloadFailed = Sentinel ''failed reloading the configuration''"
definition ErrValidationReloadFailed :: go_err where
  "ErrValidationReloadFailed = errors_Join [ErrConfigReloadFailed, ErrConfigValidationFailed]"
definition ErrConfigWatchUnavailable :: go_err where
  "ErrConfigWatchUnavailable = Sentinel ''cannot watch configuration: no config file resolved''"

text \<open>The two callbacks are started as goroutines; a loader records which ones it started.\<close>

record loader_options =
  lp_ConfigName :: string
  lp_ConfigType :: string
  lp_ConfigPaths :: "string list"
  lp_WatchConfig :: bool
  lp_ReloadDebounce :: duration
  lp_hasOnConfigChange :: bool
  lp_hasOnConfigChangeError :: bool

definition DefaultLoaderOptions :: loader_options where
  "DefaultLoaderOptions = \<lparr>lp_ConfigName = ''config'', lp_ConfigType = ''yaml'',
     lp_ConfigPaths = [''.'', ''./config'', ''/etc/app'', ''$HOME/.app''], lp_WatchConfig = False,
     lp_ReloadDebounce = 1 * Second, lp_hasOnConfigChange = False, lp_hasOnConfigChangeError = False\<rparr>"

record 'c config_event =
  ce_OldConfig :: "'c option"
  ce_NewConfig :: "'c option"
  ce_Error :: "go_err option"
  ce_Timestamp :: instant

section \<open>Channels\<close>

text \<open>A subscriber's channel: the buffered events and whether it is closed. The store keeps every channel ever made.\<close>

record 'c event_chan =
  cn_buf :: "'c config_event list"
  cn_closed :: bool

type_synonym 'c chans = "nat \<rightharpoonup> 'c event_chan"

definition chan_capacity :: nat where "chan_capacity = 10"

definition chan_close :: "nat \<Rightarrow> 'c chans \<Rightarrow> 'c chans outcome" where
  "chan_close ch cs =
     (case cs ch of
        None \<Rightarrow> Panics
      | Some c \<Rightarrow> if cn_closed c then Panics else Returns (cs(ch \<mapsto> c\<lparr>cn_closed := True\<rparr>)))"

text \<open>\<open>select { case subscriber <- event: default: }\<close>\<close>

definition try_send :: "'c config_event \<Rightarrow> nat \<Rightarrow> 'c chans \<Rightarrow> 'c chans outcome" where
  "try_send event ch cs =
     (case cs ch of
        None \<Rightarrow> Returns cs
      | Some c \<Rightarrow>
          if cn_closed c then Panics
          else if length (cn_buf c) < chan_capacity then Returns (cs(ch \<mapsto> c\<lparr>cn_buf := cn_buf c @ [event]\<rparr>))
          else Returns cs)"

fun for_all :: "(nat \<Rightarrow> 'c chans \<Rightarrow> 'c chans outcome) \<Rightarrow> nat list \<Rightarrow> 'c chans \<Rightarrow> 'c chans outcome" where
  "for_all f [] cs = Returns cs"
| "for_all f (ch # chs) cs = and_then (f ch cs) (for_all f chs)"

section \<open>The loader\<close>

datatype 'c callback = OnConfigChange 'c | OnConfigChangeError go_err

text \<open>
  \<open>ld_debouncer\<close> is the deadline of the timer while it is armed: a timer that has fired is as good as none,
  because stopping it again has no effect.
\<close>

record 'c loader =
  ld_options :: loader_options
  ld_current :: "'c option"
  ld_subscribers :: "nat list"
  ld_chans :: "'c chans"
  ld_next :: nat
  ld_validator :: "('c \<Rightarrow> go_err option) option"
  ld_cancelled :: bool
  ld_debouncer :: "instant option"
  ld_stopped :: bool
  ld_watching :: bool
  ld_started :: "'c callback list"

definition NewViper :: "loader_options option \<Rightarrow> 'c loader" where
  "NewViper options =
     \<lparr>ld_options = (case options of None \<Rightarrow> DefaultLoaderOptions | Some o' \<Rightarrow> o'), ld_current = None,
      ld_subscribers = [], ld_chans = Map.empty, ld_next = 0, ld_validator = None, ld_cancelled = False,
      ld_debouncer = None, ld_stopped = False, ld_watching = False, ld_started = []\<rparr>"

section \<open>Expansion of environment variables\<close>

definition isShellSpecialVar :: "char \<Rightarrow> bool" where
  "isShellSpecialVar c \<longleftrightarrow> c \<in> set ''*#$@!?-0123456789''"

definition isAlphaNum :: "char \<Rightarrow> bool" where
  "isAlphaNum c \<longleftrightarrow> c = CHR ''_'' \<or> is_digit c \<or>
     (let n = (of_char c :: nat) in (97 \<le> n \<and> n \<le> 122) \<or> (65 \<le> n \<and> n \<le> 90))"

text \<open>\<open>os.Expand\<close>: the name after a dollar sign and the number of bytes it takes; no name and bytes to skip for bad syntax.\<close>

definition getShellName :: "string \<Rightarrow> string \<times> nat" where
  "getShellName s =
     (case s of
        [] \<Rightarrow> ([], 0)
      | c # rest \<Rightarrow>
          if c = CHR ''{'' then
            (if 2 < length s \<and> isShellSpecialVar (s ! 1) \<and> s ! 2 = CHR ''}'' then ([s ! 1], 3)
             else (case cut (CHR ''}'') rest of
                     None \<Rightarrow> ([], 1)
                   | Some (name, _) \<Rightarrow> if name = [] then ([], 2) else (name, length name + 2)))
          else if isShellSpecialVar c then ([c], 1)
          else (takeWhile isAlphaNum s, length (takeWhile isAlphaNum s)))"

function os_Expand :: "(string \<Rightarrow> string) \<Rightarrow> string \<Rightarrow> string" where
  "os_Expand mapping [] = []"
| "os_Expand mapping (c # s) =
     (if c \<noteq> CHR ''$'' \<or> s = [] then c # os_Expand mapping s
      else (case getShellName s of
              (name, w) \<Rightarrow>
                (if name = [] \<and> 0 < w then [] else if name = [] then [c] else mapping name) @
                os_Expand mapping (drop w s)))"
  by pat_completeness auto
termination by (relation "measure (\<lambda>(_, s). length s)") auto

section \<open>Operations\<close>

text \<open>
  The world of a loader: viper with the search for a file (\<open>vi_ReadInConfig\<close> tells a missing file from an
  unreadable one), the settings viper holds itself, the file system, the environment, the parser and
  the decoder of settings, and the clock.
\<close>

datatype read_failure = ConfigFileNotFoundError go_err | ReadFailure go_err

record ('c, 'v, 'w) viper_env =
  vi_ReadInConfig :: "'w \<Rightarrow> read_failure option \<times> 'w"
  vi_ConfigFileUsed :: "'w \<Rightarrow> string"
  vi_own :: "'w \<Rightarrow> 'v"
  vi_ReadFile :: "string \<Rightarrow> 'w \<Rightarrow> (go_err + string) \<times> 'w"
  vi_Getenv :: "'w \<Rightarrow> string \<Rightarrow> string"
  vi_ReadConfig :: "string \<Rightarrow> string \<Rightarrow> go_err + 'v"
  vi_Unmarshal :: "'v \<Rightarrow> go_err + 'c"
  vi_now :: "'w \<Rightarrow> instant"

definition unmarshal_config :: "('c, 'v, 'w) viper_env \<Rightarrow> 'v \<Rightarrow> go_err + 'c" where
  "unmarshal_config env source =
     (case vi_Unmarshal env source of
        Inl e \<Rightarrow> Inl (errors_Join [ErrConfigUnmarshalFailed, e])
      | Inr c \<Rightarrow> Inr c)"

definition loadConfig :: "('c, 'v, 'w) viper_env \<Rightarrow> loader_options \<Rightarrow> 'w \<Rightarrow> (go_err + 'c) \<times> 'w" where
  "loadConfig env opts w =
     (case vi_ReadInConfig env w of
        (Some (ReadFailure e), w1) \<Rightarrow> (Inl (errors_Join [ErrConfigFileReadFailed, e]), w1)
      | (_, w1) \<Rightarrow>
          (let configFile = vi_ConfigFileUsed env w1 in
           if configFile = [] then (unmarshal_config env (vi_own env w1), w1)
           else
             (case vi_ReadFile env configFile w1 of
                (Inl e, w2) \<Rightarrow> (Inl (errors_Join [ErrConfigFileReadFailed, e]), w2)
              | (Inr content, w2) \<Rightarrow>
                  (case vi_ReadConfig env (lp_ConfigType opts) (os_Expand (vi_Getenv env w2) content) of
                     Inl e \<Rightarrow> (Inl (errors_Join [ErrConfigFileReadFailed, e]), w2)
                   | Inr expanded \<Rightarrow> (unmarshal_config env expanded, w2)))))"

definition startWatching :: "('c, 'v, 'w) viper_env \<Rightarrow> 'c loader \<Rightarrow> 'w \<Rightarrow> go_err option \<times> 'c loader" where
  "startWatching env l w =
     (if vi_ConfigFileUsed env w = [] then (Some ErrConfigWatchUnavailable, l)
      else (None, l\<lparr>ld_watching := True\<rparr>))"

definition Load :: "('c, 'v, 'w) viper_env \<Rightarrow> 'c loader \<Rightarrow> 'w \<Rightarrow> (go_err + 'c) \<times> 'c loader \<times> 'w" where
  "Load env l w =
     (case loadConfig env (ld_options l) w of
        (Inl e, w') \<Rightarrow> (Inl e, l, w')
      | (Inr config, w') \<Rightarrow>
          (let l1 = l\<lparr>ld_current := Some config\<rparr> in
           if lp_WatchConfig (ld_options l) then
             (case startWatching env l1 w' of
                (Some e, l2) \<Rightarrow> (Inl e, l2, w')
              | (None, l2) \<Rightarrow> (Inr config, l2, w'))
           else (Inr config, l1, w')))"

definition LoadWithValidation ::
  "('c, 'v, 'w) viper_env \<Rightarrow> ('c \<Rightarrow> go_err option) option \<Rightarrow> 'c loader \<Rightarrow> 'w \<Rightarrow> (go_err + 'c) \<times> 'c loader \<times> 'w"
where
  "LoadWithValidation env validator l w =
     (case Load env (l\<lparr>ld_validator := validator\<rparr>) w of
        (Inl e, l', w') \<Rightarrow> (Inl e, l', w')
      | (Inr config, l', w') \<Rightarrow>
          (case validator of
             None \<Rightarrow> (Inr config, l', w')
           | Some v \<Rightarrow>
               (case v config of
                  Some e \<Rightarrow> (Inl (errors_Join [ErrConfigValidationFailed, e]), l', w')
                | None \<Rightarrow> (Inr config, l', w'))))"

definition GetCurrent :: "'c loader \<Rightarrow> 'c option" where "GetCurrent l = ld_current l"

definition Subscribe :: "'c loader \<Rightarrow> nat \<times> 'c loader" where
  "Subscribe l =
     (ld_next l, l\<lparr>ld_subscribers := ld_subscribers l @ [ld_next l],
                   ld_chans := (ld_chans l)(ld_next l \<mapsto> \<lparr>cn_buf = [], cn_closed = False\<rparr>),
                   ld_next := Suc (ld_next l)\<rparr>)"

definition Unsubscribe :: "nat \<Rightarrow> 'c loader \<Rightarrow> 'c loader outcome" where
  "Unsubscribe ch l =
     (if ch \<in> set (ld_subscribers l)
      then and_then (chan_close ch (ld_chans l))
             (\<lambda>cs. Returns (l\<lparr>ld_chans := cs, ld_subscribers := remove1 ch (ld_subscribers l)\<rparr>))
      else Returns l)"

definition notify_all :: "'c config_event \<Rightarrow> 'c loader \<Rightarrow> 'c loader outcome" where
  "notify_all event l =
     and_then (for_all (try_send event) (ld_subscribers l) (ld_chans l)) (\<lambda>cs. Returns (l\<lparr>ld_chans := cs\<rparr>))"

definition notifyChange :: "instant \<Rightarrow> 'c option \<Rightarrow> 'c \<Rightarrow> 'c loader \<Rightarrow> 'c loader outcome" where
  "notifyChange now oldConfig newConfig l =
     notify_all \<lparr>ce_OldConfig = oldConfig, ce_NewConfig = Some newConfig, ce_Error = None, ce_Timestamp = now\<rparr>
       (if lp_hasOnConfigChange (ld_options l)
        then l\<lparr>ld_started := ld_started l @ [OnConfigChange newConfig]\<rparr> else l)"

definition notifyError :: "instant \<Rightarrow> go_err \<Rightarrow> 'c loader \<Rightarrow> 'c loader outcome" where
  "notifyError now err l =
     notify_all \<lparr>ce_OldConfig = None, ce_NewConfig = None, ce_Error = Some err, ce_Timestamp = now\<rparr>
       (if lp_hasOnConfigChangeError (ld_options l)
        then l\<lparr>ld_started := ld_started l @ [OnConfigChangeError err]\<rparr> else l)"

text \<open>
  The part of \<open>Reload\<close> before it publishes: the configuration, or the error it announces with the error it returns.
\<close>

definition reload_prepare :: "('c, 'v, 'w) viper_env \<Rightarrow> 'c loader \<Rightarrow> 'w \<Rightarrow> (go_err \<times> go_err + 'c) \<times> 'w" where
  "reload_prepare env l w =
     (case loadConfig env (ld_options l) w of
        (Inl err, w') \<Rightarrow> (Inl (err, errors_Join [ErrConfigReloadFailed, err]), w')
      | (Inr newConfig, w') \<Rightarrow>
          (case ld_validator l of
             None \<Rightarrow> (Inr newConfig, w')
           | Some v \<Rightarrow>
               (case v newConfig of
                  Some err \<Rightarrow>
                    (let validationErr = errors_Join [ErrValidationReloadFailed, err]
                     in (Inl (validationErr, validationErr), w'))
                | None \<Rightarrow> (Inr newConfig, w'))))"

definition Reload :: "('c, 'v, 'w) viper_env \<Rightarrow> 'c loader \<Rightarrow> 'w \<Rightarrow> (go_err option \<times> 'c loader) outcome \<times> 'w" where
  "Reload env l w =
     (let oldConfig = GetCurrent l in
      case reload_prepare env l w of
        (Inl (announced, err), w') \<Rightarrow>
          (and_then (notifyError (vi_now env w') announced l) (\<lambda>l'. Returns (Some err, l')), w')
      | (Inr newConfig, w') \<Rightarrow>
          (and_then (notifyChange (vi_now env w') oldConfig newConfig (l\<lparr>ld_current := Some newConfig\<rparr>))
             (\<lambda>l'. Returns (None, l')), w'))"

definition loader_Stop :: "'c loader \<Rightarrow> 'c loader outcome" where
  "loader_Stop l =
     and_then (for_all chan_close (ld_subscribers l) (ld_chans l))
       (\<lambda>cs. Returns (l\<lparr>ld_cancelled := True, ld_stopped := True, ld_debouncer := None,
                       ld_chans := cs, ld_subscribers := []\<rparr>))"

definition debouncedReload :: "instant \<Rightarrow> 'c loader \<Rightarrow> 'c loader" where
  "debouncedReload now l =
     (if ld_stopped l then l
      else l\<lparr>ld_debouncer := Some (time_add now (lp_ReloadDebounce (ld_options l)))\<rparr>)"

section \<open>Interleavings\<close>

text \<open>
  The goroutines around a loader. A reload, started by a caller or by the timer, runs in parallel with everything
  else: it reads the current configuration, loads and validates, publishes, and announces, and each of
  these is a step of its own. The configuration has already been loaded, so that the validator is fixed.
\<close>

datatype 'c reload_task =
    Starting
  | Loading "'c option"
  | Publishing "'c option" 'c
  | AnnouncingChange "'c option" 'c
  | AnnouncingError go_err

inductive cl_step ::
  "('c, 'v, 'w) viper_env \<Rightarrow> 'c loader \<times> 'c reload_task list \<times> 'w \<Rightarrow> 'c loader \<times> 'c reload_task list \<times> 'w \<Rightarrow> bool"
  for env
where
  call_reload: "cl_step env (l, ts, w) (l, ts @ [Starting], w)"
| read_current: "cl_step env (l, us @ Starting # vs, w) (l, us @ Loading (GetCurrent l) # vs, w)"
| load_ok: "reload_prepare env l w = (Inr c, w') \<Longrightarrow>
    cl_step env (l, us @ Loading old # vs, w) (l, us @ Publishing old c # vs, w')"
| load_failed: "reload_prepare env l w = (Inl (announced, err), w') \<Longrightarrow>
    cl_step env (l, us @ Loading old # vs, w) (l, us @ AnnouncingError announced # vs, w')"
| publish: "cl_step env (l, us @ Publishing old c # vs, w)
    (l\<lparr>ld_current := Some c\<rparr>, us @ AnnouncingChange old c # vs, w)"
| announce: "notifyChange (vi_now env w) old c l = Returns l' \<Longrightarrow>
    cl_step env (l, us @ AnnouncingChange old c # vs, w) (l', us @ vs, w)"
| announce_error: "notifyError (vi_now env w) err l = Returns l' \<Longrightarrow>
    cl_step env (l, us @ AnnouncingError err # vs, w) (l', us @ vs, w)"
| subscribe: "Subscribe l = (ch, l') \<Longrightarrow> cl_step env (l, ts, w) (l', ts, w)"
| unsubscribe: "Unsubscribe ch l = Returns l' \<Longrightarrow> cl_step env (l, ts, w) (l', ts, w)"
| receive: "ld_chans l ch = Some c \<Longrightarrow> cn_buf c = ev # evs \<Longrightarrow>
    cl_step env (l, ts, w) (l\<lparr>ld_chans := (ld_chans l)(ch \<mapsto> c\<lparr>cn_buf := evs\<rparr>)\<rparr>, ts, w)"
| file_event: "cl_step env (l, ts, w) (debouncedReload (vi_now env w) l, ts, w)"
| timer: "ld_debouncer l = Some d \<Longrightarrow> d \<le> vi_now env w \<Longrightarrow>
    cl_step env (l, ts, w) (l\<lparr>ld_debouncer := None\<rparr>, ts @ [Starting], w)"
| stop: "loader_Stop l = Returns l' \<Longrightarrow> cl_step env (l, ts, w) (l', ts, w)"
| world: "cl_step env (l, ts, w) (l, ts, w')"

definition cl_reachable ::
  "('c, 'v, 'w) viper_env \<Rightarrow> 'c loader \<times> 'c reload_task list \<times> 'w \<Rightarrow> 'c loader \<times> 'c reload_task list \<times> 'w \<Rightarrow> bool"
where
  "cl_reachable env = rtranclp (cl_step env)"

section \<open>Lemmas\<close>

subsection \<open>Channels\<close>

definition is_open :: "'c event_chan option \<Rightarrow> bool" where
  "is_open o' \<longleftrightarrow> (\<exists>c. o' = Some c \<and> \<not> cn_closed c)"

text \<open>What a channel holds after an event was offered to it: a full one loses the event.\<close>

definition deliver :: "'c config_event \<Rightarrow> 'c event_chan \<Rightarrow> 'c event_chan" where
  "deliver event c = (if length (cn_buf c) < chan_capacity then c\<lparr>cn_buf := cn_buf c @ [event]\<rparr> else c)"

definition upd_on :: "nat set \<Rightarrow> ('c event_chan \<Rightarrow> 'c event_chan) \<Rightarrow> 'c chans \<Rightarrow> 'c chans" where
  "upd_on A g cs = (\<lambda>ch. if ch \<in> A then map_option g (cs ch) else cs ch)"

lemma for_all_update:
  assumes "\<And>ch cs. is_open (cs ch) \<Longrightarrow> f ch cs = Returns (cs(ch := map_option g (cs ch)))"
    and "distinct chs" and "\<forall>ch \<in> set chs. is_open (cs ch)"
  shows "for_all f chs cs = Returns (upd_on (set chs) g cs)"
  using assms(2,3)
proof (induction chs arbitrary: cs)
  case Nil
  then show ?case by (simp add: upd_on_def)
next
  case (Cons ch chs)
  then have "for_all f chs (cs(ch := map_option g (cs ch))) = Returns (upd_on (set chs) g (cs(ch := map_option g (cs ch))))"
    by (intro Cons.IH) auto
  moreover have "upd_on (set chs) g (cs(ch := map_option g (cs ch))) = upd_on (set (ch # chs)) g cs"
    using Cons.prems by (auto simp: upd_on_def fun_eq_iff)
  moreover have "f ch cs = Returns (cs(ch := map_option g (cs ch)))" using Cons.prems assms(1) by simp
  ultimately show ?case by simp
qed

lemma try_send_open: "is_open (cs ch) \<Longrightarrow> try_send ev ch cs = Returns (cs(ch := map_option (deliver ev) (cs ch)))"
  by (auto simp: try_send_def is_open_def deliver_def fun_upd_idem)

lemma chan_close_open:
  "is_open (cs ch) \<Longrightarrow> chan_close ch cs = Returns (cs(ch := map_option (cn_closed_update (\<lambda>_. True)) (cs ch)))"
  by (auto simp: chan_close_def is_open_def)

lemmas send_to_all = for_all_update [where f = "try_send ev" and g = "deliver ev" for ev, OF try_send_open]
lemmas close_all = for_all_update [where f = chan_close and g = "cn_closed_update (\<lambda>_. True)", OF chan_close_open]

lemma deliver_simps [simp]:
  "cn_closed (deliver ev c) = cn_closed c"
  "length (cn_buf c) \<le> chan_capacity \<Longrightarrow> length (cn_buf (deliver ev c)) \<le> chan_capacity"
  "set (cn_buf (deliver ev c)) \<subseteq> insert ev (set (cn_buf c))"
  by (auto simp: deliver_def)

subsection \<open>The invariant of the channels\<close>

text \<open>
  The registered channels are distinct and are exactly the open ones, no buffer is over its capacity,
  and a stopped loader has no timer.
\<close>

definition chans_ok :: "'c loader \<Rightarrow> bool" where
  "chans_ok l \<longleftrightarrow> distinct (ld_subscribers l) \<and> set (ld_subscribers l) \<subseteq> dom (ld_chans l) \<and>
     dom (ld_chans l) = {..<ld_next l} \<and>
     (\<forall>ch c. ld_chans l ch = Some c \<longrightarrow>
        length (cn_buf c) \<le> chan_capacity \<and> (cn_closed c \<longleftrightarrow> ch \<notin> set (ld_subscribers l))) \<and>
     (ld_stopped l \<longrightarrow> ld_debouncer l = None)"

lemma chans_ok_open: "chans_ok l \<Longrightarrow> \<forall>ch \<in> set (ld_subscribers l). is_open (ld_chans l ch)"
  unfolding chans_ok_def is_open_def by blast

lemma chans_ok_New: "chans_ok (NewViper opts)"
  by (simp add: chans_ok_def NewViper_def)

lemma chans_ok_unrelated [simp]:
  "chans_ok (l\<lparr>ld_current := c\<rparr>) = chans_ok l" "chans_ok (l\<lparr>ld_started := cbs\<rparr>) = chans_ok l"
  "chans_ok (l\<lparr>ld_watching := b\<rparr>) = chans_ok l" "chans_ok (l\<lparr>ld_validator := v\<rparr>) = chans_ok l"
  by (simp_all add: chans_ok_def)

lemma notify_all_returns:
  assumes "chans_ok l"
  shows "notify_all ev l = Returns (l\<lparr>ld_chans := upd_on (set (ld_subscribers l)) (deliver ev) (ld_chans l)\<rparr>)"
  using send_to_all [OF _ _ chans_ok_open [OF assms]] assms by (simp add: notify_all_def chans_ok_def)

lemma chans_ok_notify:
  assumes "chans_ok l"
  shows "chans_ok (l\<lparr>ld_chans := upd_on (set (ld_subscribers l)) (deliver ev) (ld_chans l)\<rparr>)"
proof -
  have "dom (upd_on (set (ld_subscribers l)) (deliver ev) (ld_chans l)) = dom (ld_chans l)"
    by (auto simp: upd_on_def dom_def)
  with assms show ?thesis
    by (auto simp: chans_ok_def upd_on_def split: if_splits)
qed

lemma notify_all_ok: "notify_all ev l = Returns l' \<Longrightarrow> chans_ok l \<Longrightarrow> chans_ok l'"
  by (auto simp: notify_all_returns chans_ok_notify)

lemma Subscribe_ok: "chans_ok l \<Longrightarrow> chans_ok (snd (Subscribe l))"
  by (auto simp: chans_ok_def Subscribe_def lessThan_Suc)

lemma Unsubscribe_returns:
  assumes "chans_ok l"
  shows "\<exists>l'. Unsubscribe ch l = Returns l' \<and> chans_ok l'"
proof (cases "ch \<in> set (ld_subscribers l)")
  case True
  then have "is_open (ld_chans l ch)" using chans_ok_open [OF assms] by blast
  with True assms show ?thesis
    by (auto simp: Unsubscribe_def chan_close_open chans_ok_def is_open_def)
next
  case False
  with assms show ?thesis by (simp add: Unsubscribe_def)
qed

lemma loader_Stop_returns:
  assumes "chans_ok l"
  shows "\<exists>l'. loader_Stop l = Returns l' \<and> chans_ok l' \<and> ld_subscribers l' = [] \<and> ld_stopped l'"
proof -
  have "dom (upd_on (set (ld_subscribers l)) (cn_closed_update (\<lambda>_. True)) (ld_chans l)) = dom (ld_chans l)"
    by (auto simp: upd_on_def dom_def)
  with assms close_all [OF _ _ chans_ok_open [OF assms]] show ?thesis
    by (auto simp: loader_Stop_def chans_ok_def upd_on_def split: if_splits)
qed

lemma chans_ok_receive:
  assumes "chans_ok l" and "ld_chans l ch = Some c" and "cn_buf c = ev # evs"
  shows "chans_ok (l\<lparr>ld_chans := (ld_chans l)(ch \<mapsto> c\<lparr>cn_buf := evs\<rparr>)\<rparr>)"
proof -
  have "length evs \<le> chan_capacity" using assms unfolding chans_ok_def by fastforce
  with assms show ?thesis by (auto simp: chans_ok_def)
qed

lemma chans_ok_step: "cl_step env s s' \<Longrightarrow> chans_ok (fst s) \<Longrightarrow> chans_ok (fst s')"
proof (induction rule: cl_step.induct)
  case (subscribe l ch l' ts w)
  then show ?case using Subscribe_ok [of l] by simp
next
  case (unsubscribe ch l l' ts w)
  then show ?case using Unsubscribe_returns [of l ch] by simp
next
  case (stop l l' ts w)
  then show ?case using loader_Stop_returns [of l] by auto
next
  case (receive l ch c ev evs ts w)
  then show ?case using chans_ok_receive [of l] by simp
next
  case (announce w old c l l' us vs)
  then show ?case by (auto simp: notifyChange_def dest!: notify_all_ok split: if_splits)
next
  case (announce_error w err l l' us vs)
  then show ?case by (auto simp: notifyError_def dest!: notify_all_ok split: if_splits)
next
  case (file_event l ts w)
  then show ?case by (auto simp: debouncedReload_def chans_ok_def)
next
  case (timer l d w ts)
  then show ?case by (auto simp: chans_ok_def)
qed auto

interpretation channels: preserved "cl_step env" "\<lambda>s. chans_ok (fst s)" for env
  by unfold_locales (rule chans_ok_step)

lemma chans_ok_reachable: "cl_reachable env s s' \<Longrightarrow> chans_ok (fst s) \<Longrightarrow> chans_ok (fst s')"
  unfolding cl_reachable_def by (rule channels.reachable_keeps)

subsection \<open>Validated configurations\<close>

text \<open>
  A loader whose configuration has been validated: the current configuration, every configuration an
  event or a callback announces and every one a reload is about to publish passes the validator.
\<close>

definition announces :: "('c \<Rightarrow> bool) \<Rightarrow> 'c config_event \<Rightarrow> bool" where
  "announces P ev \<longleftrightarrow> (case ce_NewConfig ev of None \<Rightarrow> True | Some c \<Rightarrow> P c)"

primrec task_ok :: "('c \<Rightarrow> bool) \<Rightarrow> 'c reload_task \<Rightarrow> bool" where
  "task_ok P Starting = True"
| "task_ok P (Loading old) = True"
| "task_ok P (Publishing old c) = P c"
| "task_ok P (AnnouncingChange old c) = P c"
| "task_ok P (AnnouncingError e) = True"

definition valid_config :: "'c loader \<Rightarrow> 'c \<Rightarrow> bool" where
  "valid_config l c \<longleftrightarrow> (case ld_validator l of None \<Rightarrow> True | Some v \<Rightarrow> v c = None)"

definition validated :: "('c \<Rightarrow> bool) \<Rightarrow> 'c loader \<times> 'c reload_task list \<times> 'w \<Rightarrow> bool" where
  "validated P s \<longleftrightarrow>
     (case s of (l, ts, w) \<Rightarrow>
        valid_config l = P \<and> (\<exists>c. ld_current l = Some c \<and> P c) \<and> list_all (task_ok P) ts \<and>
        (\<forall>c. OnConfigChange c \<in> set (ld_started l) \<longrightarrow> P c) \<and>
        (\<forall>ch c ev. ld_chans l ch = Some c \<longrightarrow> ev \<in> set (cn_buf c) \<longrightarrow> announces P ev))"

lemma reload_prepare_valid: "reload_prepare env l w = (Inr c, w') \<Longrightarrow> valid_config l c"
  by (auto simp: reload_prepare_def valid_config_def Let_def split: prod.splits sum.splits option.splits)

lemma notify_all_chans:
  assumes "notify_all ev l = Returns l'" and "chans_ok l" and "ld_chans l' ch = Some c'"
  shows "\<exists>c. ld_chans l ch = Some c \<and> set (cn_buf c') \<subseteq> insert ev (set (cn_buf c))"
  using assms by (auto simp: notify_all_returns upd_on_def deliver_def split: if_splits)

lemma notify_all_fields:
  assumes "notify_all ev l = Returns l'"
  shows "ld_current l' = ld_current l" "ld_validator l' = ld_validator l" "ld_started l' = ld_started l"
    "ld_options l' = ld_options l" "ld_subscribers l' = ld_subscribers l" "ld_stopped l' = ld_stopped l"
    "ld_debouncer l' = ld_debouncer l"
  using assms by (auto simp: notify_all_def)

lemma validated_notify:
  assumes "notify_all ev l = Returns l'" and "chans_ok l" and "validated P (l, ts, w)" and "announces P ev"
  shows "validated P (l', ts, w)"
proof -
  have "announces P e" if "ld_chans l' ch = Some c'" and "e \<in> set (cn_buf c')" for ch c' e
    using notify_all_chans [OF assms(1,2) that(1)] that(2) assms(3,4) by (auto simp: validated_def)
  moreover have "valid_config l' = valid_config l" using notify_all_fields [OF assms(1)] by (simp add: valid_config_def fun_eq_iff)
  ultimately show ?thesis using assms(3) notify_all_fields [OF assms(1)] by (auto simp: validated_def)
qed

lemma closing_chans:
  assumes "for_all chan_close chs cs = Returns cs'" and "cs' ch = Some c'"
  shows "\<exists>c. cs ch = Some c \<and> cn_buf c' = cn_buf c"
  using assms
proof (induction chs arbitrary: cs)
  case Nil
  then show ?case by simp
next
  case (Cons a chs)
  then obtain cs1 where "chan_close a cs = Returns cs1" and "for_all chan_close chs cs1 = Returns cs'" by auto
  with Cons.IH [of cs1] Cons.prems(2) obtain c1 where "cs1 ch = Some c1" "cn_buf c' = cn_buf c1" by blast
  with \<open>chan_close a cs = Returns cs1\<close> show ?case
    by (auto simp: chan_close_def split: option.splits if_splits)
qed

lemma validated_chans:
  assumes "validated P (l, ts, w)" and "\<And>ch c'. cs ch = Some c' \<Longrightarrow> \<exists>c. ld_chans l ch = Some c \<and> set (cn_buf c') \<subseteq> set (cn_buf c)"
  shows "validated P (l\<lparr>ld_chans := cs\<rparr>, ts, w)"
proof -
  have "announces P ev" if "cs ch = Some c'" and "ev \<in> set (cn_buf c')" for ch c' ev
    using assms(2) [OF that(1)] that(2) assms(1) by (auto simp: validated_def)
  moreover have "valid_config (l\<lparr>ld_chans := cs\<rparr>) = valid_config l" by (simp add: valid_config_def fun_eq_iff)
  ultimately show ?thesis using assms(1) by (auto simp: validated_def)
qed

lemma valid_config_unrelated [simp]:
  "valid_config (l\<lparr>ld_current := c\<rparr>) = valid_config l" "valid_config (l\<lparr>ld_chans := cs\<rparr>) = valid_config l"
  "valid_config (l\<lparr>ld_subscribers := ss\<rparr>) = valid_config l" "valid_config (l\<lparr>ld_next := n\<rparr>) = valid_config l"
  "valid_config (l\<lparr>ld_started := cb\<rparr>) = valid_config l" "valid_config (l\<lparr>ld_stopped := b\<rparr>) = valid_config l"
  "valid_config (l\<lparr>ld_debouncer := d\<rparr>) = valid_config l" "valid_config (l\<lparr>ld_cancelled := b\<rparr>) = valid_config l"
  by (simp_all add: valid_config_def fun_eq_iff)

lemma validated_step:
  "cl_step env s s' \<Longrightarrow> chans_ok (fst s) \<Longrightarrow> validated P s \<Longrightarrow> validated P s'"
proof (induction rule: cl_step.induct)
  case (load_ok l w c w' us old vs)
  then show ?case using reload_prepare_valid [of env l w c w'] by (auto simp: validated_def)
next
  case (announce w old c l l' us vs)
  let ?l = "if lp_hasOnConfigChange (ld_options l) then l\<lparr>ld_started := ld_started l @ [OnConfigChange c]\<rparr> else l"
  have "validated P (?l, us @ vs, w)" using announce.prems by (auto simp: validated_def)
  moreover have "chans_ok ?l" using announce.prems by simp
  moreover have "P c" using announce.prems by (simp add: validated_def)
  ultimately show ?case using announce.hyps unfolding notifyChange_def
    by (elim validated_notify) (simp_all add: announces_def)
next
  case (announce_error w err l l' us vs)
  let ?l = "if lp_hasOnConfigChangeError (ld_options l) then l\<lparr>ld_started := ld_started l @ [OnConfigChangeError err]\<rparr> else l"
  have "validated P (?l, us @ vs, w)" using announce_error.prems by (auto simp: validated_def)
  moreover have "chans_ok ?l" using announce_error.prems by simp
  ultimately show ?case using announce_error.hyps unfolding notifyError_def
    by (elim validated_notify) (simp_all add: announces_def)
next
  case (unsubscribe ch l l' ts w)
  then show ?case
    by (auto simp: Unsubscribe_def chan_close_def validated_def split: if_splits option.splits)
next
  case (stop l l' ts w)
  then obtain cs where cs: "for_all chan_close (ld_subscribers l) (ld_chans l) = Returns cs"
    and l': "l' = l\<lparr>ld_cancelled := True, ld_stopped := True, ld_debouncer := None, ld_chans := cs, ld_subscribers := []\<rparr>"
    by (auto simp: loader_Stop_def)
  have "validated P (l\<lparr>ld_chans := cs\<rparr>, ts, w)"
    using stop.prems(2) closing_chans [OF cs] by (intro validated_chans) force+
  then show ?case by (simp add: l' validated_def)
next
  case (receive l ch c ev evs ts w)
  then have "validated P (l\<lparr>ld_chans := (ld_chans l)(ch \<mapsto> c\<lparr>cn_buf := evs\<rparr>)\<rparr>, ts, w)"
    by (intro validated_chans) (auto split: if_splits)
  then show ?case .
next
  case (subscribe l ch l' ts w)
  then show ?case by (auto simp: Subscribe_def validated_def split: if_splits)
next
  case (file_event l ts w)
  then show ?case by (auto simp: debouncedReload_def validated_def)
qed (auto simp: validated_def)

interpretation validation: preserved "cl_step env" "\<lambda>s. chans_ok (fst s) \<and> validated P s" for env P
  by unfold_locales (auto intro: chans_ok_step validated_step)

lemma validated_reachable:
  assumes "cl_reachable env s s'" and "chans_ok (fst s)" and "validated P s"
  shows "validated P s'"
  using validation.reachable_keeps [of env s s' P] assms by (simp add: cl_reachable_def)

subsection \<open>Announcements\<close>

definition notified :: "'c config_event \<Rightarrow> 'c loader \<Rightarrow> 'c loader \<Rightarrow> bool" where
  "notified ev l l' \<longleftrightarrow>
     (\<forall>k. ld_chans l' k = (if k \<in> set (ld_subscribers l) then map_option (deliver ev) (ld_chans l k) else ld_chans l k)) \<and>
     ld_subscribers l' = ld_subscribers l \<and> ld_debouncer l' = ld_debouncer l \<and> ld_stopped l' = ld_stopped l \<and>
     ld_current l' = ld_current l"

lemma notifyError_returns:
  assumes "chans_ok l"
  shows "\<exists>l'. notifyError now e l = Returns l' \<and>
    notified \<lparr>ce_OldConfig = None, ce_NewConfig = None, ce_Error = Some e, ce_Timestamp = now\<rparr> l l'"
  using assms by (cases "lp_hasOnConfigChangeError (ld_options l)")
    (simp_all add: notifyError_def notify_all_returns notified_def upd_on_def)

lemma notifyChange_returns:
  assumes "chans_ok l"
  shows "\<exists>l'. notifyChange now old c l = Returns l' \<and>
    notified \<lparr>ce_OldConfig = old, ce_NewConfig = Some c, ce_Error = None, ce_Timestamp = now\<rparr> l l'"
  using assms by (cases "lp_hasOnConfigChange (ld_options l)")
    (simp_all add: notifyChange_def notify_all_returns notified_def upd_on_def)

subsection \<open>Loading\<close>

lemma Load_fields:
  assumes "Load env l w = (r, l', w')"
  shows "ld_chans l' = ld_chans l" "ld_subscribers l' = ld_subscribers l" "ld_next l' = ld_next l"
    "ld_started l' = ld_started l" "ld_stopped l' = ld_stopped l" "ld_debouncer l' = ld_debouncer l"
    "ld_validator l' = ld_validator l" "ld_options l' = ld_options l"
    "\<And>c. r = Inr c \<Longrightarrow> ld_current l' = Some c"
  using assms by (auto simp: Load_def startWatching_def Let_def split: prod.splits sum.splits if_splits)

lemma LoadWithValidation_fields:
  assumes "LoadWithValidation env v l w = (r, l', w')"
  shows "ld_chans l' = ld_chans l" "ld_subscribers l' = ld_subscribers l" "ld_next l' = ld_next l"
    "ld_started l' = ld_started l" "ld_stopped l' = ld_stopped l" "ld_debouncer l' = ld_debouncer l"
    "ld_validator l' = v" "ld_options l' = ld_options l" "\<And>c. r = Inr c \<Longrightarrow> ld_current l' = Some c \<and> valid_config l' c"
proof -
  obtain r0 w0 where load: "Load env (l\<lparr>ld_validator := v\<rparr>) w = (r0, l', w0)" and r: "\<And>c. r = Inr c \<Longrightarrow> r0 = Inr c \<and> (\<forall>f. v = Some f \<longrightarrow> f c = None)"
    using assms by (auto simp: LoadWithValidation_def split: prod.splits sum.splits option.splits)
  note fields = Load_fields [OF load]
  show "ld_chans l' = ld_chans l" "ld_subscribers l' = ld_subscribers l" "ld_next l' = ld_next l"
    "ld_started l' = ld_started l" "ld_stopped l' = ld_stopped l" "ld_debouncer l' = ld_debouncer l"
    "ld_validator l' = v" "ld_options l' = ld_options l"
    using fields by simp_all
  show "ld_current l' = Some c \<and> valid_config l' c" if "r = Inr c" for c
    using fields(7,9) r [OF that] by (simp add: valid_config_def split: option.splits)
qed

lemma chans_ok_Load: "LoadWithValidation env v (NewViper opts) w = (r, l, w') \<Longrightarrow> chans_ok l"
  using LoadWithValidation_fields [of env v "NewViper opts" w r l w'] by (simp add: chans_ok_def NewViper_def)

lemma os_Expand_plain: "CHR ''$'' \<notin> set s \<Longrightarrow> os_Expand m s = s"
  by (induction s) auto

lemma os_Expand_skip: "CHR ''$'' \<notin> set a \<Longrightarrow> os_Expand m (a @ s) = a @ os_Expand m s"
  by (induction a) auto

lemma getShellName_braces:
  assumes "name \<noteq> []" and "CHR ''}'' \<notin> set name"
  shows "getShellName (''{'' @ name @ ''}'' @ b) = (name, length name + 2)"
proof -
  obtain c cs where name: "name = c # cs" using assms(1) by (cases name) auto
  have c: "c \<noteq> CHR ''}''" and cs: "CHR ''}'' \<notin> set cs" using assms(2) by (auto simp: name)
  have "cs = []" if "(cs @ CHR ''}'' # b) ! 0 = CHR ''}''" using that cs by (cases cs) auto
  then show ?thesis using cut_append [OF assms(2), of b] assms(1) by (auto simp: getShellName_def name)
qed

section \<open>Properties\<close>

text \<open>
  C29: whatever reloads, subscriptions, cancellations, file events, timers and stops are interleaved after the
  first load, the loader never sends on a closed channel and never closes one twice: every reload, every
  Unsubscribe (also a repeated one) and every Stop returns. No subscriber is sent more than its buffer
  holds, and after Stop no timer is armed and no file event arms one.
\<close>

theorem loader_channels_safe:
  assumes "LoadWithValidation env v (NewViper opts) w0 = (r, l0, w1)" and "cl_reachable env (l0, [], w1) (l, ts, w)"
  shows "(\<exists>r. fst (Reload env l w) = Returns r) \<and> (\<exists>l'. Unsubscribe ch l = Returns l') \<and>
    (\<exists>l'. loader_Stop l = Returns l' \<and> (\<forall>k c. ld_chans l' k = Some c \<longrightarrow> cn_closed c)) \<and>
    (\<forall>k c. ld_chans l k = Some c \<longrightarrow> length (cn_buf c) \<le> 10) \<and>
    (ld_stopped l \<longrightarrow> ld_debouncer l = None \<and> debouncedReload t l = l)"
proof -
  have ok: "chans_ok l" using chans_ok_reachable [OF assms(2)] chans_ok_Load [OF assms(1)] by simp
  have "\<exists>r. fst (Reload env l w) = Returns r"
    using ok by (auto simp: Reload_def notifyError_def notifyChange_def notify_all_returns Let_def split: prod.splits sum.splits)
  moreover have "\<exists>l'. loader_Stop l = Returns l' \<and> (\<forall>k c. ld_chans l' k = Some c \<longrightarrow> cn_closed c)"
    using loader_Stop_returns [OF ok] by (auto simp: chans_ok_def)
  moreover have "\<exists>l'. Unsubscribe ch l = Returns l'" using Unsubscribe_returns [OF ok] by blast
  moreover have "\<forall>k c. ld_chans l k = Some c \<longrightarrow> length (cn_buf c) \<le> 10"
    using ok by (auto simp: chans_ok_def chan_capacity_def)
  moreover have "ld_stopped l \<longrightarrow> ld_debouncer l = None \<and> debouncedReload t l = l"
    using ok by (auto simp: chans_ok_def debouncedReload_def)
  ultimately show ?thesis by blast
qed

definition demo_viper :: "(string, string, instant) viper_env" where
  "demo_viper = \<lparr>vi_ReadInConfig = (\<lambda>w. (None, w + 1)), vi_ConfigFileUsed = (\<lambda>_. ''c.yaml''), vi_own = (\<lambda>_. []),
     vi_ReadFile = (\<lambda>_ w. (Inr ''port: ${PORT}'', w)), vi_Getenv = (\<lambda>_ n. if n = ''PORT'' then ''80'' else []),
     vi_ReadConfig = (\<lambda>_ t. Inr t), vi_Unmarshal = Inr, vi_now = id\<rparr>"

definition demo_valid :: "string \<Rightarrow> go_err option" where
  "demo_valid c = (if c = ''port: 80'' then None else Some (Sentinel ''port''))"

lemma demo_load: "loadConfig demo_viper opts w = (Inr ''port: 80'', w + 1)"
proof -
  have "os_Expand (\<lambda>n. if n = ''PORT'' then ''80'' else []) ''port: ${PORT}'' = ''port: 80''" by code_simp
  then show ?thesis by (simp add: loadConfig_def demo_viper_def unmarshal_config_def)
qed

lemma demo_loaded:
  "LoadWithValidation demo_viper (Some demo_valid) (NewViper None) 0 =
     (Inr ''port: 80'', (NewViper None)\<lparr>ld_validator := Some demo_valid, ld_current := Some ''port: 80''\<rparr>, 1)"
  by (simp add: LoadWithValidation_def Load_def demo_load NewViper_def DefaultLoaderOptions_def demo_valid_def Let_def)

lemma demo_reached:
  "cl_reachable demo_viper ((NewViper None)\<lparr>ld_validator := Some demo_valid, ld_current := Some ''port: 80''\<rparr>, [], 1)
     (snd (Subscribe ((NewViper None)\<lparr>ld_validator := Some demo_valid, ld_current := Some ''port: 80''\<rparr>)), [Starting], 1)"
  (is "cl_reachable _ (?l, _, _) _")
proof -
  have "cl_step demo_viper (?l, [], 1) (snd (Subscribe ?l), [], 1)" by (rule subscribe) (simp add: prod_eq_iff)
  moreover have "cl_step demo_viper (snd (Subscribe ?l), [], 1) (snd (Subscribe ?l), [] @ [Starting], 1)" by (rule call_reload)
  ultimately show ?thesis unfolding cl_reachable_def by simp
qed

theorem loader_channels_safe_witness:
  "\<exists>l. cl_reachable demo_viper ((NewViper None)\<lparr>ld_validator := Some demo_valid, ld_current := Some ''port: 80''\<rparr>, [], 1) (l, [Starting], 1) \<and>
     ld_subscribers l = [0] \<and> (\<exists>l'. Unsubscribe 0 l = Returns l') \<and> (\<exists>r. fst (Reload demo_viper l 1) = Returns r)"
  using loader_channels_safe [OF demo_loaded demo_reached, of 0] demo_reached
  by (intro exI [of _ "snd (Subscribe ((NewViper None)\<lparr>ld_validator := Some demo_valid, ld_current := Some ''port: 80''\<rparr>))"])
    (simp add: Subscribe_def NewViper_def)

text \<open>
  C30: once the configuration was loaded with a validator that accepted it, an invalid configuration is
  never current and never announced, to a subscriber or to a callback, whatever concurrent reloads do.
\<close>

theorem loader_stays_valid:
  assumes "LoadWithValidation env (Some v) (NewViper opts) w0 = (Inr c0, l0, w1)"
    and "cl_reachable env (l0, [], w1) (l, ts, w)"
  shows "(\<exists>c. GetCurrent l = Some c \<and> v c = None) \<and>
    (\<forall>k ch ev c. ld_chans l k = Some ch \<and> ev \<in> set (cn_buf ch) \<and> ce_NewConfig ev = Some c \<longrightarrow> v c = None) \<and>
    (\<forall>c. OnConfigChange c \<in> set (ld_started l) \<longrightarrow> v c = None)"
proof -
  note fields = LoadWithValidation_fields [OF assms(1)]
  have vc: "valid_config l0 = (\<lambda>c. v c = None)" using fields(7) by (simp add: valid_config_def fun_eq_iff)
  then have "validated (\<lambda>c. v c = None) (l0, [], w1)"
    using fields by (auto simp: validated_def NewViper_def)
  from validated_reachable [OF assms(2) _ this] chans_ok_Load [OF assms(1)]
  have "validated (\<lambda>c. v c = None) (l, ts, w)" by simp
  then show ?thesis by (fastforce simp: validated_def GetCurrent_def announces_def)
qed

theorem loader_stays_valid_witness:
  "\<exists>l. cl_reachable demo_viper ((NewViper None)\<lparr>ld_validator := Some demo_valid, ld_current := Some ''port: 80''\<rparr>, [], 1) (l, [Starting], 1) \<and>
     (\<exists>c. GetCurrent l = Some c \<and> demo_valid c = None)"
  using loader_stays_valid [OF demo_loaded demo_reached] demo_reached by blast



text \<open>
  The reloads a series of file events causes: before an event is handled, a timer whose deadline has
  passed has fired; the last timer fires in the end. A burst ends with an event that no other follows
  before the debounce time is over.
\<close>

fun debounce_run :: "'c loader \<Rightarrow> instant list \<Rightarrow> instant list" where
  "debounce_run l [] = (case ld_debouncer l of None \<Rightarrow> [] | Some d \<Rightarrow> [d])"
| "debounce_run l (t # ts) =
     (case ld_debouncer l of
        None \<Rightarrow> debounce_run (debouncedReload t l) ts
      | Some d \<Rightarrow>
          if d \<le> t then d # debounce_run (debouncedReload t (l\<lparr>ld_debouncer := None\<rparr>)) ts
          else debounce_run (debouncedReload t l) ts)"

fun burst_ends :: "duration \<Rightarrow> instant list \<Rightarrow> instant list" where
  "burst_ends d [] = []"
| "burst_ends d [t] = [t]"
| "burst_ends d (t # u # ts) = (if t + d \<le> u then t # burst_ends d (u # ts) else burst_ends d (u # ts))"

lemma debounce_run_armed:
  assumes "\<not> ld_stopped l" and "ld_debouncer l = Some (t + lp_ReloadDebounce (ld_options l))"
  shows "debounce_run l ts = map (\<lambda>u. u + lp_ReloadDebounce (ld_options l)) (burst_ends (lp_ReloadDebounce (ld_options l)) (t # ts))"
  using assms
proof (induction ts arbitrary: l t)
  case Nil
  then show ?case by simp
next
  case (Cons u ts)
  let ?d = "lp_ReloadDebounce (ld_options l)"
  have "debounce_run (debouncedReload u l') ts = map (\<lambda>u. u + ?d) (burst_ends ?d (u # ts))"
    if "l' = l \<or> l' = l\<lparr>ld_debouncer := None\<rparr>" for l'
    using Cons.IH [of "debouncedReload u l'" u] Cons.prems that
    by (auto simp: debouncedReload_def clock_simps)
  then show ?case using Cons.prems by simp
qed

text \<open>
  A burst of file events causes one reload: the events of a running loader trigger exactly one reload per
  burst, the debounce time after the burst's last event; a stopped loader reloads nothing.
\<close>

lemma debounce_one_reload:
  assumes "ld_debouncer l = None"
  shows "debounce_run l ts =
    (if ld_stopped l then []
     else map (\<lambda>t. t + lp_ReloadDebounce (ld_options l)) (burst_ends (lp_ReloadDebounce (ld_options l)) ts))"
proof (cases "ld_stopped l")
  case True
  with assms show ?thesis by (induction ts) (simp_all add: debouncedReload_def)
next
  case False
  with assms show ?thesis
    using debounce_run_armed [of "debouncedReload (hd ts) l" "hd ts" "tl ts"]
    by (cases ts) (simp_all add: debouncedReload_def clock_simps)
qed

theorem debounce_one_reload_witness:
  "debounce_run (NewViper None :: string loader) [0, 5, 7, 5000000000] = [1000000007, 6000000000]"
  using debounce_one_reload [of "NewViper None :: string loader" "[0, 5, 7, 5000000000]"]
  by (simp add: NewViper_def DefaultLoaderOptions_def clock_simps)

text \<open>
  The text handed to the parser is the file with every reference replaced: a text without a dollar
  sign is unchanged, and a reference in braces, wherever it stands, is replaced by the variable's value and
  nothing else of the text around it.
\<close>

lemma expand_in_place:
  assumes "CHR ''$'' \<notin> set a" and "name \<noteq> []" and "CHR ''}'' \<notin> set name"
  shows "os_Expand getenv a = a \<and>
    os_Expand getenv (a @ ''${'' @ name @ ''}'' @ b) = a @ getenv name @ os_Expand getenv b"
proof -
  have "os_Expand getenv (''$'' @ ''{'' @ name @ ''}'' @ b) = getenv name @ os_Expand getenv b"
    using getShellName_braces [OF assms(2,3), of b] assms(2) by simp
  then show ?thesis using os_Expand_skip [OF assms(1)] os_Expand_plain [OF assms(1)] by simp
qed

theorem expand_in_place_witness:
  "os_Expand (\<lambda>n. if n = ''DB'' then ''pg'' else []) (''dsn: '' @ ''${'' @ ''DB'' @ ''}'' @ ''/x'') = ''dsn: pg/x''"
  using expand_in_place [of "''dsn: ''" "''DB''" "\<lambda>n. if n = ''DB'' then ''pg'' else []" "''/x''"] os_Expand_plain [of "''/x''"]
  by simp

text \<open>
  A configuration the validator rejects is refused with ErrConfigValidationFailed, but the loader has
  already made it current.
\<close>

lemma rejected_config_current:
  assumes "loadConfig env (ld_options l) w = (Inr c, w')" and "v c = Some e" and "\<not> lp_WatchConfig (ld_options l)"
  shows "case LoadWithValidation env (Some v) l w of (r, l', _) \<Rightarrow>
    r = Inl (errors_Join [ErrConfigValidationFailed, e]) \<and> GetCurrent l' = Some c"
  using assms by (simp add: LoadWithValidation_def Load_def GetCurrent_def Let_def)

theorem rejected_config_current_witness:
  "case LoadWithValidation demo_viper (Some (\<lambda>_. Some (Sentinel ''no''))) (NewViper None) 0 of (r, l', _) \<Rightarrow>
     r = Inl (errors_Join [ErrConfigValidationFailed, Sentinel ''no'']) \<and> GetCurrent l' = Some ''port: 80''"
  using rejected_config_current [of demo_viper "NewViper None" 0 "''port: 80''" 1 "\<lambda>_. Some (Sentinel ''no'')" "Sentinel ''no''"]
  by (simp add: demo_load NewViper_def DefaultLoaderOptions_def)

text \<open>
  Overlapping reloads publish and announce in two steps, and nothing orders the steps of one with those of the
  other: the configuration that is current in the end need not be the one a subscriber heard of last.
\<close>

lemma announcements_overtake:
  assumes ok: "chans_ok l" and ch: "ch \<in> set (ld_subscribers l)" "ld_chans l ch = Some c" "cn_buf c = []"
    and loads: "reload_prepare env l w = (Inr c1, w1)" "reload_prepare env l w1 = (Inr c2, w2)"
  shows "\<exists>l' c'. cl_reachable env (l, [], w) (l', [], w2) \<and> GetCurrent l' = Some c2 \<and>
    ld_chans l' ch = Some c' \<and> ce_NewConfig (last (cn_buf c')) = Some c1"
proof -
  let ?old = "GetCurrent l" and ?l1 = "l\<lparr>ld_current := Some c1\<rparr>" and ?l2 = "l\<lparr>ld_current := Some c2\<rparr>"
  let ?step = "cl_step env"
  have "?step\<^sup>*\<^sup>* (l, [], w) (l, [Starting, Starting], w)"
    using call_reload [of env l "[]" w] call_reload [of env l "[Starting]" w] by simp
  moreover have "?step\<^sup>*\<^sup>* (l, [Starting, Starting], w) (l, [Loading ?old, Loading ?old], w)"
    using read_current [of env l "[]" "[Starting]" w] read_current [of env l "[Loading ?old]" "[]" w] by simp
  moreover have "?step\<^sup>*\<^sup>* (l, [Loading ?old, Loading ?old], w) (l, [Publishing ?old c1, Publishing ?old c2], w2)"
    using load_ok [OF loads(1), of "[]" ?old "[Loading ?old]"] load_ok [OF loads(2), of "[Publishing ?old c1]" ?old "[]"] by simp
  moreover have "?step\<^sup>*\<^sup>* (l, [Publishing ?old c1, Publishing ?old c2], w2) (?l2, [AnnouncingChange ?old c1, AnnouncingChange ?old c2], w2)"
    using publish [of env l "[]" ?old c1 "[Publishing ?old c2]" w2] publish [of env ?l1 "[AnnouncingChange ?old c1]" ?old c2 "[]" w2] by simp
  moreover obtain la where a: "notifyChange (vi_now env w2) ?old c2 ?l2 = Returns la"
    and na: "notified \<lparr>ce_OldConfig = ?old, ce_NewConfig = Some c2, ce_Error = None, ce_Timestamp = vi_now env w2\<rparr> ?l2 la"
    using notifyChange_returns [of ?l2] ok by fastforce
  moreover have step_a: "?step (?l2, [AnnouncingChange ?old c1, AnnouncingChange ?old c2], w2) (la, [AnnouncingChange ?old c1], w2)"
    using announce [OF a, of "[AnnouncingChange ?old c1]" "[]"] by simp
  moreover have "chans_ok la" using chans_ok_step [OF step_a] ok by simp
  from notifyChange_returns [OF this] obtain lb where b: "notifyChange (vi_now env w2) ?old c1 la = Returns lb"
    and nb: "notified \<lparr>ce_OldConfig = ?old, ce_NewConfig = Some c1, ce_Error = None, ce_Timestamp = vi_now env w2\<rparr> la lb"
    by blast
  moreover have "?step (la, [AnnouncingChange ?old c1], w2) (lb, [], w2)" using announce [OF b, of "[]" "[]"] by simp
  ultimately have "cl_reachable env (l, [], w) (lb, [], w2)"
    unfolding cl_reachable_def by (meson rtranclp.rtrancl_into_rtrancl rtranclp_trans)
  moreover have "GetCurrent lb = Some c2" and "\<exists>c'. ld_chans lb ch = Some c' \<and> ce_NewConfig (last (cn_buf c')) = Some c1"
    using na nb ch by (auto simp: notified_def GetCurrent_def deliver_def chan_capacity_def)
  ultimately show ?thesis by blast
qed

end
