(* ===== verification/GoText.thy ===== *)
theory GoText
  imports Prelude
begin

text \<open>
  More of Go's standard library on texts: the characters of UTF-8, the base of a path, padding, cutting and
  splitting at a separator, and the rounding and printing of durations.
\<close>

section \<open>UTF-8\<close>

text \<open>
  UTF-8: the number of bytes of the first character, 0 when the string does not start with a valid one.
\<close>

definition utf8_forms :: "(nat \<times> nat) list list" where
  "utf8_forms =
     [[(0, 0x7F)],
      [(0xC2, 0xDF), (0x80, 0xBF)],
      [(0xE0, 0xE0), (0xA0, 0xBF), (0x80, 0xBF)],
      [(0xE1, 0xEC), (0x80, 0xBF), (0x80, 0xBF)],
      [(0xED, 0xED), (0x80, 0x9F), (0x80, 0xBF)],
      [(0xEE, 0xEF), (0x80, 0xBF), (0x80, 0xBF)],
      [(0xF0, 0xF0), (0x90, 0xBF), (0x80, 0xBF), (0x80, 0xBF)],
      [(0xF1, 0xF3), (0x80, 0xBF), (0x80, 0xBF), (0x80, 0xBF)],
      [(0xF4, 0xF4), (0x80, 0x8F), (0x80, 0xBF), (0x80, 0xBF)]]"

definition has_form :: "string \<Rightarrow> (nat \<times> nat) list \<Rightarrow> bool" where
  "has_form s form \<longleftrightarrow> length form \<le> length s \<and>
     list_all (\<lambda>((lo, hi), c). lo \<le> of_char c \<and> of_char c \<le> hi) (zip form s)"

definition rune_width :: "string \<Rightarrow> nat" where
  "rune_width s = (case filter (has_form s) utf8_forms of [] \<Rightarrow> 0 | form # _ \<Rightarrow> length form)"

text \<open>\<open>utf8.RuneCountInString\<close>: a byte that does not start a valid character counts as one.\<close>

function rune_count :: "string \<Rightarrow> nat" where
  "rune_count [] = 0"
| "rune_count (c # s) = Suc (rune_count (drop (rune_width (c # s) - 1) s))"
  by pat_completeness auto
termination by (relation "measure length") auto

lemma rune_width_form:
  assumes "rune_width s \<noteq> 0"
  obtains form where "form \<in> set utf8_forms" "has_form s form" "rune_width s = length form"
proof -
  obtain form fs where "filter (has_form s) utf8_forms = form # fs"
    using assms by (cases "filter (has_form s) utf8_forms") (auto simp: rune_width_def)
  then have "form \<in> set (filter (has_form s) utf8_forms)" "rune_width s = length form" by (simp_all add: rune_width_def)
  then show thesis by (intro that) auto
qed

lemma utf8_forms_high: "form \<in> set utf8_forms \<Longrightarrow> 2 \<le> length form \<Longrightarrow> list_all (\<lambda>(lo, hi). 128 \<le> lo) form"
  by (auto simp: utf8_forms_def)

lemma rune_width_le: "rune_width s \<le> length s"
proof (cases "rune_width s = 0")
  case False
  then show ?thesis by (rule rune_width_form) (simp add: has_form_def)
qed simp

lemma rune_width_bytes:
  assumes "2 \<le> rune_width s" and "i < rune_width s"
  shows "(128 :: nat) \<le> of_char (s ! i)"
proof -
  have "rune_width s \<noteq> 0" using assms by simp
  then obtain form where f: "form \<in> set utf8_forms" "has_form s form" "rune_width s = length form" by (rule rune_width_form)
  obtain lo hi where lh: "form ! i = (lo, hi)" by fastforce
  have "128 \<le> lo" using utf8_forms_high [OF f(1)] assms f(3) lh by (auto simp: list_all_length)
  moreover have "zip form s ! i = ((lo, hi), s ! i)" "i < length (zip form s)"
    using f assms lh by (simp_all add: has_form_def)
  then have "lo \<le> of_char (s ! i)" using f(2) by (fastforce simp: has_form_def list_all_length)
  ultimately show ?thesis by linarith
qed

lemma rune_width_ascii: "(of_char c :: nat) \<le> 127 \<Longrightarrow> rune_width (c # s) = 1"
  by (simp add: rune_width_def utf8_forms_def has_form_def)

lemma rune_count_le: "rune_count s \<le> length s"
proof (induction s rule: rune_count.induct)
  case (2 c s)
  then show ?case by simp
qed simp

definition is_ascii :: "string \<Rightarrow> bool" where
  "is_ascii s \<longleftrightarrow> (\<forall>c \<in> set s. (of_char c :: nat) \<le> 127)"

lemma rune_count_ascii: "is_ascii s \<Longrightarrow> rune_count s = length s"
  by (induction s) (simp_all add: is_ascii_def rune_width_ascii)

section \<open>Paths\<close>

text \<open>\<open>path.Base\<close>, and \<open>filepath.Base\<close> where the separator is a slash.\<close>

definition path_Base :: "string \<Rightarrow> string" where
  "path_Base p =
     (if p = [] then ''.''
      else
        (let stripped = rev (dropWhile (\<lambda>c. c = CHR ''/'') (rev p));
             base = rev (takeWhile (\<lambda>c. c \<noteq> CHR ''/'') (rev stripped))
         in if base = [] then ''/'' else base))"

lemma path_Base_no_slash: "path_Base p = ''/'' \<or> CHR ''/'' \<notin> set (path_Base p)"
  by (auto simp: path_Base_def Let_def dest: set_takeWhileD)

lemma path_Base_set: "set (path_Base p) \<subseteq> set p \<union> {CHR ''/'', CHR ''.''}"
  by (auto simp: path_Base_def Let_def dest!: set_takeWhileD set_dropWhileD)

lemma path_Base_plain: "p \<noteq> [] \<Longrightarrow> CHR ''/'' \<notin> set p \<Longrightarrow> path_Base p = p"
proof -
  assume p: "p \<noteq> []" "CHR ''/'' \<notin> set p"
  then have "dropWhile (\<lambda>c. c = CHR ''/'') (rev p) = rev p" by (cases "rev p") auto
  moreover have "takeWhile (\<lambda>c. c \<noteq> CHR ''/'') (rev p) = rev p" using p by (subst takeWhile_eq_all_conv) auto
  ultimately show ?thesis unfolding path_Base_def Let_def using p(1) by (simp only: rev_rev_ident if_False)
qed

section \<open>Padding and splitting\<close>

text \<open>The verbs \<^verbatim>\<open>%-*s\<close> and \<^verbatim>\<open>%0*s\<close>: padding to a number of characters, with spaces behind or zeros in front.\<close>

definition pad_right :: "nat \<Rightarrow> string \<Rightarrow> string" where
  "pad_right n s = s @ replicate (n - rune_count s) (CHR '' '')"

definition pad_zeros :: "nat \<Rightarrow> string \<Rightarrow> string" where
  "pad_zeros n s = replicate (n - rune_count s) (CHR ''0'') @ s"

text \<open>\<open>strings.Cut\<close> and \<open>strings.Split\<close> at a separator that is not empty; \<open>strings.SplitN(s, sep, 2)\<close> is the first.\<close>

fun cut_str :: "string \<Rightarrow> string \<Rightarrow> (string \<times> string) option" where
  "cut_str sep s =
     (if prefix sep s then Some ([], drop (length sep) s)
      else (case s of [] \<Rightarrow> None | c # r \<Rightarrow> map_option (\<lambda>(a, b). (c # a, b)) (cut_str sep r)))"

declare cut_str.simps [simp del]

lemma cut_str_Some: "cut_str sep s = Some (a, b) \<Longrightarrow> s = a @ sep @ b"
proof (induction sep s arbitrary: a rule: cut_str.induct)
  case (1 sep s)
  show ?case
  proof (cases "prefix sep s")
    case True
    with 1 show ?thesis by (auto simp: cut_str.simps [of sep s] prefix_def)
  next
    case False
    with 1 show ?thesis by (auto simp: cut_str.simps [of sep s] split: list.splits)
  qed
qed

function split_str :: "string \<Rightarrow> string \<Rightarrow> string list" where
  "split_str sep s =
     (case cut_str sep s of
        None \<Rightarrow> [s]
      | Some (a, b) \<Rightarrow> if sep = [] then [s] else a # split_str sep b)"
  by pat_completeness auto
termination
  by (relation "measure (\<lambda>(sep, s). length s)") (auto dest: cut_str_Some)

declare split_str.simps [simp del]

lemma split_str_nonempty [simp]: "split_str sep s \<noteq> []"
  by (subst split_str.simps) (auto split: option.splits)

lemma join_split_str: "join sep (split_str sep s) = s"
proof (induction sep s rule: split_str.induct)
  case (1 sep s)
  show ?case
  proof (cases "cut_str sep s")
    case None
    then show ?thesis by (simp add: split_str.simps [of sep s])
  next
    case (Some ab)
    obtain a b where ab: "ab = (a, b)" by force
    show ?thesis
    proof (cases "sep = []")
      case False
      obtain p ps where ps: "split_str sep b = p # ps" by (cases "split_str sep b") simp_all
      from 1 Some ab False have "join sep (split_str sep b) = b" by simp
      moreover have "split_str sep s = a # p # ps" using Some ab False ps by (simp add: split_str.simps [of sep s])
      moreover have "s = a @ sep @ b" using Some ab by (intro cut_str_Some) simp
      ultimately show ?thesis using ps by simp
    next
      case True
      with Some ab have "split_str sep s = [s]" by (subst split_str.simps) simp
      then show ?thesis by simp
    qed
  qed
qed

text \<open>\<open>strings.Trim\<close> with a set of one-byte characters.\<close>

definition trim_chars :: "string \<Rightarrow> string \<Rightarrow> string" where
  "trim_chars cs s = rev (dropWhile (\<lambda>c. c \<in> set cs) (rev (dropWhile (\<lambda>c. c \<in> set cs) s)))"

section \<open>Durations\<close>

text \<open>\<open>Duration.Round\<close>: halves away from zero, saturating at the ends of the range.\<close>

definition duration_Round :: "duration \<Rightarrow> duration \<Rightarrow> duration" where
  "duration_Round d m =
     (if m \<le> 0 then d
      else if d < 0 then
        (let r = (- d) mod m; d1 = wrap64 (d - m + r)
         in if 2 * r < m then d + r else if d1 < d then d1 else - (2 ^ 63))
      else
        (let r = d mod m; d1 = wrap64 (d + m - r)
         in if 2 * r < m then d - r else if d < d1 then d1 else 2 ^ 63 - 1))"

text \<open>\<open>Duration.String\<close>: the number in the largest unit that fits, with its fraction, and hours and minutes from a minute on.\<close>

definition fraction_string :: "nat \<Rightarrow> nat \<Rightarrow> string" where
  "fraction_string v prec =
     (let ds = replicate (prec - length (format_nat v)) (CHR ''0'') @ format_nat v;
          shown = rev (dropWhile (\<lambda>c. c = CHR ''0'') (rev ds))
      in if shown = [] then [] else ''.'' @ shown)"

definition scaled_string :: "nat \<Rightarrow> nat \<Rightarrow> string" where
  "scaled_string u prec = format_nat (u div 10 ^ prec) @ fraction_string (u mod 10 ^ prec) prec"

definition duration_String :: "duration \<Rightarrow> string" where
  "duration_String d =
     (let u = nat \<bar>d\<bar>; secs = u div 10 ^ 9; mins = secs div 60
      in if u = 0 then ''0s''
         else (if d < 0 then ''-'' else []) @
           (if u < 10 ^ 3 then format_nat u @ ''ns''
            else if u < 10 ^ 6 then scaled_string u 3 @ [CHR 0xC2, CHR 0xB5] @ ''s''
            else if u < 10 ^ 9 then scaled_string u 6 @ ''ms''
            else
              (if mins = 0 then []
               else (if mins < 60 then [] else format_nat (mins div 60) @ ''h'') @ format_nat (mins mod 60) @ ''m'') @
              format_nat (secs mod 60) @ fraction_string (u mod 10 ^ 9) 9 @ ''s''))"

lemma duration_Round_near:
  assumes "is_int64 d" and "0 < m" and "- (2 ^ 63) + m \<le> d" and "d + m < 2 ^ 63"
  shows "m dvd duration_Round d m \<and> 2 * \<bar>duration_Round d m - d\<bar> \<le> m"
proof -
  have small: "wrap64 x = x" if "- (2 ^ 63) \<le> x" "x < 2 ^ 63" for x
    using that by (intro wrap64_id) (simp add: is_int64_def)
  define r where "r = \<bar>d\<bar> mod m"
  have r: "0 \<le> r" "r < m" "m dvd \<bar>d\<bar> - r" using assms(2) by (simp_all add: r_def)
  show ?thesis
  proof (cases "d < 0")
    case True
    with r have "m dvd d + r" by (metis abs_of_neg dvd_minus_iff minus_diff_eq diff_minus_eq_add add.commute uminus_add_conv_diff)
    moreover from this have "m dvd d - m + r" by (metis add_diff_eq diff_add_eq dvd_diff dvd_refl)
    moreover have "wrap64 (d - m + r) = d - m + r" using r assms True by (intro small) auto
    moreover have "- d mod m = r" using True by (simp add: r_def)
    ultimately show ?thesis using True r assms(2) by (auto simp: duration_Round_def Let_def)
  next
    case False
    with r have "m dvd d - r" by simp
    moreover from this have "m dvd d + m - r" by (metis add_diff_eq diff_add_eq dvd_add dvd_refl)
    moreover have "wrap64 (d + m - r) = d + m - r" using r assms False by (intro small) auto
    moreover have "d mod m = r" using False by (simp add: r_def)
    ultimately show ?thesis using False r assms(2) by (auto simp: duration_Round_def Let_def)
  qed
qed

end
