(* ===== verification/Healthcheck.thy ===== *)
theory Healthcheck
  imports GoText "HOL-Library.Multiset"
begin

text \<open>
  Package \<^verbatim>\<open>healthcheck\<close> (\<^verbatim>\<open>src/healthcheck/check.go\<close>): the registry of database connections, the probe of one connection
  and the concurrent probe of all, with the reports. The connections, the text of errors and the
  readings of the Go runtime are parameters.
\<close>

section \<open>Reports\<close>

definition statusHealthy :: string where "statusHealthy = ''healthy''"
definition statusUnhealthy :: string where "statusUnhealthy = ''unhealthy''"
definition defaultPingTimeout :: duration where "defaultPingTimeout = 5 * Second"

record db_stats =
  st_OpenConnections :: int
  st_InUse :: int
  st_Idle :: int
  st_WaitCount :: int
  st_WaitDuration :: duration

text \<open>A \<open>Pinger\<close>: the error of a ping under a caller's context \<open>'x\<close> with a timeout, and the statistics of the pool.\<close>

record ('d, 'x) pinger_env =
  pn_PingContext :: "'d \<Rightarrow> 'x \<Rightarrow> duration \<Rightarrow> go_err option"
  pn_Stats :: "'d \<Rightarrow> db_stats"
  pn_Error :: "go_err \<Rightarrow> string"

record 'd db_entry =
  de_Name :: string
  de_Driver :: string
  de_DB :: 'd

record 'd db_conn =
  dc_driver :: string
  dc_db :: 'd

record db_report =
  dr_Status :: string
  dr_Driver :: string
  dr_Error :: string
  dr_OpenConnections :: int
  dr_InUse :: int
  dr_Idle :: int
  dr_WaitCount :: int
  dr_WaitDuration :: duration

section \<open>The registry\<close>

record 'd check =
  ck_databases :: "(string, 'd db_conn) gomap"
  ck_startedAt :: instant
  ck_pingTimeout :: duration

fun load_entries :: "'d db_entry list \<Rightarrow> (string, 'd db_conn) gomap \<Rightarrow> (string, 'd db_conn) gomap" where
  "load_entries [] dbs = dbs"
| "load_entries (e # es) dbs =
     load_entries es (AList.update (de_Name e) \<lparr>dc_driver = de_Driver e, dc_db = de_DB e\<rparr> dbs)"

definition check_New :: "'d db_entry list \<Rightarrow> instant \<Rightarrow> 'd check" where
  "check_New entries now =
     \<lparr>ck_databases = load_entries entries [], ck_startedAt = now, ck_pingTimeout = defaultPingTimeout\<rparr>"

definition SetPingTimeout :: "duration \<Rightarrow> 'd check \<Rightarrow> 'd check" where
  "SetPingTimeout d s = s\<lparr>ck_pingTimeout := (if d \<le> 0 then defaultPingTimeout else d)\<rparr>"

definition AddDB :: "string \<Rightarrow> string \<Rightarrow> 'd \<Rightarrow> 'd check \<Rightarrow> 'd check" where
  "AddDB name driver db s =
     s\<lparr>ck_databases := AList.update name \<lparr>dc_driver = driver, dc_db = db\<rparr> (ck_databases s)\<rparr>"

definition RemoveDB :: "string \<Rightarrow> 'd check \<Rightarrow> 'd check" where
  "RemoveDB name s = s\<lparr>ck_databases := AList.delete name (ck_databases s)\<rparr>"

section \<open>Probes\<close>

definition probeDB :: "('d, 'x) pinger_env \<Rightarrow> 'x \<Rightarrow> duration \<Rightarrow> 'd db_conn \<Rightarrow> db_report" where
  "probeDB env ctx timeout conn =
     (let report = \<lparr>dr_Status = [], dr_Driver = dc_driver conn, dr_Error = [], dr_OpenConnections = 0,
            dr_InUse = 0, dr_Idle = 0, dr_WaitCount = 0, dr_WaitDuration = 0\<rparr>
      in case pn_PingContext env (dc_db conn) ctx timeout of
           Some err \<Rightarrow> report\<lparr>dr_Status := statusUnhealthy, dr_Error := pn_Error env err\<rparr>
         | None \<Rightarrow>
             (let stats = pn_Stats env (dc_db conn)
              in report\<lparr>dr_Status := statusHealthy, dr_OpenConnections := st_OpenConnections stats,
                   dr_InUse := st_InUse stats, dr_Idle := st_Idle stats, dr_WaitCount := st_WaitCount stats,
                   dr_WaitDuration := st_WaitDuration stats\<rparr>))"

definition CheckDB :: "('d, 'x) pinger_env \<Rightarrow> 'x \<Rightarrow> string \<Rightarrow> 'd check \<Rightarrow> go_err + db_report" where
  "CheckDB env ctx name s =
     (case map_of (ck_databases s) name of
        None \<Rightarrow> Inl (Wrapped ''database %q not registered'' [])
      | Some conn \<Rightarrow> Inr (probeDB env ctx (ck_pingTimeout s) conn))"

text \<open>
  \<open>probeAllDBs\<close>: the goroutines store their reports one after the other under a lock, in an order the
  scheduler chooses; \<open>order\<close> is the order in which they get there.
\<close>

fun store_reports :: "('d, 'x) pinger_env \<Rightarrow> 'x \<Rightarrow> duration \<Rightarrow> (string \<times> 'd db_conn) list \<Rightarrow>
  (string, db_report) gomap \<Rightarrow> (string, db_report) gomap" where
  "store_reports env ctx timeout [] results = results"
| "store_reports env ctx timeout ((n, c) # rest) results =
     store_reports env ctx timeout rest (AList.update n (probeDB env ctx timeout c) results)"

definition probeAllDBs ::
  "('d, 'x) pinger_env \<Rightarrow> 'x \<Rightarrow> 'd check \<Rightarrow> (string \<times> 'd db_conn) list \<Rightarrow> (string, db_report) gomap"
where
  "probeAllDBs env ctx s order = store_reports env ctx (ck_pingTimeout s) order []"

section \<open>Runtime diagnostics\<close>

text \<open>\<open>rt_rfc3339\<close> formats a number of nanoseconds since 1970 as UTC.\<close>

record runtime_env =
  rt_GOOS :: string
  rt_GOARCH :: string
  rt_NumCPU :: int
  rt_NumGoroutine :: int
  rt_Alloc :: nat
  rt_TotalAlloc :: nat
  rt_Sys :: nat
  rt_NumGC :: nat
  rt_LastGC :: nat
  rt_rfc3339 :: "int \<Rightarrow> string"
  rt_now :: instant

record runtime_report =
  rr_OS :: string
  rr_Arch :: string
  rr_NumCPU :: int
  rr_NumGoroutine :: int
  rr_Uptime :: string
  rr_MemAllocated :: nat
  rr_MemTotalAlloc :: nat
  rr_MemSys :: nat
  rr_MemNumGC :: nat
  rr_MemLastGC :: string

definition runtimeReport :: "runtime_env \<Rightarrow> 'd check \<Rightarrow> runtime_report" where
  "runtimeReport rt s =
     (let lastGC = (if 0 < rt_LastGC rt then rt_rfc3339 rt (wrap64 (int (rt_LastGC rt))) else ''never'')
      in \<lparr>rr_OS = rt_GOOS rt, rr_Arch = rt_GOARCH rt, rr_NumCPU = rt_NumCPU rt, rr_NumGoroutine = rt_NumGoroutine rt,
          rr_Uptime = duration_String (duration_Round (time_sub (rt_now rt) (ck_startedAt s)) Second),
          rr_MemAllocated = rt_Alloc rt, rr_MemTotalAlloc = rt_TotalAlloc rt, rr_MemSys = rt_Sys rt,
          rr_MemNumGC = rt_NumGC rt, rr_MemLastGC = lastGC\<rparr>)"

record health_report =
  hr_Runtime :: runtime_report
  hr_Databases :: "(string, db_report) gomap"

definition Report ::
  "runtime_env \<Rightarrow> ('d, 'x) pinger_env \<Rightarrow> 'x \<Rightarrow> 'd check \<Rightarrow> (string \<times> 'd db_conn) list \<Rightarrow> health_report"
where
  "Report rt env ctx s order = \<lparr>hr_Runtime = runtimeReport rt s, hr_Databases = probeAllDBs env ctx s order\<rparr>"

section \<open>Histories\<close>

text \<open>The operations callers make, and the registry they mean: the last registration of a name that was not removed since.\<close>

datatype 'd check_op = OpSetPingTimeout duration | OpAddDB string string 'd | OpRemoveDB string

primrec apply_op :: "'d check_op \<Rightarrow> 'd check \<Rightarrow> 'd check" where
  "apply_op (OpSetPingTimeout d) s = SetPingTimeout d s"
| "apply_op (OpAddDB name driver db) s = AddDB name driver db s"
| "apply_op (OpRemoveDB name) s = RemoveDB name s"

primrec registry :: "'d check_op \<Rightarrow> (string \<rightharpoonup> string \<times> 'd) \<Rightarrow> string \<rightharpoonup> string \<times> 'd" where
  "registry (OpSetPingTimeout d) m = m"
| "registry (OpAddDB name driver db) m = m(name \<mapsto> (driver, db))"
| "registry (OpRemoveDB name) m = m(name := None)"

definition abs_conn :: "'d db_conn \<Rightarrow> string \<times> 'd" where "abs_conn c = (dc_driver c, dc_db c)"

definition abs_dbs :: "(string, 'd db_conn) gomap \<Rightarrow> string \<rightharpoonup> string \<times> 'd" where
  "abs_dbs dbs = (\<lambda>n. map_option abs_conn (map_of dbs n))"

definition abs_check :: "'d check \<Rightarrow> string \<rightharpoonup> string \<times> 'd" where
  "abs_check s = abs_dbs (ck_databases s)"

definition add_entry :: "'d db_entry \<Rightarrow> 'd check_op" where
  "add_entry e = OpAddDB (de_Name e) (de_Driver e) (de_DB e)"

section \<open>Lemmas\<close>

definition check_ok :: "'d check \<Rightarrow> bool" where
  "check_ok s \<longleftrightarrow> wf_map (ck_databases s) \<and> 0 < ck_pingTimeout s"

lemma load_entries_wf: "wf_map dbs \<Longrightarrow> wf_map (load_entries es dbs)"
  by (induction es dbs rule: load_entries.induct) simp_all

lemma abs_dbs_simps [simp]:
  "abs_dbs (AList.update k c dbs) = (abs_dbs dbs)(k \<mapsto> abs_conn c)"
  "abs_dbs (AList.delete k dbs) = (abs_dbs dbs)(k := None)" "abs_dbs [] = Map.empty"
  by (auto simp: abs_dbs_def fun_eq_iff)

lemma load_entries_abs: "abs_dbs (load_entries es dbs) = fold registry (map add_entry es) (abs_dbs dbs)"
  by (induction es dbs rule: load_entries.induct) (simp_all add: add_entry_def abs_conn_def del: fun_upd_apply)

lemma check_ok_New: "check_ok (check_New entries now)"
  by (simp add: check_ok_def check_New_def load_entries_wf defaultPingTimeout_def clock_simps)

lemma check_ok_op: "check_ok s \<Longrightarrow> check_ok (apply_op op s)"
  by (cases op) (auto simp: check_ok_def SetPingTimeout_def AddDB_def RemoveDB_def defaultPingTimeout_def clock_simps)

lemma abs_check_op: "abs_check (apply_op op s) = registry op (abs_check s)"
  by (cases op) (simp_all add: abs_check_def SetPingTimeout_def AddDB_def RemoveDB_def abs_conn_def)

lemma history_ok: "check_ok s \<Longrightarrow> check_ok (fold apply_op ops s)"
  by (induction ops arbitrary: s) (simp_all add: check_ok_op)

lemma history_abs: "abs_check (fold apply_op ops s) = fold registry ops (abs_check s)"
  by (induction ops arbitrary: s) (simp_all add: abs_check_op)

lemma store_reports_lookup:
  assumes "distinct (map fst order)"
  shows "map_of (store_reports env ctx timeout order results) n =
    (case map_of order n of Some c \<Rightarrow> Some (probeDB env ctx timeout c) | None \<Rightarrow> map_of results n)"
  using assms
proof (induction env ctx timeout order results rule: store_reports.induct)
  case (2 env ctx timeout n' c rest results)
  have "map_of rest n' = None" using 2 by (simp add: map_of_eq_None_iff)
  with 2 show ?case by (simp split: option.split)
qed simp

lemma map_of_shuffled:
  assumes "wf_map m" and "mset order = mset m"
  shows "map_of order = map_of m" "distinct (map fst order)"
proof -
  have "mset (map fst order) = mset (map fst m)" using assms(2) by simp
  from mset_eq_imp_distinct_iff [OF this] show "distinct (map fst order)" using assms(1) by (simp add: wf_map_def)
  then show "map_of order = map_of m"
    using assms map_of_inject_set [of order m] mset_eq_setD [OF assms(2)] by (simp add: wf_map_def)
qed

lemma abs_check_lookup:
  "abs_check s n = Some (driver, db) \<longleftrightarrow> map_of (ck_databases s) n = Some \<lparr>dc_driver = driver, dc_db = db\<rparr>"
  "abs_check s n = None \<longleftrightarrow> map_of (ck_databases s) n = None"
  by (auto simp: abs_check_def abs_dbs_def abs_conn_def)

lemma abs_check_New: "abs_check (check_New entries now) = fold registry (map add_entry entries) Map.empty"
  by (simp add: abs_check_def check_New_def load_entries_abs)

section \<open>Properties\<close>

text \<open>
  C32: a health report covers exactly the connections that are registered when it is made, whatever was added,
  replaced and removed before and in whatever order the concurrent probes finish: each with the driver of its
  last registration, healthy with the figures of the pool exactly when the ping succeeded and else unhealthy with
  the text of the error. The probe of one connection gives the same report, and an error for a name that
  is not registered; every ping has a positive timeout.
\<close>

theorem health_report_refines:
  assumes "s = fold apply_op ops (check_New entries now)" and "mset order = mset (ck_databases s)"
  shows "0 < ck_pingTimeout s \<and>
    (case fold registry ops (fold registry (map add_entry entries) Map.empty) n of
       None \<Rightarrow> map_of (hr_Databases (Report rt env ctx s order)) n = None \<and> (\<exists>e. CheckDB env ctx n s = Inl e)
     | Some (driver, db) \<Rightarrow>
         \<exists>r. map_of (hr_Databases (Report rt env ctx s order)) n = Some r \<and> CheckDB env ctx n s = Inr r \<and> dr_Driver r = driver \<and>
           (case pn_PingContext env db ctx (ck_pingTimeout s) of
              None \<Rightarrow> dr_Status r = ''healthy'' \<and> dr_Error r = [] \<and> dr_OpenConnections r = st_OpenConnections (pn_Stats env db)
            | Some e \<Rightarrow> dr_Status r = ''unhealthy'' \<and> dr_Error r = pn_Error env e \<and> dr_OpenConnections r = 0))"
proof -
  have ok: "check_ok s" unfolding assms(1) by (rule history_ok [OF check_ok_New])
  have abs: "abs_check s = fold registry ops (fold registry (map add_entry entries) Map.empty)"
    by (simp add: assms(1) history_abs abs_check_New)
  have wf: "wf_map (ck_databases s)" using ok by (simp add: check_ok_def)
  have reports: "map_of (hr_Databases (Report rt env ctx s order)) n =
      map_option (probeDB env ctx (ck_pingTimeout s)) (map_of (ck_databases s) n)"
    using store_reports_lookup [OF map_of_shuffled(2) [OF wf assms(2)], of env ctx "ck_pingTimeout s" "[]" n]
      map_of_shuffled(1) [OF wf assms(2)]
    by (simp add: Report_def probeAllDBs_def split: option.splits)
  show ?thesis
  proof (cases "abs_check s n")
    case None
    moreover from None have "map_of (ck_databases s) n = None" by (simp add: abs_check_lookup)
    ultimately show ?thesis using reports ok unfolding abs by (simp add: CheckDB_def check_ok_def)
  next
    case (Some x)
    obtain driver db where "x = (driver, db)" by (cases x)
    moreover from this Some have "map_of (ck_databases s) n = Some \<lparr>dc_driver = driver, dc_db = db\<rparr>"
      by (simp add: abs_check_lookup)
    ultimately show ?thesis using Some reports ok unfolding abs
      by (simp add: CheckDB_def check_ok_def probeDB_def Let_def statusHealthy_def statusUnhealthy_def split: option.split)
  qed
qed

definition demo_pinger :: "(nat, unit) pinger_env" where
  "demo_pinger = \<lparr>pn_PingContext = (\<lambda>d _ _. if d = 0 then None else Some (Foreign d)),
     pn_Stats = (\<lambda>_. \<lparr>st_OpenConnections = 3, st_InUse = 1, st_Idle = 2, st_WaitCount = 0, st_WaitDuration = 0\<rparr>),
     pn_Error = (\<lambda>_. ''down'')\<rparr>"

definition demo_check :: "nat check" where
  "demo_check = fold apply_op [OpAddDB ''b'' ''mysql'' 1] (check_New [\<lparr>de_Name = ''a'', de_Driver = ''pg'', de_DB = 0\<rparr>] 0)"

definition demo_runtime :: runtime_env where
  "demo_runtime = \<lparr>rt_GOOS = ''linux'', rt_GOARCH = ''amd64'', rt_NumCPU = 1, rt_NumGoroutine = 1, rt_Alloc = 0, rt_TotalAlloc = 0,
     rt_Sys = 0, rt_NumGC = 0, rt_LastGC = 0, rt_rfc3339 = (\<lambda>_. []), rt_now = 0\<rparr>"

theorem health_report_refines_witness:
  "map_of (hr_Databases (Report demo_runtime demo_pinger () demo_check (rev (ck_databases demo_check)))) ''c'' = None \<and>
   (\<exists>r. map_of (hr_Databases (Report demo_runtime demo_pinger () demo_check (rev (ck_databases demo_check)))) ''b'' = Some r \<and>
      dr_Status r = ''unhealthy'' \<and> dr_Error r = ''down'')"
  using health_report_refines [OF demo_check_def, where order = "rev (ck_databases demo_check)" and rt = demo_runtime and env = demo_pinger and ctx = "()" and n = "''b''"]
    health_report_refines [OF demo_check_def, where order = "rev (ck_databases demo_check)" and rt = demo_runtime and env = demo_pinger and ctx = "()" and n = "''c''"]
  by (simp add: add_entry_def demo_pinger_def) blast

end
