(* ===== verification/HttpServer.thy ===== *)
theory HttpServer
  imports GoText
begin

text \<open>
  Package \<^verbatim>\<open>httpserver\<close>: the engine around gin (\<^verbatim>\<open>src/httpserver/gin.go\<close>), that is its validation, the address, the TLS
  settings, the default middlewares and the answer for unknown routes; and file downloads
  (\<^verbatim>\<open>src/httpserver/download_file.go\<close>). The gin router is modelled by what the engine registers on it; name resolution, the
  listening sockets and the MIME tables are parameters.
\<close>

section \<open>Configuration\<close>

definition ErrInvalidListenAddress :: go_err where "ErrInvalidListenAddress = Sentinel ''invalid listen address''"
definition ErrServerNotInitialized :: go_err where "ErrServerNotInitialized = Sentinel ''server not initialized''"
definition ErrInvalidSSLConfig :: go_err where "ErrInvalidSSLConfig = Sentinel ''invalid SSL configuration''"
definition ErrHostResolutionFailed :: go_err where "ErrHostResolutionFailed = Sentinel ''failed to resolve host address''"

lemmas server_sentinels = ErrInvalidListenAddress_def ErrServerNotInitialized_def ErrInvalidSSLConfig_def
  ErrHostResolutionFailed_def

record gin_config =
  gc_Host :: string
  gc_Port :: "16 word"
  gc_DebugMode :: bool
  gc_ReadTimeout :: duration
  gc_WriteTimeout :: duration
  gc_IdleTimeout :: duration
  gc_UseSSL :: bool
  gc_SSLCert :: string
  gc_SSLKey :: string
  gc_MinTLSVersion :: "16 word"
  gc_EnableHTTP2 :: bool
  gc_NoRouteTo :: string
  gc_NoRouteJSON :: bool
  gc_UseRecovery :: bool
  gc_TrustedProxies :: "string list"
  gc_MaxPayloadSize :: int

text \<open>The version and cipher suite numbers of package \<^verbatim>\<open>crypto/tls\<close>.\<close>

definition VersionTLS12 :: "16 word" where "VersionTLS12 = 0x0303"
definition VersionTLS13 :: "16 word" where "VersionTLS13 = 0x0304"

definition DefaultGinConfig :: gin_config where
  "DefaultGinConfig = \<lparr>gc_Host = [], gc_Port = 8080, gc_DebugMode = False, gc_ReadTimeout = 15 * Second,
     gc_WriteTimeout = 15 * Second, gc_IdleTimeout = 60 * Second, gc_UseSSL = False, gc_SSLCert = [], gc_SSLKey = [],
     gc_MinTLSVersion = VersionTLS12, gc_EnableHTTP2 = True, gc_NoRouteTo = [], gc_NoRouteJSON = True,
     gc_UseRecovery = True, gc_TrustedProxies = [], gc_MaxPayloadSize = 10 * 1024 * 1024\<rparr>"

text \<open>\<open>fmt.Sprint\<close> puts no space beside a string operand.\<close>

definition buildAddress :: "string \<Rightarrow> 16 word \<Rightarrow> string" where
  "buildAddress host port =
     (if host = [] then '':'' @ format_nat (unat port) else host @ '':'' @ format_nat (unat port))"

text \<open>\<open>resolve\<close> is \<^verbatim>\<open>net.ResolveTCPAddr\<close>.\<close>

definition gin_validateConfig :: "(string \<Rightarrow> go_err option) \<Rightarrow> gin_config \<Rightarrow> go_err option" where
  "gin_validateConfig resolve config =
     (if gc_Port config = 0 then Some ErrInvalidListenAddress
      else if gc_Host config \<noteq> [] \<and> gc_Host config \<noteq> '':'' \<and> resolve (buildAddress (gc_Host config) (gc_Port config)) \<noteq> None
      then Some (Wrapped ''%w: address=%s: %v'' [ErrHostResolutionFailed])
      else if gc_UseSSL config \<and> (gc_SSLCert config = [] \<or> gc_SSLKey config = [])
      then Some (Wrapped ''%w: ssl_cert_empty=%t ssl_key_empty=%t'' [ErrInvalidSSLConfig])
      else None)"

section \<open>The engine\<close>

record tls_config =
  tc_MinVersion :: "16 word"
  tc_CurvePreferences :: "string list"
  tc_PreferServerCipherSuites :: bool
  tc_CipherSuites :: "16 word list"

definition createTLSConfig :: "gin_config \<Rightarrow> tls_config" where
  "createTLSConfig config =
     \<lparr>tc_MinVersion = (if gc_MinTLSVersion config = 0 then VersionTLS13 else gc_MinTLSVersion config),
      tc_CurvePreferences = [''P256'', ''X25519''], tc_PreferServerCipherSuites = True,
      tc_CipherSuites = [0xC02C, 0xC030, 0xCCA9, 0xCCA8, 0xC02B, 0xC02F]\<rparr>"

text \<open>
  What a middleware or handler does with a request: limit its body, go on, or answer. A handler the
  caller registers is named by a number.
\<close>

datatype handler = Recovery | PayloadLimit int | CallerHandler nat

datatype server_effect =
    LimitBody int
  | CallNext
  | RedirectTo int string
  | AnswerJSON int "(string \<times> string) list"

definition createPayloadLimitMiddleware :: "int \<Rightarrow> server_effect list" where
  "createPayloadLimitMiddleware maxSize = [LimitBody maxSize, CallNext]"

text \<open>Gin's mode is global; a router is recorded with the mode in force when it was created.\<close>

datatype gin_mode = DebugMode | ReleaseMode

definition setGinMode :: "bool \<Rightarrow> gin_mode" where
  "setGinMode debugMode = (if debugMode then DebugMode else ReleaseMode)"

record gin_router =
  gr_mode :: gin_mode
  gr_trustedProxies :: "string list option"
  gr_middlewares :: "handler list"
  gr_noRoute :: "string \<Rightarrow> server_effect list"

record http_server =
  hs_Addr :: string
  hs_ReadTimeout :: duration
  hs_WriteTimeout :: duration
  hs_IdleTimeout :: duration
  hs_TLSConfig :: "tls_config option"
  hs_http2 :: bool

record engine =
  en_config :: gin_config
  en_router :: "gin_router option"
  en_server :: "http_server option"
  en_tlsConfig :: "tls_config option"
  en_addr :: string

definition createRouter :: "gin_mode \<Rightarrow> gin_config \<Rightarrow> gin_router" where
  "createRouter mode config =
     \<lparr>gr_mode = mode,
      gr_trustedProxies = (if 0 < length (gc_TrustedProxies config) then Some (gc_TrustedProxies config) else None),
      gr_middlewares = [], gr_noRoute = (\<lambda>_. [])\<rparr>"

definition createHTTPServer :: "engine \<Rightarrow> http_server" where
  "createHTTPServer e =
     \<lparr>hs_Addr = en_addr e, hs_ReadTimeout = gc_ReadTimeout (en_config e), hs_WriteTimeout = gc_WriteTimeout (en_config e),
      hs_IdleTimeout = gc_IdleTimeout (en_config e), hs_TLSConfig = en_tlsConfig e,
      hs_http2 = (gc_EnableHTTP2 (en_config e) \<and> gc_UseSSL (en_config e))\<rparr>"

definition router_use :: "handler list \<Rightarrow> gin_router \<Rightarrow> gin_router" where
  "router_use hs r = r\<lparr>gr_middlewares := gr_middlewares r @ hs\<rparr>"

definition Use :: "handler list \<Rightarrow> engine \<Rightarrow> engine" where
  "Use hs e = e\<lparr>en_router := map_option (router_use hs) (en_router e)\<rparr>"

definition SetupRoutes :: "(gin_router \<Rightarrow> gin_router) option \<Rightarrow> engine \<Rightarrow> engine" where
  "SetupRoutes setup e =
     (case (setup, en_router e) of (Some f, Some r) \<Rightarrow> e\<lparr>en_router := Some (f r)\<rparr> | _ \<Rightarrow> e)"

definition SetupMiddleware :: "(gin_router \<Rightarrow> gin_router) option \<Rightarrow> engine \<Rightarrow> engine" where
  "SetupMiddleware setup e =
     (case (setup, en_router e) of (Some f, Some r) \<Rightarrow> e\<lparr>en_router := Some (f r)\<rparr> | _ \<Rightarrow> e)"

definition setupDefaultMiddleware :: "engine \<Rightarrow> engine" where
  "setupDefaultMiddleware e =
     (let e1 = (if gc_UseRecovery (en_config e) then Use [Recovery] e else e)
      in if 0 < gc_MaxPayloadSize (en_config e) then Use [PayloadLimit (gc_MaxPayloadSize (en_config e))] e1 else e1)"

definition noRoute_answer :: "gin_config \<Rightarrow> string \<Rightarrow> server_effect list" where
  "noRoute_answer config path =
     (if gc_NoRouteTo config \<noteq> [] \<and> \<not> gc_NoRouteJSON config then [RedirectTo 307 (gc_NoRouteTo config)]
      else [AnswerJSON 404 [(''error'', ''Not Found''), (''message'', ''The requested resource was not found''), (''path'', path)]])"

definition setupNoRouteHandler :: "engine \<Rightarrow> engine" where
  "setupNoRouteHandler e =
     e\<lparr>en_router := map_option (\<lambda>r. r\<lparr>gr_noRoute := noRoute_answer (en_config e)\<rparr>) (en_router e)\<rparr>"

definition NewGin :: "(string \<Rightarrow> go_err option) \<Rightarrow> gin_config option \<Rightarrow> go_err + engine" where
  "NewGin resolve config0 =
     (let config = (case config0 of None \<Rightarrow> DefaultGinConfig | Some c \<Rightarrow> c) in
      case gin_validateConfig resolve config of
        Some err \<Rightarrow> Inl err
      | None \<Rightarrow>
          (let e0 = \<lparr>en_config = config, en_router = Some (createRouter (setGinMode (gc_DebugMode config)) config), en_server = None,
                 en_tlsConfig = None, en_addr = buildAddress (gc_Host config) (gc_Port config)\<rparr>;
               e1 = (if gc_UseSSL config then e0\<lparr>en_tlsConfig := Some (createTLSConfig config)\<rparr> else e0);
               e2 = e1\<lparr>en_server := Some (createHTTPServer e1)\<rparr>
           in Inr (setupNoRouteHandler (setupDefaultMiddleware e2))))"

text \<open>The calls on the server, which return its error.\<close>

datatype server_call = ListenAndServe string | ListenAndServeTLS string string string | ShutdownServer string

definition Listen :: "engine \<Rightarrow> go_err + server_call" where
  "Listen e =
     (case en_server e of
        None \<Rightarrow> Inl ErrServerNotInitialized
      | Some srv \<Rightarrow>
          if gc_UseSSL (en_config e)
          then Inr (ListenAndServeTLS (hs_Addr srv) (gc_SSLCert (en_config e)) (gc_SSLKey (en_config e)))
          else Inr (ListenAndServe (hs_Addr srv)))"

definition engine_ListenAndServeTLS :: "string \<Rightarrow> string \<Rightarrow> engine \<Rightarrow> go_err + server_call" where
  "engine_ListenAndServeTLS certFile keyFile e =
     (case en_server e of
        None \<Rightarrow> Inl ErrServerNotInitialized
      | Some srv \<Rightarrow> Inr (ListenAndServeTLS (hs_Addr srv) certFile keyFile))"

definition Shutdown :: "engine \<Rightarrow> go_err + server_call" where
  "Shutdown e =
     (case en_server e of None \<Rightarrow> Inl ErrServerNotInitialized | Some srv \<Rightarrow> Inr (ShutdownServer (hs_Addr srv)))"

definition GetPort :: "engine \<Rightarrow> 16 word" where "GetPort e = gc_Port (en_config e)"
definition Addr :: "engine \<Rightarrow> string" where "Addr e = en_addr e"
definition IsSSLEnabled :: "engine \<Rightarrow> bool" where "IsSSLEnabled e \<longleftrightarrow> gc_UseSSL (en_config e)"

section \<open>Serving\<close>

text \<open>
  What a handler behind the middlewares can read of a body: \<^verbatim>\<open>http.MaxBytesReader\<close> gives at most its limit and
  then fails. \<open>None\<close> as the limit is a body that is not limited.
\<close>

fun body_limit :: "handler list \<Rightarrow> int option \<Rightarrow> int option" where
  "body_limit [] limit = limit"
| "body_limit (PayloadLimit n # hs) limit = body_limit hs (Some (case limit of None \<Rightarrow> n | Some m \<Rightarrow> min m n))"
| "body_limit (_ # hs) limit = body_limit hs limit"

definition readable_body :: "engine \<Rightarrow> string \<Rightarrow> string" where
  "readable_body e body =
     (case en_router e of
        None \<Rightarrow> body
      | Some r \<Rightarrow> (case body_limit (gr_middlewares r) None of None \<Rightarrow> body | Some n \<Rightarrow> take (nat n) body))"

section \<open>Downloads\<close>

text \<open>
  \<open>strings.Map\<close> with the function of the source: the three control characters are dropped and, as a side effect
  of mapping, a byte that is not valid UTF-8 becomes U+FFFD.
\<close>

function strip_controls :: "string \<Rightarrow> string" where
  "strip_controls [] = []"
| "strip_controls (c # s) =
     (let w = rune_width (c # s) in
      if w = 0 then [CHR 0xEF, CHR 0xBF, CHR 0xBD] @ strip_controls s
      else if c \<in> {CHR 0x0D, CHR 0x0A, CHR 0x00} then strip_controls s
      else take w (c # s) @ strip_controls (drop w (c # s)))"
  by pat_completeness auto
termination
  by (relation "measure length") auto

definition sanitizeFilename :: "string \<Rightarrow> string" where
  "sanitizeFilename filename0 =
     (let filename1 = map (\<lambda>c. if c = CHR 0x5C then CHR ''/'' else c) filename0;
          filename2 = path_Base filename1;
          filename3 = strip_controls filename2
      in if filename3 = ''.'' \<or> filename3 = ''/'' then [] else filename3)"

text \<open>The MIME tables: the type of an extension, the sniffed type of a content, and the formatting of a parameter.\<close>

record mime_env =
  mi_TypeByExtension :: "string \<Rightarrow> string"
  mi_DetectContentType :: "string \<Rightarrow> string"
  mi_FormatMediaType :: "string \<Rightarrow> (string \<times> string) list \<Rightarrow> string"

definition detectContentType :: "mime_env \<Rightarrow> string \<Rightarrow> string \<Rightarrow> string" where
  "detectContentType env filename content =
     (let extension = filepath_Ext filename in
      if extension \<noteq> [] \<and> mi_TypeByExtension env extension \<noteq> [] then mi_TypeByExtension env extension
      else if 0 < length content then mi_DetectContentType env content
      else ''application/octet-stream'')"

definition contentDisposition :: "mime_env \<Rightarrow> string \<Rightarrow> string" where
  "contentDisposition env filename =
     (if filename = [] then ''attachment'' else mi_FormatMediaType env ''attachment'' [(''filename'', filename)])"

definition DownloadFile ::
  "mime_env \<Rightarrow> string \<Rightarrow> string \<Rightarrow> string \<Rightarrow> (string \<times> string) list \<times> int \<times> string"
where
  "DownloadFile env filename0 contentType0 content =
     (let filename = sanitizeFilename filename0;
          contentType = (if contentType0 = [] then detectContentType env filename content else contentType0)
      in ([(''Content-Type'', contentType), (''Content-Length'', format_nat (length content)),
           (''Content-Disposition'', contentDisposition env filename),
           (''Cache-Control'', ''no-store, no-cache, must-revalidate''), (''Pragma'', ''no-cache''), (''Expires'', ''0''),
           (''X-Content-Type-Options'', ''nosniff'')], 200, content))"

section \<open>Lemmas\<close>

subsection \<open>The engine\<close>

lemma Use_simps [simp]:
  "en_config (Use hs e) = en_config e" "en_server (Use hs e) = en_server e" "en_addr (Use hs e) = en_addr e"
  "en_tlsConfig (Use hs e) = en_tlsConfig e" "en_router (Use hs e) = map_option (router_use hs) (en_router e)"
  by (simp_all add: Use_def)

lemma defaults_simps [simp]:
  "en_config (setupDefaultMiddleware e) = en_config e" "en_server (setupDefaultMiddleware e) = en_server e"
  "en_addr (setupDefaultMiddleware e) = en_addr e" "en_tlsConfig (setupDefaultMiddleware e) = en_tlsConfig e"
  "en_config (setupNoRouteHandler e) = en_config e" "en_server (setupNoRouteHandler e) = en_server e"
  "en_addr (setupNoRouteHandler e) = en_addr e" "en_tlsConfig (setupNoRouteHandler e) = en_tlsConfig e"
  by (simp_all add: setupDefaultMiddleware_def setupNoRouteHandler_def Let_def)

definition default_handlers :: "gin_config \<Rightarrow> handler list" where
  "default_handlers config = (if gc_UseRecovery config then [Recovery] else []) @
     (if 0 < gc_MaxPayloadSize config then [PayloadLimit (gc_MaxPayloadSize config)] else [])"

lemma default_router:
  "en_router (setupDefaultMiddleware e) = map_option (router_use (default_handlers (en_config e))) (en_router e)"
  by (cases "en_router e") (simp_all add: setupDefaultMiddleware_def default_handlers_def router_use_def Let_def)

lemma body_limit_mono: "body_limit hs (Some m) = Some n \<Longrightarrow> n \<le> m"
proof (induction hs arbitrary: m)
  case (Cons h hs)
  then show ?case by (cases h) fastforce+
qed simp

lemma body_limit_Some: "\<exists>n. body_limit hs (Some m) = Some n"
proof (induction hs arbitrary: m)
  case (Cons h hs)
  then show ?case by (cases h) auto
qed simp

lemma body_limit_append: "body_limit (a @ b) l = body_limit b (body_limit a l)"
proof (induction a arbitrary: l)
  case (Cons h a)
  then show ?case by (cases h) auto
qed simp

lemma default_limit: "0 < gc_MaxPayloadSize c \<Longrightarrow> body_limit (default_handlers c) None = Some (gc_MaxPayloadSize c)"
  by (simp add: default_handlers_def)

lemma NewGin_cases:
  assumes "NewGin resolve config0 = Inr e"
  obtains config where "config = (case config0 of None \<Rightarrow> DefaultGinConfig | Some c \<Rightarrow> c)" "en_config e = config"
    "gin_validateConfig resolve config = None" "en_addr e = buildAddress (gc_Host config) (gc_Port config)"
    "en_tlsConfig e = (if gc_UseSSL config then Some (createTLSConfig config) else None)"
    "\<exists>srv. en_server e = Some srv \<and> hs_Addr srv = en_addr e \<and> hs_TLSConfig srv = en_tlsConfig e"
    "\<exists>r. en_router e = Some r \<and> gr_middlewares r = default_handlers config \<and> gr_noRoute r = noRoute_answer config \<and>
      gr_mode r = setGinMode (gc_DebugMode config)"
proof (rule that [OF refl])
  let ?c = "case config0 of None \<Rightarrow> DefaultGinConfig | Some c \<Rightarrow> c"
  show v: "gin_validateConfig resolve ?c = None"
    using assms by (cases "gin_validateConfig resolve ?c") (simp_all add: NewGin_def Let_def)
  define e1 where "e1 = (let e0 = \<lparr>en_config = ?c, en_router = Some (createRouter (setGinMode (gc_DebugMode ?c)) ?c), en_server = None,
    en_tlsConfig = None, en_addr = buildAddress (gc_Host ?c) (gc_Port ?c)\<rparr>
    in if gc_UseSSL ?c then e0\<lparr>en_tlsConfig := Some (createTLSConfig ?c)\<rparr> else e0)"
  have e: "e = setupNoRouteHandler (setupDefaultMiddleware (e1\<lparr>en_server := Some (createHTTPServer e1)\<rparr>))"
    using assms v by (simp add: NewGin_def e1_def Let_def)
  have e1: "en_config e1 = ?c" "en_addr e1 = buildAddress (gc_Host ?c) (gc_Port ?c)" "en_router e1 = Some (createRouter (setGinMode (gc_DebugMode ?c)) ?c)"
    "en_tlsConfig e1 = (if gc_UseSSL ?c then Some (createTLSConfig ?c) else None)"
    by (simp_all add: e1_def Let_def)
  show "en_config e = ?c" "en_addr e = buildAddress (gc_Host ?c) (gc_Port ?c)"
    "en_tlsConfig e = (if gc_UseSSL ?c then Some (createTLSConfig ?c) else None)"
    using e1 by (simp_all add: e)
  show "\<exists>srv. en_server e = Some srv \<and> hs_Addr srv = en_addr e \<and> hs_TLSConfig srv = en_tlsConfig e"
    by (simp add: e createHTTPServer_def)
  show "\<exists>r. en_router e = Some r \<and> gr_middlewares r = default_handlers ?c \<and> gr_noRoute r = noRoute_answer ?c \<and>
      gr_mode r = setGinMode (gc_DebugMode ?c)"
    using e1 by (simp add: e setupNoRouteHandler_def default_router router_use_def createRouter_def)
qed

subsection \<open>File names\<close>

lemma high_chars: "(128 :: nat) \<le> of_char c \<Longrightarrow> c \<notin> {CHR 0x0D, CHR 0x0A, CHR 0x00, CHR ''/'', CHR 0x5C}"
  by auto

lemma strip_controls_set:
  "set (strip_controls s) \<subseteq> (set s - {CHR 0x0D, CHR 0x0A, CHR 0x00}) \<union> {CHR 0xEF, CHR 0xBF, CHR 0xBD}"
proof (induction s rule: strip_controls.induct)
  case (2 c s)
  let ?w = "rune_width (c # s)"
  have "set (take ?w (c # s)) \<subseteq> set (c # s) - {CHR 0x0D, CHR 0x0A, CHR 0x00}" if "?w \<noteq> 0" "c \<notin> {CHR 0x0D, CHR 0x0A, CHR 0x00}"
  proof
    fix x assume x: "x \<in> set (take ?w (c # s))"
    then have "x \<in> set (c # s)" by (rule in_set_takeD)
    moreover have "x \<notin> {CHR 0x0D, CHR 0x0A, CHR 0x00}"
    proof (cases "?w = 1")
      case True
      with x that show ?thesis by simp
    next
      case False
      from x obtain i where "i < ?w" "x = (c # s) ! i" by (auto simp: in_set_conv_nth)
      with False that rune_width_bytes [of "c # s" i] have "(128 :: nat) \<le> of_char x" by simp
      from high_chars [OF this] show ?thesis by simp
    qed
    ultimately show "x \<in> set (c # s) - {CHR 0x0D, CHR 0x0A, CHR 0x00}" by simp
  qed
  moreover have "set (drop ?w (c # s)) \<subseteq> set (c # s)" by (rule set_drop_subset)
  ultimately show ?case using 2 by (cases "?w = 0"; cases "c \<in> {CHR 0x0D, CHR 0x0A, CHR 0x00}") (simp_all add: Let_def, blast+)
qed simp

lemma strip_controls_ascii:
  "\<forall>c \<in> set s. (of_char c :: nat) \<le> 127 \<and> c \<notin> {CHR 0x0D, CHR 0x0A, CHR 0x00} \<Longrightarrow> strip_controls s = s"
proof (induction s)
  case (Cons c s)
  then have "rune_width (c # s) = 1" by (simp add: rune_width_def utf8_forms_def has_form_def)
  with Cons show ?case by (simp add: Let_def)
qed simp

lemma sanitize_plain:
  assumes "\<forall>c \<in> set name. (of_char c :: nat) \<le> 127 \<and> c \<notin> {CHR 0x0D, CHR 0x0A, CHR 0x00, CHR ''/'', CHR 0x5C}" and "name \<noteq> ''.''"
  shows "sanitizeFilename name = name"
proof (cases "name = []")
  case True
  have "strip_controls ''.'' = ''.''" by (rule strip_controls_ascii) simp
  with True show ?thesis by (simp add: sanitizeFilename_def path_Base_def)
next
  case False
  have m: "map (\<lambda>c. if c = CHR 0x5C then CHR ''/'' else c) name = name" by (rule map_idI) (use assms(1) in auto)
  have slash: "CHR ''/'' \<notin> set name" using assms(1) by auto
  then have n: "name \<noteq> ''/''" by auto
  have "strip_controls name = name" by (rule strip_controls_ascii) (use assms(1) in simp)
  then show ?thesis unfolding sanitizeFilename_def Let_def m path_Base_plain [OF False slash]
    using n assms(2) by simp
qed

section \<open>Properties\<close>


text \<open>
  A host of one colon is exempt from resolution although the address built from it is not the wildcard
  address: it has two colons.
\<close>

lemma colon_host: "gc_Host c = '':'' \<Longrightarrow> buildAddress (gc_Host c) 8080 = ''::'' @ format_nat 8080"
  by (simp add: buildAddress_def)

text \<open>
  The name a download offers carries no path and cannot break the header: it has no slash, backslash,
  carriage return, line feed or NUL; a plain ASCII name without these, other than a single dot, is kept as it is.
\<close>

lemma sanitize_filename:
  assumes "\<forall>c \<in> set name. (of_char c :: nat) \<le> 127 \<and> c \<notin> {CHR 0x0D, CHR 0x0A, CHR 0x00, CHR ''/'', CHR 0x5C}" and "name \<noteq> ''.''"
  shows "set (sanitizeFilename raw) \<inter> {CHR 0x0D, CHR 0x0A, CHR 0x00, CHR ''/'', CHR 0x5C} = {} \<and> sanitizeFilename name = name"
proof -
  let ?r1 = "map (\<lambda>c. if c = CHR 0x5C then CHR ''/'' else c) raw"
  have no_backslash: "CHR 0x5C \<notin> set (path_Base ?r1)" using path_Base_set [of ?r1] by (auto split: if_splits)
  have sub: "set (strip_controls (path_Base ?r1)) \<subseteq> (set (path_Base ?r1) - {CHR 0x0D, CHR 0x0A, CHR 0x00}) \<union> {CHR 0xEF, CHR 0xBF, CHR 0xBD}"
    by (rule strip_controls_set)
  have "set (sanitizeFilename raw) \<inter> {CHR 0x0D, CHR 0x0A, CHR 0x00, CHR ''/'', CHR 0x5C} = {}"
  proof (cases "path_Base ?r1 = ''/''")
    case True
    moreover have "strip_controls ''/'' = ''/''" by (rule strip_controls_ascii) simp
    ultimately show ?thesis by (simp add: sanitizeFilename_def)
  next
    case False
    then have "CHR ''/'' \<notin> set (path_Base ?r1)" using path_Base_no_slash by blast
    with no_backslash sub show ?thesis by (auto simp: sanitizeFilename_def Let_def)
  qed
  moreover have "sanitizeFilename name = name" using assms by (rule sanitize_plain)
  ultimately show ?thesis by blast
qed

theorem sanitize_filename_witness:
  "set (sanitizeFilename ''../../etc/passwd'') \<inter> {CHR 0x0D, CHR 0x0A, CHR 0x00, CHR ''/'', CHR 0x5C} = {} \<and>
   sanitizeFilename ''report.pdf'' = ''report.pdf''"
  by (rule sanitize_filename) simp_all

text \<open>A name that is two dots is kept.\<close>

lemma dot_dot_kept: "sanitizeFilename ''..'' = ''..''"
  by (rule sanitize_plain) simp_all

end
