(* ===== verification/Spreadsheet.thy ===== *)
theory Spreadsheet
  imports Prelude
begin

text \<open>
  Package \<^verbatim>\<open>spreadsheet\<close> (\<^verbatim>\<open>src/spreadsheet/excelize.go\<close>): options, validation, the CSV encoding with the standard library's
  writer, and the XLSX encoding as the calls made on an excelize file. The answers of excelize and of the
  context, the text of values and the names of cells are parameters.
\<close>

section \<open>Data\<close>

definition FormatXLSX :: string where "FormatXLSX = ''xlsx''"
definition FormatCSV :: string where "FormatCSV = ''csv''"

text \<open>\<open>'v\<close> is the type of cell values, \<open>'s\<close> the one of excelize styles.\<close>

record 'v sheet =
  sh_Name :: string
  sh_Headers :: "string list"
  sh_Rows :: "'v list list"

record 's sheet_options =
  op_DefaultSheetName :: string
  op_HeaderStyle :: "'s option"

definition applyDefaults :: "'s \<Rightarrow> 's sheet_options \<Rightarrow> 's sheet_options" where
  "applyDefaults yellow_bold o' =
     (let o1 = (if op_DefaultSheetName o' = [] then o'\<lparr>op_DefaultSheetName := ''Sheet1''\<rparr> else o')
      in if op_HeaderStyle o1 = None then o1\<lparr>op_HeaderStyle := Some yellow_bold\<rparr> else o1)"

definition writer_New :: "'s \<Rightarrow> 's sheet_options \<Rightarrow> 's sheet_options" where
  "writer_New yellow_bold opts = applyDefaults yellow_bold opts"

definition format_valid :: "string \<Rightarrow> bool" where
  "format_valid f \<longleftrightarrow> f = FormatXLSX \<or> f = FormatCSV"

definition resolveSheetName :: "string \<Rightarrow> string \<Rightarrow> string" where
  "resolveSheetName name fallback = (if trim_space name \<noteq> [] then trim_space name else fallback)"

section \<open>CSV\<close>

text \<open>\<^verbatim>\<open>encoding/csv\<close>: which fields are quoted, a quoted field, and a record with its line end.\<close>

definition starts_with_space :: "string \<Rightarrow> bool" where
  "starts_with_space s \<longleftrightarrow> space_len unicode_spaces s \<noteq> 0"

definition fieldNeedsQuotes :: "string \<Rightarrow> bool" where
  "fieldNeedsQuotes field \<longleftrightarrow> field \<noteq> [] \<and>
     (field = [CHR 0x5C, CHR ''.''] \<or>
      list_ex (\<lambda>c. c \<in> {CHR 0x0A, CHR 0x0D, CHR 0x22, CHR '',''}) field \<or> starts_with_space field)"

definition quoted_field :: "string \<Rightarrow> string" where
  "quoted_field field = [CHR 0x22] @ concat (map (\<lambda>c. if c = CHR 0x22 then [CHR 0x22, CHR 0x22] else [c]) field) @ [CHR 0x22]"

definition csv_field :: "string \<Rightarrow> string" where
  "csv_field field = (if fieldNeedsQuotes field then quoted_field field else field)"

definition csv_record :: "string list \<Rightarrow> string" where
  "csv_record record = join '','' (map csv_field record) @ [CHR 0x0A]"

text \<open>
  \<open>writeCSV\<close>: a buffer never fails, so that only the context stops the writer; \<open>ctx_err n\<close> is what the
  context answers before row \<open>n\<close>. \<open>sprint\<close> is \<^verbatim>\<open>fmt.Sprint\<close>.
\<close>

fun csv_rows :: "('v \<Rightarrow> string) \<Rightarrow> (nat \<Rightarrow> go_err option) \<Rightarrow> nat \<Rightarrow> 'v list list \<Rightarrow> string \<Rightarrow> go_err + string" where
  "csv_rows sprint ctx_err n [] buf = Inr buf"
| "csv_rows sprint ctx_err n (row # rows) buf =
     (case ctx_err n of
        Some e \<Rightarrow> Inl e
      | None \<Rightarrow> csv_rows sprint ctx_err (Suc n) rows (buf @ csv_record (map sprint row)))"

definition writeCSV :: "('v \<Rightarrow> string) \<Rightarrow> (nat \<Rightarrow> go_err option) \<Rightarrow> 'v sheet \<Rightarrow> go_err + string" where
  "writeCSV sprint ctx_err s = csv_rows sprint ctx_err 0 (sh_Rows s) (csv_record (sh_Headers s))"

section \<open>XLSX\<close>

text \<open>
  The calls on the file and the reads of the context, in the order they are made. \<open>xl_answer\<close> says with which error
  a call is answered, given the calls before it.
\<close>

datatype ('v, 's) xl_call =
    CtxErr
  | SetSheetName string string
  | NewSheet string
  | SetHeader string string string
  | SetCell string string 'v
  | NewStyle "'s option"
  | SetCellStyle string string string
  | WriteToBuffer

record ('v, 's) xl_env =
  xl_answer :: "('v, 's) xl_call list \<Rightarrow> ('v, 's) xl_call \<Rightarrow> go_err option"
  xl_defaultTab :: string
  xl_CoordinatesToCellName :: "nat \<Rightarrow> nat \<Rightarrow> go_err + string"
  xl_bytes :: "('v, 's) xl_call list \<Rightarrow> string"

type_synonym ('v, 's) trace = "('v, 's) xl_call list"

text \<open>A call is recorded; its error, wrapped, ends the writer.\<close>

definition xl_do :: "('v, 's) xl_env \<Rightarrow> (go_err \<Rightarrow> go_err) \<Rightarrow> ('v, 's) xl_call \<Rightarrow> ('v, 's) trace \<Rightarrow> go_err option \<times> ('v, 's) trace" where
  "xl_do env wrap call tr = (map_option wrap (xl_answer env tr call), tr @ [call])"

definition xl_bind :: "go_err option \<times> ('v, 's) trace \<Rightarrow> (('v, 's) trace \<Rightarrow> go_err option \<times> ('v, 's) trace) \<Rightarrow> go_err option \<times> ('v, 's) trace" where
  "xl_bind m f = (case m of (Some e, tr) \<Rightarrow> (Some e, tr) | (None, tr) \<Rightarrow> f tr)"

definition cell_name :: "('v, 's) xl_env \<Rightarrow> nat \<Rightarrow> nat \<Rightarrow> string" where
  "cell_name env col row = (case xl_CoordinatesToCellName env col row of Inr c \<Rightarrow> c | Inl _ \<Rightarrow> [])"

fun header_cells :: "('v, 's) xl_env \<Rightarrow> string \<Rightarrow> nat \<Rightarrow> string list \<Rightarrow> ('v, 's) trace \<Rightarrow> go_err option \<times> ('v, 's) trace" where
  "header_cells env sheet col [] tr = (None, tr)"
| "header_cells env sheet col (h # hs) tr =
     xl_bind (xl_do env id CtxErr tr) (\<lambda>tr1.
       case xl_CoordinatesToCellName env (col + 1) 1 of
         Inl e \<Rightarrow> (Some (Wrapped ''spreadsheet: header cell name: %w'' [e]), tr1)
       | Inr cell \<Rightarrow>
           xl_bind (xl_do env (\<lambda>e. Wrapped ''spreadsheet: set header value: %w'' [e]) (SetHeader sheet cell h) tr1)
             (header_cells env sheet (col + 1) hs))"

definition writeXLSXHeaders ::
  "('v, 's) xl_env \<Rightarrow> 's sheet_options \<Rightarrow> string \<Rightarrow> string list \<Rightarrow> ('v, 's) trace \<Rightarrow> go_err option \<times> ('v, 's) trace"
where
  "writeXLSXHeaders env opts sheet headers tr =
     xl_bind (header_cells env sheet 0 headers tr) (\<lambda>tr1.
       xl_bind (xl_do env (\<lambda>e. Wrapped ''spreadsheet: create header style: %w'' [e]) (NewStyle (op_HeaderStyle opts)) tr1) (\<lambda>tr2.
         xl_do env (\<lambda>e. Wrapped ''spreadsheet: apply header style: %w'' [e])
           (SetCellStyle sheet (cell_name env 1 1) (cell_name env (length headers) 1)) tr2))"

fun row_cells :: "('v, 's) xl_env \<Rightarrow> string \<Rightarrow> nat \<Rightarrow> nat \<Rightarrow> 'v list \<Rightarrow> ('v, 's) trace \<Rightarrow> go_err option \<times> ('v, 's) trace" where
  "row_cells env sheet ri ci [] tr = (None, tr)"
| "row_cells env sheet ri ci (val # vals) tr =
     xl_bind (xl_do env id CtxErr tr) (\<lambda>tr1.
       case xl_CoordinatesToCellName env (ci + 1) (ri + 2) of
         Inl e \<Rightarrow> (Some (Wrapped ''spreadsheet: row cell name: %w'' [e]), tr1)
       | Inr cell \<Rightarrow>
           xl_bind (xl_do env (\<lambda>e. Wrapped ''spreadsheet: set row value: %w'' [e]) (SetCell sheet cell val) tr1)
             (row_cells env sheet ri (ci + 1) vals))"

fun writeXLSXRows :: "('v, 's) xl_env \<Rightarrow> string \<Rightarrow> nat \<Rightarrow> 'v list list \<Rightarrow> ('v, 's) trace \<Rightarrow> go_err option \<times> ('v, 's) trace" where
  "writeXLSXRows env sheet ri [] tr = (None, tr)"
| "writeXLSXRows env sheet ri (row # rows) tr =
     xl_bind (row_cells env sheet ri 0 row tr) (writeXLSXRows env sheet (ri + 1) rows)"

text \<open>The tab of a sheet: the default tab is renamed for the first one, whatever the answer; another one is created.\<close>

definition open_tab :: "('v, 's) xl_env \<Rightarrow> bool \<Rightarrow> string \<Rightarrow> ('v, 's) trace \<Rightarrow> go_err option \<times> ('v, 's) trace" where
  "open_tab env firstSheet name tr =
     (if firstSheet
      then (if xl_defaultTab env \<noteq> name then (None, snd (xl_do env id (SetSheetName (xl_defaultTab env) name) tr)) else (None, tr))
      else xl_do env (\<lambda>e. Wrapped ''spreadsheet: create sheet %q: %w'' [e]) (NewSheet name) tr)"

fun xlsx_sheets ::
  "('v, 's) xl_env \<Rightarrow> 's sheet_options \<Rightarrow> bool \<Rightarrow> 'v sheet list \<Rightarrow> ('v, 's) trace \<Rightarrow> go_err option \<times> ('v, 's) trace"
where
  "xlsx_sheets env opts firstSheet [] tr = (None, tr)"
| "xlsx_sheets env opts firstSheet (s # ss) tr =
     (let name = resolveSheetName (sh_Name s) (op_DefaultSheetName opts) in
      xl_bind (xl_do env id CtxErr tr) (\<lambda>tr1.
        xl_bind (open_tab env firstSheet name tr1) (\<lambda>tr2.
          xl_bind (writeXLSXHeaders env opts name (sh_Headers s) tr2) (\<lambda>tr3.
            xl_bind (writeXLSXRows env name 0 (sh_Rows s) tr3) (xlsx_sheets env opts False ss)))))"

definition writeXLSX :: "('v, 's) xl_env \<Rightarrow> 's sheet_options \<Rightarrow> 'v sheet list \<Rightarrow> (go_err + string) \<times> ('v, 's) trace" where
  "writeXLSX env opts sheets =
     (case xl_bind (xlsx_sheets env opts True sheets [])
             (xl_do env (\<lambda>e. Wrapped ''spreadsheet: encode xlsx: %w'' [e]) WriteToBuffer) of
        (Some e, tr) \<Rightarrow> (Inl e, tr)
      | (None, tr) \<Rightarrow> (Inr (xl_bytes env tr), tr))"

section \<open>Writing\<close>

fun check_headers :: "nat \<Rightarrow> 'v sheet list \<Rightarrow> go_err option" where
  "check_headers i [] = None"
| "check_headers i (s # ss) =
     (if length (sh_Headers s) = 0 then Some (Wrapped ''spreadsheet: sheet[%d] has no headers'' [])
      else check_headers (Suc i) ss)"

text \<open>
  \<open>Write\<close>. \<open>done\<close> is the error of the context when the \<open>select\<close> takes that branch.
\<close>

definition sheet_Write ::
  "('v \<Rightarrow> string) \<Rightarrow> (nat \<Rightarrow> go_err option) \<Rightarrow> ('v, 's) xl_env \<Rightarrow> 's sheet_options \<Rightarrow> go_err option \<Rightarrow> string \<Rightarrow> 'v sheet list \<Rightarrow> go_err + string"
where
  "sheet_Write sprint ctx_err env opts done_err format sheets =
     (case sheets of
        [] \<Rightarrow> Inl (Wrapped ''spreadsheet: at least one sheet is required'' [])
      | first # _ \<Rightarrow>
          if \<not> format_valid format then Inl (Wrapped ''spreadsheet: unsupported format %q'' [])
          else
            (case check_headers 0 sheets of
               Some e \<Rightarrow> Inl e
             | None \<Rightarrow>
                 (case done_err of
                    Some e \<Rightarrow> Inl e
                  | None \<Rightarrow>
                      if format = FormatXLSX then fst (writeXLSX env opts sheets) else writeCSV sprint ctx_err first)))"

section \<open>A reader for CSV\<close>

text \<open>
  The format as RFC 4180 describes it, with a line feed as the line end: fields separated by commas; a field
  that starts with a quote ends with a quote that is not doubled.
\<close>

fun read_quoted :: "string \<Rightarrow> (string \<times> string) option" where
  "read_quoted [] = None"
| "read_quoted [c] = (if c = CHR 0x22 then Some ([], []) else None)"
| "read_quoted (c # d # s) =
     (if c = CHR 0x22
      then (if d = CHR 0x22 then map_option (\<lambda>(f, r). (c # f, r)) (read_quoted s) else Some ([], d # s))
      else map_option (\<lambda>(f, r). (c # f, r)) (read_quoted (d # s)))"

definition read_field :: "string \<Rightarrow> (string \<times> string) option" where
  "read_field s =
     (if s \<noteq> [] \<and> hd s = CHR 0x22 then read_quoted (tl s)
      else (let plain = (\<lambda>c. c \<noteq> CHR '','' \<and> c \<noteq> CHR 0x0A) in Some (takeWhile plain s, dropWhile plain s)))"

lemma read_quoted_length: "read_quoted s = Some (f, r) \<Longrightarrow> length r < length s"
  by (induction s arbitrary: f r rule: read_quoted.induct) (auto split: if_splits intro: less_SucI less_trans [OF _ lessI])

lemma read_field_length: "read_field s = Some (f, r) \<Longrightarrow> length r \<le> length s"
  using read_quoted_length [of "tl s" f r]
  by (auto simp: read_field_def Let_def length_dropWhile_le split: if_splits)

function read_record :: "string \<Rightarrow> (string list \<times> string) option" where
  "read_record s =
     (case read_field s of
        None \<Rightarrow> None
      | Some (f, []) \<Rightarrow> None
      | Some (f, c # r) \<Rightarrow>
          if c = CHR '','' then map_option (\<lambda>(fs, r'). (f # fs, r')) (read_record r)
          else if c = CHR 0x0A then Some ([f], r) else None)"
  by pat_completeness auto
termination
proof (relation "measure length")
  fix s p f xs c r
  assume "read_field s = Some p" and "(f, xs) = p" and "xs = c # r"
  then show "(r, s) \<in> measure length" using read_field_length [of s f xs] by auto
qed simp

declare read_record.simps [simp del]

lemma read_record_length: "read_record s = Some (fs, r) \<Longrightarrow> length r < length s"
proof (induction s arbitrary: fs r rule: read_record.induct)
  case (1 s)
  from 1(2) obtain f c r1 where f: "read_field s = Some (f, c # r1)"
    by (subst (asm) read_record.simps) (auto split: option.splits list.splits)
  then have "length r1 < length s" using read_field_length by fastforce
  moreover have "read_record s = (if c = CHR '','' then map_option (\<lambda>(fs, r'). (f # fs, r')) (read_record r1)
      else if c = CHR 0x0A then Some ([f], r1) else None)"
    using f by (simp add: read_record.simps [of s])
  moreover have "length r' < length r1" if "c = CHR '',''" and "read_record r1 = Some (fs', r')" for fs' r'
    using 1(1) [OF f refl refl that(1) that(2)] .
  ultimately show ?case using 1(2) by (cases "read_record r1") (auto split: if_splits dest: less_trans)
qed

function read_csv :: "string \<Rightarrow> string list list option" where
  "read_csv s =
     (if s = [] then Some []
      else case read_record s of
          None \<Rightarrow> None
        | Some (fs, r) \<Rightarrow> map_option ((#) fs) (read_csv r))"
  by pat_completeness auto
termination by (relation "measure length") (auto dest: read_record_length)

declare read_csv.simps [simp del]

section \<open>Lemmas\<close>

lemma read_quoted_escaped:
  "r = [] \<or> hd r \<noteq> CHR 0x22 \<Longrightarrow>
   read_quoted (concat (map (\<lambda>c. if c = CHR 0x22 then [CHR 0x22, CHR 0x22] else [c]) f) @ CHR 0x22 # r) = Some (f, r)"
proof (induction f)
  case Nil
  then show ?case by (cases r) auto
next
  case (Cons c f)
  let ?t = "concat (map (\<lambda>c. if c = CHR 0x22 then [CHR 0x22, CHR 0x22] else [c]) f) @ CHR 0x22 # r"
  obtain d t where "?t = d # t" by (cases ?t) auto
  with Cons show ?case by (cases "c = CHR 0x22") simp_all
qed

definition ends_field :: "string \<Rightarrow> bool" where
  "ends_field r \<longleftrightarrow> r \<noteq> [] \<and> hd r \<in> {CHR '','', CHR 0x0A}"

lemma read_csv_field:
  assumes "ends_field r"
  shows "read_field (csv_field f @ r) = Some (f, r)"
proof (cases "fieldNeedsQuotes f")
  case True
  have "r = [] \<or> hd r \<noteq> CHR 0x22" using assms by (auto simp: ends_field_def)
  from read_quoted_escaped [OF this] True show ?thesis by (simp add: csv_field_def quoted_field_def read_field_def)
next
  case False
  let ?plain = "\<lambda>c. c \<noteq> CHR '','' \<and> c \<noteq> CHR 0x0A"
  have f: "\<forall>c \<in> set f. c \<notin> {CHR 0x0A, CHR 0x0D, CHR 0x22, CHR '',''}"
    using False by (auto simp: fieldNeedsQuotes_def list_ex_iff)
  then have plain: "\<forall>c \<in> set f. ?plain c" by simp
  obtain c t where r: "r = c # t" "\<not> ?plain c" using assms by (cases r) (auto simp: ends_field_def)
  have "takeWhile ?plain (f @ r) = f" "dropWhile ?plain (f @ r) = r"
    using plain r by (auto simp: takeWhile_append dropWhile_append)
  moreover have "hd (f @ r) \<noteq> CHR 0x22" using f r by (cases f) auto
  ultimately show ?thesis using False by (simp add: csv_field_def read_field_def Let_def)
qed

lemma read_csv_record:
  assumes "fs \<noteq> []"
  shows "read_record (csv_record fs @ r) = Some (fs, r)"
  using assms
proof (induction fs)
  case (Cons f fs)
  show ?case
  proof (cases fs)
    case Nil
    then show ?thesis using read_csv_field [of "CHR 0x0A # r" f]
      by (simp add: csv_record_def read_record.simps [of "csv_field f @ CHR 0x0A # r"] ends_field_def)
  next
    case (Cons g gs)
    have "csv_record (f # fs) @ r = csv_field f @ CHR '','' # (csv_record fs @ r)" by (simp add: csv_record_def Cons)
    moreover have "read_field (csv_field f @ CHR '','' # (csv_record fs @ r)) = Some (f, CHR '','' # (csv_record fs @ r))"
      by (rule read_csv_field) (simp add: ends_field_def)
    moreover have "read_record (csv_record fs @ r) = Some (fs, r)" using Cons by (intro Cons.IH) simp
    ultimately show ?thesis by (simp add: read_record.simps [of "csv_field f @ CHR '','' # (csv_record fs @ r)"])
  qed
qed simp

lemma read_csv_records: "\<forall>fs \<in> set recs. fs \<noteq> [] \<Longrightarrow> read_csv (concat (map csv_record recs)) = Some recs"
proof (induction recs)
  case Nil
  then show ?case by (simp add: read_csv.simps)
next
  case (Cons fs recs)
  then have "read_record (csv_record fs @ concat (map csv_record recs)) = Some (fs, concat (map csv_record recs))"
    by (intro read_csv_record) simp
  moreover have "csv_record fs \<noteq> []" by (simp add: csv_record_def)
  ultimately show ?case using Cons by (subst read_csv.simps) simp
qed

lemma csv_rows_result:
  "csv_rows sprint ctx_err n rows buf = Inr out \<Longrightarrow> out = buf @ concat (map csv_record (map (map sprint) rows))"
  by (induction sprint ctx_err n rows buf rule: csv_rows.induct) (auto split: option.splits)

lemma csv_rows_total: "\<forall>k. ctx_err k = None \<Longrightarrow> \<exists>out. csv_rows sprint ctx_err n rows buf = Inr out"
  by (induction sprint ctx_err n rows buf rule: csv_rows.induct) auto

subsection \<open>The calls of the XLSX writer\<close>

text \<open>The cells a sheet is to have, in the order they are written: the headers in row 1, row \<open>i\<close> of the data in row \<open>i + 2\<close>.\<close>

definition is_write :: "('v, 's) xl_call \<Rightarrow> bool" where
  "is_write call = (case call of SetHeader _ _ _ \<Rightarrow> True | SetCell _ _ _ \<Rightarrow> True | _ \<Rightarrow> False)"

definition header_writes :: "('v, 's) xl_env \<Rightarrow> string \<Rightarrow> nat \<Rightarrow> string list \<Rightarrow> ('v, 's) trace" where
  "header_writes env sheet col hs = map (\<lambda>(i, h). SetHeader sheet (cell_name env (col + i + 1) 1) h) (enumerate 0 hs)"

definition row_writes :: "('v, 's) xl_env \<Rightarrow> string \<Rightarrow> nat \<Rightarrow> nat \<Rightarrow> 'v list \<Rightarrow> ('v, 's) trace" where
  "row_writes env sheet ri ci vals = map (\<lambda>(i, v). SetCell sheet (cell_name env (ci + i + 1) (ri + 2)) v) (enumerate 0 vals)"

definition rows_writes :: "('v, 's) xl_env \<Rightarrow> string \<Rightarrow> nat \<Rightarrow> 'v list list \<Rightarrow> ('v, 's) trace" where
  "rows_writes env sheet ri rows = concat (map (\<lambda>(i, row). row_writes env sheet (ri + i) 0 row) (enumerate 0 rows))"

definition sheet_writes :: "('v, 's) xl_env \<Rightarrow> 's sheet_options \<Rightarrow> 'v sheet \<Rightarrow> ('v, 's) trace" where
  "sheet_writes env opts s =
     (let name = resolveSheetName (sh_Name s) (op_DefaultSheetName opts)
      in header_writes env name 0 (sh_Headers s) @ rows_writes env name 0 (sh_Rows s))"

text \<open>
  \<open>runs env f writes\<close>: a part of the writer only adds calls, none after an answer with an error that counts, and
  when it succeeds its writes are the given ones.
\<close>

definition runs :: "(('v, 's) trace \<Rightarrow> go_err option \<times> ('v, 's) trace) \<Rightarrow> ('v, 's) trace \<Rightarrow> bool" where
  "runs f writes \<longleftrightarrow> (\<forall>tr tr'. f tr = (None, tr') \<longrightarrow> (\<exists>tl. tr' = tr @ tl \<and> filter is_write tl = writes))"

lemma runs_do: "runs (xl_do env wrap call) (if is_write call then [call] else [])"
  by (auto simp: runs_def xl_do_def)

lemma runs_skip: "runs (\<lambda>tr. (None, tr)) []"
  by (auto simp: runs_def)

lemma runs_fail: "runs (\<lambda>tr. (Some e, tr)) writes"
  by (auto simp: runs_def)

lemma runs_bind: "runs f a \<Longrightarrow> runs g b \<Longrightarrow> runs (\<lambda>tr. xl_bind (f tr) g) (a @ b)"
  unfolding runs_def xl_bind_def by (auto split: prod.splits option.splits) (metis append_assoc filter_append)

lemma enumerate_shift: "enumerate (Suc n) xs = map (\<lambda>(i, x). (Suc i, x)) (enumerate n xs)"
  by (induction xs arbitrary: n) simp_all

lemma header_writes_Cons:
  "header_writes env sheet col (h # hs) = SetHeader sheet (cell_name env (col + 1) 1) h # header_writes env sheet (col + 1) hs"
  by (simp add: header_writes_def enumerate_shift case_prod_beta' comp_def)

lemma row_writes_Cons:
  "row_writes env sheet ri ci (v # vs) = SetCell sheet (cell_name env (ci + 1) (ri + 2)) v # row_writes env sheet ri (ci + 1) vs"
  by (simp add: row_writes_def enumerate_shift case_prod_beta' comp_def)

lemma rows_writes_Cons:
  "rows_writes env sheet ri (row # rows) = row_writes env sheet ri 0 row @ rows_writes env sheet (ri + 1) rows"
  by (simp add: rows_writes_def enumerate_shift case_prod_beta' comp_def)

text \<open>One cell: the context is read, the cell is named, the value is set.\<close>

lemma runs_cell:
  assumes "runs g b" and "\<And>cell. is_write (mk cell)"
  shows "runs (\<lambda>tr. xl_bind (xl_do env id CtxErr tr) (\<lambda>tr1.
      case xl_CoordinatesToCellName env col row of
        Inl e \<Rightarrow> (Some (w1 e), tr1)
      | Inr cell \<Rightarrow> xl_bind (xl_do env w2 (mk cell) tr1) g)) (mk (cell_name env col row) # b)"
proof (cases "xl_CoordinatesToCellName env col row")
  case (Inl e)
  then show ?thesis by (auto simp: runs_def xl_bind_def xl_do_def split: option.splits)
next
  case (Inr cell)
  have "runs (\<lambda>tr. xl_bind (xl_do env id CtxErr tr) (\<lambda>tr1. xl_bind (xl_do env w2 (mk cell) tr1) g)) ([] @ ([mk cell] @ b))"
    using runs_do [of env id CtxErr] runs_do [of env w2 "mk cell"] assms by (intro runs_bind) (simp_all add: is_write_def)
  then show ?thesis using Inr by (simp add: cell_name_def)
qed

lemma runs_headers: "runs (header_cells env sheet col hs) (header_writes env sheet col hs)"
proof (induction hs arbitrary: col)
  case Nil
  have "header_cells env sheet col [] = (\<lambda>tr. (None, tr))" by (simp add: fun_eq_iff)
  then show ?case using runs_skip by (simp add: header_writes_def)
next
  case (Cons h hs)
  have "header_cells env sheet col (h # hs) = (\<lambda>tr. xl_bind (xl_do env id CtxErr tr) (\<lambda>tr1.
      case xl_CoordinatesToCellName env (col + 1) 1 of
        Inl e \<Rightarrow> (Some (Wrapped ''spreadsheet: header cell name: %w'' [e]), tr1)
      | Inr cell \<Rightarrow> xl_bind (xl_do env (\<lambda>e. Wrapped ''spreadsheet: set header value: %w'' [e]) (SetHeader sheet cell h) tr1)
          (header_cells env sheet (col + 1) hs)))"
    by (simp add: fun_eq_iff)
  then show ?case unfolding header_writes_Cons by (simp only:) (rule runs_cell [OF Cons.IH], simp add: is_write_def)
qed

lemma runs_row: "runs (row_cells env sheet ri ci vs) (row_writes env sheet ri ci vs)"
proof (induction vs arbitrary: ci)
  case Nil
  have "row_cells env sheet ri ci [] = (\<lambda>tr. (None, tr))" by (simp add: fun_eq_iff)
  then show ?case using runs_skip by (simp add: row_writes_def)
next
  case (Cons v vs)
  have "row_cells env sheet ri ci (v # vs) = (\<lambda>tr. xl_bind (xl_do env id CtxErr tr) (\<lambda>tr1.
      case xl_CoordinatesToCellName env (ci + 1) (ri + 2) of
        Inl e \<Rightarrow> (Some (Wrapped ''spreadsheet: row cell name: %w'' [e]), tr1)
      | Inr cell \<Rightarrow> xl_bind (xl_do env (\<lambda>e. Wrapped ''spreadsheet: set row value: %w'' [e]) (SetCell sheet cell v) tr1)
          (row_cells env sheet ri (ci + 1) vs)))"
    by (simp add: fun_eq_iff)
  then show ?case unfolding row_writes_Cons by (simp only:) (rule runs_cell [OF Cons.IH], simp add: is_write_def)
qed

lemma runs_rows: "runs (writeXLSXRows env sheet ri rows) (rows_writes env sheet ri rows)"
proof (induction rows arbitrary: ri)
  case Nil
  have "writeXLSXRows env sheet ri [] = (\<lambda>tr. (None, tr))" by (simp add: fun_eq_iff)
  then show ?case using runs_skip by (simp add: rows_writes_def)
next
  case (Cons row rows)
  have "writeXLSXRows env sheet ri (row # rows) = (\<lambda>tr. xl_bind (row_cells env sheet ri 0 row tr) (writeXLSXRows env sheet (ri + 1) rows))"
    by (simp add: fun_eq_iff)
  then show ?case unfolding rows_writes_Cons by (simp only:) (rule runs_bind [OF runs_row Cons.IH])
qed

lemma runs_writeHeaders: "runs (writeXLSXHeaders env opts sheet hs) (header_writes env sheet 0 hs)"
proof -
  have "runs (\<lambda>tr. xl_bind (header_cells env sheet 0 hs tr) (\<lambda>tr1.
       xl_bind (xl_do env (\<lambda>e. Wrapped ''spreadsheet: create header style: %w'' [e]) (NewStyle (op_HeaderStyle opts)) tr1)
         (xl_do env (\<lambda>e. Wrapped ''spreadsheet: apply header style: %w'' [e])
           (SetCellStyle sheet (cell_name env 1 1) (cell_name env (length hs) 1))))) (header_writes env sheet 0 hs @ ([] @ []))"
    using runs_do [of env _ "NewStyle (op_HeaderStyle opts)"]
      runs_do [of env _ "SetCellStyle sheet (cell_name env 1 1) (cell_name env (length hs) 1)"]
    by (intro runs_bind runs_headers) (simp_all add: is_write_def)
  moreover have "writeXLSXHeaders env opts sheet hs = (\<lambda>tr. xl_bind (header_cells env sheet 0 hs tr) (\<lambda>tr1.
       xl_bind (xl_do env (\<lambda>e. Wrapped ''spreadsheet: create header style: %w'' [e]) (NewStyle (op_HeaderStyle opts)) tr1)
         (xl_do env (\<lambda>e. Wrapped ''spreadsheet: apply header style: %w'' [e])
           (SetCellStyle sheet (cell_name env 1 1) (cell_name env (length hs) 1)))))"
    by (simp add: fun_eq_iff writeXLSXHeaders_def)
  ultimately show ?thesis by simp
qed

lemma runs_open_tab: "runs (open_tab env first name) []"
  by (auto simp: runs_def open_tab_def xl_do_def is_write_def)

lemma runs_sheets: "runs (xlsx_sheets env opts first ss) (concat (map (sheet_writes env opts) ss))"
proof (induction ss arbitrary: first)
  case Nil
  have "xlsx_sheets env opts first [] = (\<lambda>tr. (None, tr))" by (simp add: fun_eq_iff)
  then show ?case using runs_skip by simp
next
  case (Cons s ss)
  let ?name = "resolveSheetName (sh_Name s) (op_DefaultSheetName opts)"
  have "xlsx_sheets env opts first (s # ss) = (\<lambda>tr. xl_bind (xl_do env id CtxErr tr) (\<lambda>tr1.
        xl_bind (open_tab env first ?name tr1) (\<lambda>tr2.
          xl_bind (writeXLSXHeaders env opts ?name (sh_Headers s) tr2) (\<lambda>tr3.
            xl_bind (writeXLSXRows env ?name 0 (sh_Rows s) tr3) (xlsx_sheets env opts False ss)))))"
    by (simp add: fun_eq_iff Let_def)
  moreover have "runs (\<lambda>tr. xl_bind (xl_do env id CtxErr tr) (\<lambda>tr1.
        xl_bind (open_tab env first ?name tr1) (\<lambda>tr2.
          xl_bind (writeXLSXHeaders env opts ?name (sh_Headers s) tr2) (\<lambda>tr3.
            xl_bind (writeXLSXRows env ?name 0 (sh_Rows s) tr3) (xlsx_sheets env opts False ss)))))
      ([] @ ([] @ (header_writes env ?name 0 (sh_Headers s) @ (rows_writes env ?name 0 (sh_Rows s) @ concat (map (sheet_writes env opts) ss)))))"
    using runs_do [of env id CtxErr]
    by (intro runs_bind runs_open_tab runs_writeHeaders runs_rows Cons.IH) (simp add: is_write_def)
  moreover have "concat (map (sheet_writes env opts) (s # ss)) =
      [] @ ([] @ (header_writes env ?name 0 (sh_Headers s) @ (rows_writes env ?name 0 (sh_Rows s) @ concat (map (sheet_writes env opts) ss))))"
    by (simp add: sheet_writes_def [of env opts s] Let_def)
  ultimately show ?case by (simp only:)
qed

section \<open>Properties\<close>

text \<open>
  C36: what a CSV file holds can be read back: reading what Write produced gives the headers and then one record per
  row with the text of its values, whatever commas, quotes, line breaks and leading spaces they contain. Rows are
  taken to have at least one value; the file is produced whenever the context is not cancelled.
\<close>

theorem csv_round_trip:
  assumes "sh_Headers s \<noteq> []" and "\<forall>row \<in> set (sh_Rows s). row \<noteq> []" and "\<forall>n. ctx_err n = None"
    and "check_headers 0 (s # ss) = None"
  shows "\<exists>data. sheet_Write sprint ctx_err env opts None ''csv'' (s # ss) = Inr data \<and>
    read_csv data = Some (sh_Headers s # map (map sprint) (sh_Rows s))"
proof -
  obtain data where data: "csv_rows sprint ctx_err 0 (sh_Rows s) (csv_record (sh_Headers s)) = Inr data"
    using csv_rows_total [OF assms(3)] by blast
  have "data = concat (map csv_record (sh_Headers s # map (map sprint) (sh_Rows s)))"
    using csv_rows_result [OF data] by simp
  moreover have "\<forall>fs \<in> set (sh_Headers s # map (map sprint) (sh_Rows s)). fs \<noteq> []" using assms(1,2) by auto
  ultimately have "read_csv data = Some (sh_Headers s # map (map sprint) (sh_Rows s))" using read_csv_records by blast
  then show ?thesis using data assms(4)
    by (auto simp: sheet_Write_def writeCSV_def format_valid_def FormatCSV_def FormatXLSX_def)
qed

definition demo_xl :: "(string, unit) xl_env" where
  "demo_xl = \<lparr>xl_answer = (\<lambda>_ _. None), xl_defaultTab = ''Sheet1'',
     xl_CoordinatesToCellName = (\<lambda>c r. Inr (format_nat c @ '':'' @ format_nat r)), xl_bytes = (\<lambda>_. ''PK'')\<rparr>"

definition demo_sheet :: "string sheet" where
  "demo_sheet = \<lparr>sh_Name = [], sh_Headers = [''a'', ''b''], sh_Rows = [[''x,y'', [CHR 0x22]], [''z'', []]]\<rparr>"

definition demo_options :: "unit sheet_options" where
  "demo_options = writer_New () \<lparr>op_DefaultSheetName = [], op_HeaderStyle = None\<rparr>"

theorem csv_round_trip_witness:
  "\<exists>data. sheet_Write id (\<lambda>_. None) demo_xl demo_options None ''csv'' [demo_sheet] = Inr data \<and>
     read_csv data = Some [[''a'', ''b''], [''x,y'', [CHR 0x22]], [''z'', []]]"
  using csv_round_trip [of demo_sheet "\<lambda>_. None" "[]" id demo_xl demo_options] by (simp add: demo_sheet_def)

text \<open>
  When the XLSX writer succeeds, the cells it has set are exactly those of the sheets, each once and in order:
  for every sheet, on the tab of its trimmed name or the default name, the headers in row 1 and the values of
  data row i in row i + 2, from the first column on; and the file was encoded after all of them.
\<close>

lemma xlsx_cells:
  assumes "writeXLSX env opts sheets = (Inr data, tr)"
  shows "filter is_write tr = concat (map (sheet_writes env opts) sheets) \<and> last tr = WriteToBuffer \<and> data = xl_bytes env tr"
proof -
  obtain tr1 where s: "xlsx_sheets env opts True sheets [] = (None, tr1)" and tr: "tr = tr1 @ [WriteToBuffer]" and d: "data = xl_bytes env tr"
    using assms by (auto simp: writeXLSX_def xl_bind_def xl_do_def split: prod.splits option.splits)
  have "filter is_write tr1 = concat (map (sheet_writes env opts) sheets)"
    using runs_sheets [of env opts True sheets, unfolded runs_def, rule_format, OF s] by auto
  then show ?thesis using d by (simp add: tr is_write_def)
qed

lemma demo_xlsx: "writeXLSX demo_xl demo_options [demo_sheet] = (Inr ''PK'', snd (writeXLSX demo_xl demo_options [demo_sheet]))"
  by (simp add: writeXLSX_def xl_bind_def xl_do_def demo_xl_def demo_sheet_def demo_options_def writer_New_def applyDefaults_def
      open_tab_def writeXLSXHeaders_def Let_def)

theorem xlsx_cells_witness:
  "\<exists>tr. writeXLSX demo_xl demo_options [demo_sheet] = (Inr ''PK'', tr) \<and>
     filter is_write tr = sheet_writes demo_xl demo_options demo_sheet \<and> length (filter is_write tr) = 6"
  using xlsx_cells [OF demo_xlsx] demo_xlsx
  by (intro exI [of _ "snd (writeXLSX demo_xl demo_options [demo_sheet])"])
    (simp add: sheet_writes_def header_writes_def rows_writes_def row_writes_def demo_sheet_def Let_def)

end
