(* ===== verification/Database.thy ===== *)
theory Database
  imports Prelude
begin

text \<open>
  The database packages: connections over gorm with retries and pool settings (\<^verbatim>\<open>src/database/gorm/gorm.go\<close>), the generic query
  source (\<^verbatim>\<open>src/database/sql/sql.go\<close>) and schema migrations with seed data (\<^verbatim>\<open>src/database/migrate/migrator.go\<close>). The
  drivers, gorm, golang-migrate and the file system are parameters.
\<close>

section \<open>gorm\<close>

definition ErrInvalidDatabaseConfig :: go_err where "ErrInvalidDatabaseConfig = Sentinel ''invalid database configuration''"
definition ErrDatabaseDSNRequired :: go_err where "ErrDatabaseDSNRequired = Sentinel ''database dsn is required''"
definition ErrDatabaseDialectorRequired :: go_err where "ErrDatabaseDialectorRequired = Sentinel ''database dialector is required''"
definition ErrUnsupportedDialector :: go_err where "ErrUnsupportedDialector = Sentinel ''unsupported database dialector''"
definition gorm_ErrDatabaseConnectionFailed :: go_err where
  "gorm_ErrDatabaseConnectionFailed = Sentinel ''failed to open database connection''"
definition ErrDatabasePoolAccessFailed :: go_err where
  "ErrDatabasePoolAccessFailed = Sentinel ''failed to access database connection pool''"

datatype gorm_dialect = Postgres | MySQL | SQLite | SQLServer
datatype gorm_log_level = LogSilent | LogError | LogWarn | LogInfo

record gorm_lib_config =
  gl_SlowThreshold :: duration
  gl_LogLevel :: gorm_log_level
  gl_SkipDefaultTransaction :: bool
  gl_PrepareStmt :: bool
  gl_DryRun :: bool
  gl_CreateBatchSize :: int

record gorm_config =
  go_DSN :: string
  go_Dialector :: string
  go_LogLevel :: string
  go_MaxOpenConns :: int
  go_MaxIdleConns :: int
  go_SkipDefaultTx :: bool
  go_PrepareStmt :: bool
  go_DryRun :: bool
  go_ConnMaxLifetime :: duration
  go_ConnMaxIdleTime :: duration
  go_SlowThreshold :: duration
  go_RetryAttempts :: int
  go_RetryDelay :: duration
  go_GormConfig :: "gorm_lib_config option"

definition DefaultGormConfig :: gorm_config where
  "DefaultGormConfig = \<lparr>go_DSN = [], go_Dialector = [], go_LogLevel = ''info'', go_MaxOpenConns = 50, go_MaxIdleConns = 50,
     go_SkipDefaultTx = True, go_PrepareStmt = True, go_DryRun = False, go_ConnMaxLifetime = Hour,
     go_ConnMaxIdleTime = 30 * Minute, go_SlowThreshold = 200 * Millisecond, go_RetryAttempts = 3, go_RetryDelay = Second,
     go_GormConfig = None\<rparr>"

definition getDriverDialectorFunc :: "string \<Rightarrow> go_err + gorm_dialect" where
  "getDriverDialectorFunc dialector =
     (if dialector = ''postgres'' then Inr Postgres
      else if dialector = ''mysql'' \<or> dialector = ''mariadb'' then Inr MySQL
      else if dialector = ''sqlite'' then Inr SQLite
      else if dialector = ''sqlserver'' \<or> dialector = ''mssql'' then Inr SQLServer
      else Inl (errors_Join [ErrUnsupportedDialector, Wrapped ''dialector %q'' []]))"

definition validateGormConfig :: "gorm_config \<Rightarrow> go_err option" where
  "validateGormConfig cfg =
     (if go_DSN cfg = [] then Some ErrDatabaseDSNRequired
      else if go_Dialector cfg = [] then Some ErrDatabaseDialectorRequired
      else (case getDriverDialectorFunc (go_Dialector cfg) of Inl e \<Rightarrow> Some e | Inr _ \<Rightarrow> None))"

definition ParseLoggerLevel :: "string \<Rightarrow> gorm_log_level" where
  "ParseLoggerLevel levelStr =
     (case map_of [(''silent'', LogSilent), (''info'', LogInfo), (''error'', LogError), (''err'', LogError),
                   (''warning'', LogWarn), (''warn'', LogWarn)] levelStr of
        Some l \<Rightarrow> l | None \<Rightarrow> LogInfo)"

definition buildGormConfig :: "gorm_config \<Rightarrow> gorm_lib_config" where
  "buildGormConfig cfg =
     \<lparr>gl_SlowThreshold = go_SlowThreshold cfg, gl_LogLevel = ParseLoggerLevel (go_LogLevel cfg),
      gl_SkipDefaultTransaction = go_SkipDefaultTx cfg, gl_PrepareStmt = go_PrepareStmt cfg, gl_DryRun = go_DryRun cfg,
      gl_CreateBatchSize = 1000\<rparr>"

text \<open>The settings of a \<^verbatim>\<open>sql.DB\<close> that the package changes.\<close>

record sql_pool =
  po_MaxOpenConns :: int
  po_MaxIdleConns :: int
  po_ConnMaxLifetime :: duration
  po_ConnMaxIdleTime :: duration

definition configureConnectionPool :: "gorm_config \<Rightarrow> sql_pool \<Rightarrow> sql_pool" where
  "configureConnectionPool cfg db =
     (let d1 = (if 0 < go_MaxOpenConns cfg then db\<lparr>po_MaxOpenConns := go_MaxOpenConns cfg\<rparr> else db);
          d2 = (if 0 < go_MaxIdleConns cfg then d1\<lparr>po_MaxIdleConns := go_MaxIdleConns cfg\<rparr> else d1);
          d3 = (if 0 < go_ConnMaxLifetime cfg then d2\<lparr>po_ConnMaxLifetime := go_ConnMaxLifetime cfg\<rparr> else d2)
      in if 0 < go_ConnMaxIdleTime cfg then d3\<lparr>po_ConnMaxIdleTime := go_ConnMaxIdleTime cfg\<rparr> else d3)"

text \<open>
  \<open>gm_Open\<close> is \<^verbatim>\<open>gorm.Open\<close>, \<open>gm_DB\<close> the access to the pool of a connection, \<open>gm_SetPool\<close> the change of its settings,
  \<open>gm_Sleep\<close> the wait.
\<close>

record ('h, 'w) gorm_env =
  gm_Open :: "gorm_dialect \<Rightarrow> string \<Rightarrow> gorm_lib_config \<Rightarrow> 'w \<Rightarrow> (go_err + 'h) \<times> 'w"
  gm_DB :: "'h \<Rightarrow> 'w \<Rightarrow> go_err + sql_pool"
  gm_SetPool :: "'h \<Rightarrow> sql_pool \<Rightarrow> 'w \<Rightarrow> 'w"
  gm_Sleep :: "duration \<Rightarrow> 'w \<Rightarrow> 'w"

text \<open>
  The loop of \<open>New\<close>: the connection and the error its variables hold afterwards, with the answers of the
  openings.
\<close>

function open_loop ::
  "('w \<Rightarrow> (go_err + 'h) \<times> 'w) \<Rightarrow> ('w \<Rightarrow> 'w) \<Rightarrow> int \<Rightarrow> int \<Rightarrow> 'h option \<Rightarrow> go_err option \<Rightarrow> 'w \<Rightarrow>
   ('h option \<times> go_err option) \<times> go_err option list \<times> 'w"
where
  "open_loop open_fn sleep attempts i conn err w =
     (if i \<le> attempts then
        (case open_fn w of
           (Inr h, w') \<Rightarrow> ((Some h, None), [None], w')
         | (Inl e, w') \<Rightarrow>
             (case open_loop open_fn sleep attempts (i + 1) None (Some e) (if i < attempts then sleep w' else w') of
                (r, answers, w'') \<Rightarrow> (r, Some e # answers, w'')))
      else ((conn, err), [], w))"
  by pat_completeness auto
termination
  by (relation "measure (\<lambda>(_, _, attempts, i, _). nat (attempts + 1 - i))") auto

declare open_loop.simps [simp del]

text \<open>\<open>New\<close>; a nil configuration is \<open>None\<close>, and a method call on a nil connection panics.\<close>

definition gorm_New :: "('h, 'w) gorm_env \<Rightarrow> gorm_config option \<Rightarrow> 'w \<Rightarrow> (go_err + 'h) outcome \<times> go_err option list \<times> 'w" where
  "gorm_New env cfg0 w =
     (case cfg0 of
        None \<Rightarrow> (Returns (Inl ErrInvalidDatabaseConfig), [], w)
      | Some cfg \<Rightarrow>
          (case validateGormConfig cfg of
             Some e \<Rightarrow> (Returns (Inl e), [], w)
           | None \<Rightarrow>
               (let gormConfig = (case go_GormConfig cfg of Some c \<Rightarrow> c | None \<Rightarrow> buildGormConfig cfg) in
                case getDriverDialectorFunc (go_Dialector cfg) of
                  Inl e \<Rightarrow> (Returns (Inl e), [], w)
                | Inr dial \<Rightarrow>
                    (case open_loop (gm_Open env dial (go_DSN cfg) gormConfig) (gm_Sleep env (go_RetryDelay cfg))
                            (go_RetryAttempts cfg) 0 None None w of
                       ((_, Some err), answers, w') \<Rightarrow>
                         (Returns (Inl (errors_Join [gorm_ErrDatabaseConnectionFailed, err])), answers, w')
                     | ((None, None), answers, w') \<Rightarrow> (Panics, answers, w')
                     | ((Some conn, None), answers, w') \<Rightarrow>
                         (case gm_DB env conn w' of
                            Inl err \<Rightarrow> (Returns (Inl (errors_Join [ErrDatabasePoolAccessFailed, err])), answers, w')
                          | Inr sqlDB \<Rightarrow>
                              (Returns (Inr conn), answers, gm_SetPool env conn (configureConnectionPool cfg sqlDB) w'))))))"

definition UpdateConnectionPool :: "('h, 'w) gorm_env \<Rightarrow> 'h \<Rightarrow> gorm_config \<Rightarrow> 'w \<Rightarrow> go_err option \<times> 'w" where
  "UpdateConnectionPool env db cfg w =
     (case gm_DB env db w of
        Inl err \<Rightarrow> (Some (errors_Join [ErrDatabasePoolAccessFailed, err]), w)
      | Inr sqlDB \<Rightarrow> (None, gm_SetPool env db (configureConnectionPool cfg sqlDB) w))"

definition GetConnectionStats :: "('h, 'w) gorm_env \<Rightarrow> ('h \<Rightarrow> 'w \<Rightarrow> 's) \<Rightarrow> 'h \<Rightarrow> 'w \<Rightarrow> go_err + 's" where
  "GetConnectionStats env stats db w =
     (case gm_DB env db w of
        Inl err \<Rightarrow> Inl (errors_Join [ErrDatabasePoolAccessFailed, err])
      | Inr _ \<Rightarrow> Inr (stats db w))"

section \<open>Queries\<close>

text \<open>
  The rows of a query are the list the cursor will yield with the error it ends with; \<open>scan\<close> is the caller's function, or
  nil.
\<close>

record ('h, 'r, 'w) sql_env =
  sq_Open :: "string \<Rightarrow> string \<Rightarrow> 'w \<Rightarrow> (go_err + 'h) \<times> 'w"
  sq_Ping :: "'h \<Rightarrow> 'w \<Rightarrow> go_err option \<times> 'w"
  sq_Close :: "'h \<Rightarrow> 'w \<Rightarrow> go_err option \<times> 'w"
  sq_Query :: "'h \<Rightarrow> string \<Rightarrow> string list \<Rightarrow> 'w \<Rightarrow> (go_err + 'r list \<times> go_err option) \<times> 'w"

record sql_config =
  sc_Driver :: string
  sc_DSN :: string

record ('h, 'r, 't) sql_connector =
  cc_db :: 'h
  cc_scan :: "'r \<Rightarrow> go_err + 't"

definition NewSQL ::
  "('h, 'r, 'w) sql_env \<Rightarrow> sql_config \<Rightarrow> ('r \<Rightarrow> go_err + 't) option \<Rightarrow> 'w \<Rightarrow> (go_err + ('h, 'r, 't) sql_connector) \<times> 'w"
where
  "NewSQL env cfg scan0 w =
     (if sc_Driver cfg = [] then (Inl (Wrapped ''database driver must not be empty'' []), w)
      else if sc_DSN cfg = [] then (Inl (Wrapped ''database DSN must not be empty'' []), w)
      else
        (case scan0 of
           None \<Rightarrow> (Inl (Wrapped ''scan function must not be nil'' []), w)
         | Some scan \<Rightarrow>
             (case sq_Open env (sc_Driver cfg) (sc_DSN cfg) w of
                (Inl e, w1) \<Rightarrow> (Inl (Wrapped ''opening database connection: %w'' [e]), w1)
              | (Inr db, w1) \<Rightarrow>
                  (case sq_Ping env db w1 of
                     (Some e, w2) \<Rightarrow> (Inl (Wrapped ''pinging database: %w'' [e]), snd (sq_Close env db w2))
                   | (None, w2) \<Rightarrow> (Inr \<lparr>cc_db = db, cc_scan = scan\<rparr>, w2)))))"

fun scan_rows :: "('r \<Rightarrow> go_err + 't) \<Rightarrow> 'r list \<Rightarrow> 't list \<Rightarrow> go_err + 't list" where
  "scan_rows scan [] results = Inr results"
| "scan_rows scan (r # rs) results =
     (case scan r of
        Inl e \<Rightarrow> Inl (Wrapped ''scanning row: %w'' [e])
      | Inr item \<Rightarrow> scan_rows scan rs (results @ [item]))"

definition sql_Query :: "('h, 'r, 'w) sql_env \<Rightarrow> ('h, 'r, 't) sql_connector \<Rightarrow> string \<Rightarrow> string list \<Rightarrow> 'w \<Rightarrow> (go_err + 't list) \<times> 'w" where
  "sql_Query env c query args w =
     (case sq_Query env (cc_db c) query args w of
        (Inl e, w') \<Rightarrow> (Inl (Wrapped ''executing query: %w'' [e]), w')
      | (Inr (rows, rows_err), w') \<Rightarrow>
          (case scan_rows (cc_scan c) rows [] of
             Inl e \<Rightarrow> (Inl e, w')
           | Inr results \<Rightarrow>
               (case rows_err of
                  Some e \<Rightarrow> (Inl (Wrapped ''iterating rows: %w'' [e]), w')
                | None \<Rightarrow> (Inr results, w'))))"

definition sql_Close :: "('h, 'r, 'w) sql_env \<Rightarrow> ('h, 'r, 't) sql_connector \<Rightarrow> 'w \<Rightarrow> go_err option \<times> 'w" where
  "sql_Close env c w = sq_Close env (cc_db c) w"

section \<open>Lemmas\<close>

text \<open>How a run of the loop from attempt \<open>i\<close> ends, told by its answers.\<close>

lemma open_loop_result:
  assumes "open_loop open_fn sleep attempts i conn err w = ((conn', err'), answers, w')" and "i \<le> attempts"
  shows "answers \<noteq> [] \<and> int (length answers) \<le> attempts + 1 - i \<and> (\<forall>a \<in> set (butlast answers). a \<noteq> None) \<and>
    last answers = err' \<and> (err' = None \<longleftrightarrow> conn' \<noteq> None) \<and> (err' = None \<or> int (length answers) = attempts + 1 - i)"
  using assms
proof (induction open_fn sleep attempts i conn err w arbitrary: conn' err' answers w' rule: open_loop.induct)
  case (1 open_fn sleep attempts i conn err w)
  show ?case
  proof (cases "fst (open_fn w)")
    case (Inr h)
    with 1(2,3) show ?thesis by (auto simp: open_loop.simps [of _ _ _ i] split: prod.splits)
  next
    case (Inl e)
    then obtain w1 where w1: "open_fn w = (Inl e, w1)" by (cases "open_fn w") auto
    obtain as where rec: "open_loop open_fn sleep attempts (i + 1) None (Some e) (if i < attempts then sleep w1 else w1) = ((conn', err'), as, w')"
      and as: "answers = Some e # as"
      using 1(2,3) w1 by (auto simp: open_loop.simps [of _ _ _ i] split: prod.splits)
    show ?thesis
    proof (cases "i + 1 \<le> attempts")
      case True
      from 1(1) [OF 1(3) w1 [symmetric] refl rec True] as show ?thesis by auto
    next
      case False
      with rec have "as = []" "err' = Some e" "conn' = None" by (simp_all add: open_loop.simps [of _ _ _ "i + 1"])
      with as False 1(3) show ?thesis by simp
    qed
  qed
qed

lemma scan_rows_result:
  "scan_rows scan rs acc = Inr out \<longleftrightarrow> (\<exists>items. list_all2 (\<lambda>r i. scan r = Inr i) rs items \<and> out = acc @ items)"
proof (induction rs arbitrary: acc)
  case (Cons r rs)
  show ?case
  proof (cases "scan r")
    case (Inl e)
    then show ?thesis by (auto simp: list_all2_Cons1)
  next
    case (Inr i)
    then show ?thesis using Cons by (auto simp: list_all2_Cons1)
  qed
qed auto

section \<open>Properties\<close>

text \<open>
  C38: opening a gorm connection tries between once and RetryAttempts + 1 times and stops at the first success; it
  fails, with ErrDatabaseConnectionFailed, only when all of them failed, and a configuration it refuses is
  never tried. It does not panic when RetryAttempts is not negative.
\<close>

theorem gorm_open_retries:
  assumes "0 \<le> go_RetryAttempts cfg"
  shows "case gorm_New env (Some cfg) w of (r, answers, w') \<Rightarrow>
    (\<exists>x. r = Returns x) \<and> (validateGormConfig cfg = None \<longleftrightarrow> answers \<noteq> []) \<and>
    int (length answers) \<le> go_RetryAttempts cfg + 1 \<and> (\<forall>a \<in> set (butlast answers). a \<noteq> None) \<and>
    (answers = [] \<or> (case last answers of
       None \<Rightarrow> (\<exists>conn. r = Returns (Inr conn)) \<or> (\<exists>e. r = Returns (Inl e) \<and> errors_is e ErrDatabasePoolAccessFailed)
     | Some e \<Rightarrow> int (length answers) = go_RetryAttempts cfg + 1 \<and>
         r = Returns (Inl (errors_Join [gorm_ErrDatabaseConnectionFailed, e]))))"
proof (cases "validateGormConfig cfg")
  case (Some e)
  then show ?thesis using assms by (simp add: gorm_New_def)
next
  case None
  then obtain dial where dial: "getDriverDialectorFunc (go_Dialector cfg) = Inr dial"
    by (auto simp: validateGormConfig_def split: if_splits sum.splits)
  let ?c = "case go_GormConfig cfg of Some c \<Rightarrow> c | None \<Rightarrow> buildGormConfig cfg"
  obtain conn err answers w' where loop: "open_loop (gm_Open env dial (go_DSN cfg) ?c) (gm_Sleep env (go_RetryDelay cfg))
      (go_RetryAttempts cfg) 0 None None w = ((conn, err), answers, w')"
    by (metis prod.exhaust)
  note res = open_loop_result [OF loop assms]
  show ?thesis
  proof (cases err)
    case None
    with res obtain h where "conn = Some h" by auto
    with \<open>validateGormConfig cfg = None\<close> dial loop res None show ?thesis
      by (cases "gm_DB env h w'") (auto simp: gorm_New_def Let_def)
  next
    case (Some e)
    with \<open>validateGormConfig cfg = None\<close> dial loop res show ?thesis by (auto simp: gorm_New_def Let_def)
  qed
qed

definition demo_gorm :: "(unit, nat) gorm_env" where
  "demo_gorm = \<lparr>gm_Open = (\<lambda>_ _ _ w. (if w < 2 then Inl (Foreign w) else Inr (), w + 1)),
     gm_DB = (\<lambda>_ _. Inr \<lparr>po_MaxOpenConns = 0, po_MaxIdleConns = 2, po_ConnMaxLifetime = 0, po_ConnMaxIdleTime = 0\<rparr>),
     gm_SetPool = (\<lambda>_ _ w. w), gm_Sleep = (\<lambda>_ w. w)\<rparr>"

theorem gorm_open_retries_witness:
  "case gorm_New demo_gorm (Some (DefaultGormConfig\<lparr>go_DSN := ''d'', go_Dialector := ''mysql''\<rparr>)) 0 of (r, answers, _) \<Rightarrow>
     (\<exists>x. r = Returns x) \<and> answers \<noteq> [] \<and> length answers \<le> 4"
  using gorm_open_retries [of "DefaultGormConfig\<lparr>go_DSN := ''d'', go_Dialector := ''mysql''\<rparr>" demo_gorm 0]
  by (auto simp: DefaultGormConfig_def validateGormConfig_def getDriverDialectorFunc_def)

text \<open>
  A negative number of attempts leaves the loop without an error and without a connection, whose use
  panics.
\<close>

lemma gorm_negative_attempts:
  assumes "go_RetryAttempts cfg < 0" and "validateGormConfig cfg = None"
  shows "fst (gorm_New env (Some cfg) w) = Panics"
proof -
  obtain dial where "getDriverDialectorFunc (go_Dialector cfg) = Inr dial"
    using assms(2) by (auto simp: validateGormConfig_def split: if_splits sum.splits)
  with assms show ?thesis by (simp add: gorm_New_def Let_def open_loop.simps)
qed

text \<open>
  A query returns rows only when every row was scanned and the cursor ended without an error, and then one value per
  row in order.
\<close>

lemma query_all_or_nothing:
  "sql_Query env c q args w = (Inr items, w') \<longleftrightarrow>
     (\<exists>rows. sq_Query env (cc_db c) q args w = (Inr (rows, None), w') \<and> list_all2 (\<lambda>r i. cc_scan c r = Inr i) rows items)"
proof -
  have scan: "list_all2 (\<lambda>r i. cc_scan c r = Inr i) rows items \<longleftrightarrow> scan_rows (cc_scan c) rows [] = Inr items" for rows
    by (simp add: scan_rows_result)
  show ?thesis unfolding scan by (auto simp: sql_Query_def split: prod.splits sum.splits option.splits)
qed

end
