(* ===== verification/Migrate.thy ===== *)
theory Migrate
  imports Prelude
begin

text \<open>
  Package \<^verbatim>\<open>migrate\<close> (\<^verbatim>\<open>src/database/migrate/migrator.go\<close>): opening a migrator, applying migrations and executing seed files. The
  database, golang-migrate and the file system are parameters.
\<close>

section \<open>Errors and configuration\<close>

definition ErrInvalidConfig :: go_err where "ErrInvalidConfig = Sentinel ''invalid configuration''"
definition migrate_ErrDatabaseConnectionFailed :: go_err where
  "migrate_ErrDatabaseConnectionFailed = Sentinel ''failed to open database connection''"
definition ErrDatabasePingFailed :: go_err where "ErrDatabasePingFailed = Sentinel ''failed to ping database''"
definition ErrAbsolutePathFailed :: go_err where "ErrAbsolutePathFailed = Sentinel ''failed to resolve absolute path''"
definition ErrMigrateInstanceFailed :: go_err where "ErrMigrateInstanceFailed = Sentinel ''failed to create migrate instance''"
definition ErrGetVersionFailed :: go_err where "ErrGetVersionFailed = Sentinel ''failed to get current migration version''"
definition ErrDatabaseDirtyState :: go_err where
  "ErrDatabaseDirtyState = Sentinel ''database is in a dirty state, manual intervention required''"
definition ErrMigrationFailed :: go_err where "ErrMigrationFailed = Sentinel ''failed to apply migrations''"
definition ErrReadPopulationDirectory :: go_err where
  "ErrReadPopulationDirectory = Sentinel ''failed to read population directory''"
definition ErrReadPopulateFile :: go_err where "ErrReadPopulateFile = Sentinel ''failed to read seed file''"
definition ErrPopulateExecutionFailed :: go_err where "ErrPopulateExecutionFailed = Sentinel ''failed to execute seed file''"
definition ErrDSNRequired :: go_err where "ErrDSNRequired = Sentinel ''dsn is required''"
definition ErrDialectorRequired :: go_err where "ErrDialectorRequired = Sentinel ''dialector is required''"
definition ErrMigrationsPathRequired :: go_err where "ErrMigrationsPathRequired = Sentinel ''migrations path is required''"
definition ErrInvalidMigrationsPath :: go_err where "ErrInvalidMigrationsPath = Sentinel ''migrations path does not exist''"
definition ErrUnsupportedDialect :: go_err where "ErrUnsupportedDialect = Sentinel ''unsupported database dialect''"

record migrate_config =
  mc_DSN :: string
  mc_Dialector :: string
  mc_MigrationsPath :: string
  mc_PopulationPath :: string

text \<open>
  The database handle \<open>'h\<close>, the driver \<open>'d\<close> and the instance \<open>'m\<close> of golang-migrate, and the file system: a directory
  is listed as names with a mark for subdirectories, in the order of the names.
\<close>

record ('h, 'd, 'm, 'w) migrate_env =
  mg_NotExist :: "string \<Rightarrow> 'w \<Rightarrow> bool"
  mg_Getwd :: "'w \<Rightarrow> go_err + string"
  mg_Open :: "string \<Rightarrow> string \<Rightarrow> 'w \<Rightarrow> (go_err + 'h) \<times> 'w"
  mg_Ping :: "'h \<Rightarrow> 'w \<Rightarrow> go_err option \<times> 'w"
  mg_Close :: "'h \<Rightarrow> 'w \<Rightarrow> 'w"
  mg_WithInstance :: "string \<Rightarrow> 'h \<Rightarrow> 'w \<Rightarrow> (go_err + 'd) \<times> 'w"
  mg_NewWithDatabaseInstance :: "string \<Rightarrow> string \<Rightarrow> 'd \<Rightarrow> 'w \<Rightarrow> (go_err + 'm) \<times> 'w"
  mg_Version :: "'m \<Rightarrow> 'w \<Rightarrow> (nat \<times> bool \<times> go_err option) \<times> 'w"
  mg_Up :: "'m \<Rightarrow> 'w \<Rightarrow> go_err option \<times> 'w"
  mg_ErrNilVersion :: go_err
  mg_ErrNoChange :: go_err
  mg_CtxErr :: "'w \<Rightarrow> go_err option"
  mg_ReadDir :: "string \<Rightarrow> 'w \<Rightarrow> go_err + (string \<times> bool) list"
  mg_ReadFile :: "string \<Rightarrow> 'w \<Rightarrow> go_err + string"
  mg_ExecContext :: "'h \<Rightarrow> string \<Rightarrow> 'w \<Rightarrow> go_err option \<times> 'w"

section \<open>Opening\<close>

definition validateMigrateConfig :: "('h, 'd, 'm, 'w) migrate_env \<Rightarrow> migrate_config \<Rightarrow> 'w \<Rightarrow> go_err option" where
  "validateMigrateConfig env config w =
     (if mc_DSN config = [] then Some ErrDSNRequired
      else if mc_Dialector config = [] then Some ErrDialectorRequired
      else if mc_Dialector config \<notin> {''postgres'', ''mysql'', ''sqlite3''} then Some (Wrapped ''%w: %q'' [ErrUnsupportedDialect])
      else if mc_MigrationsPath config = [] then Some ErrMigrationsPathRequired
      else if mg_NotExist env (mc_MigrationsPath config) w then Some (Wrapped ''%w: %q'' [ErrInvalidMigrationsPath])
      else None)"

record ('h, 'm) migrator =
  mr_db :: 'h
  mr_migrate :: 'm
  mr_config :: migrate_config

definition createDatabaseDriver :: "('h, 'd, 'm, 'w) migrate_env \<Rightarrow> 'h \<Rightarrow> migrate_config \<Rightarrow> 'w \<Rightarrow> (go_err + 'd) \<times> 'w" where
  "createDatabaseDriver env db config w =
     (if mc_Dialector config \<in> {''postgres'', ''mysql'', ''sqlite3''} then mg_WithInstance env (mc_Dialector config) db w
      else (Inl (Wrapped ''%w: %q'' [ErrUnsupportedDialect]), w))"

text \<open>\<open>filepath.Abs\<close>\<close>

definition filepath_Abs :: "('h, 'd, 'm, 'w) migrate_env \<Rightarrow> string \<Rightarrow> 'w \<Rightarrow> go_err + string" where
  "filepath_Abs env p w =
     (if is_abs p then Inr (filepath_Clean p)
      else (case mg_Getwd env w of Inl e \<Rightarrow> Inl e | Inr wd \<Rightarrow> Inr (filepath_Join wd p)))"

definition initMigrate :: "('h, 'd, 'm, 'w) migrate_env \<Rightarrow> 'h \<Rightarrow> migrate_config \<Rightarrow> 'w \<Rightarrow> (go_err + 'm) \<times> 'w" where
  "initMigrate env db config w =
     (case createDatabaseDriver env db config w of
        (Inl e, w1) \<Rightarrow> (Inl e, w1)
      | (Inr driver, w1) \<Rightarrow>
          (case filepath_Abs env (mc_MigrationsPath config) w1 of
             Inl e \<Rightarrow> (Inl (Wrapped ''%w: %w'' [ErrAbsolutePathFailed, e]), w1)
           | Inr absPath \<Rightarrow>
               (case mg_NewWithDatabaseInstance env (''file://'' @ absPath) (mc_Dialector config) driver w1 of
                  (Inl e, w2) \<Rightarrow> (Inl (Wrapped ''%w: %w'' [ErrMigrateInstanceFailed, e]), w2)
                | (Inr m, w2) \<Rightarrow> (Inr m, w2))))"

definition migrator_New :: "('h, 'd, 'm, 'w) migrate_env \<Rightarrow> migrate_config \<Rightarrow> 'w \<Rightarrow> (go_err + ('h, 'm) migrator) \<times> 'w" where
  "migrator_New env config w =
     (case validateMigrateConfig env config w of
        Some e \<Rightarrow> (Inl (Wrapped ''%w: %w'' [ErrInvalidConfig, e]), w)
      | None \<Rightarrow>
          (case mg_Open env (mc_Dialector config) (mc_DSN config) w of
             (Inl e, w1) \<Rightarrow> (Inl (Wrapped ''%w: %w'' [migrate_ErrDatabaseConnectionFailed, e]), w1)
           | (Inr db, w1) \<Rightarrow>
               (case mg_Ping env db w1 of
                  (Some e, w2) \<Rightarrow> (Inl (Wrapped ''%w: %w'' [ErrDatabasePingFailed, e]), mg_Close env db w2)
                | (None, w2) \<Rightarrow>
                    (case initMigrate env db config w2 of
                       (Inl e, w3) \<Rightarrow> (Inl e, mg_Close env db w3)
                     | (Inr m, w3) \<Rightarrow> (Inr \<lparr>mr_db = db, mr_migrate = m, mr_config = config\<rparr>, w3)))))"

section \<open>Migrating\<close>

definition Migrate_up :: "('h, 'd, 'm, 'w) migrate_env \<Rightarrow> ('h, 'm) migrator \<Rightarrow> 'w \<Rightarrow> go_err option \<times> 'w" where
  "Migrate_up env mg w =
     (case mg_CtxErr env w of
        Some e \<Rightarrow> (Some (Wrapped ''migration cancelled before start: %w'' [e]), w)
      | None \<Rightarrow>
          (case mg_Version env (mr_migrate mg) w of
             ((version, dirty, verr), w1) \<Rightarrow>
               if (case verr of None \<Rightarrow> False | Some e \<Rightarrow> \<not> errors_is e (mg_ErrNilVersion env))
               then (Some (Wrapped ''%w: %w'' [ErrGetVersionFailed, the verr]), w1)
               else if dirty then (Some (Wrapped ''%w (version %d)'' [ErrDatabaseDirtyState]), w1)
               else
                 (case mg_Up env (mr_migrate mg) w1 of
                    (Some e, w2) \<Rightarrow>
                      if errors_is e (mg_ErrNoChange env) then (None, w2)
                      else (Some (Wrapped ''%w: %w'' [ErrMigrationFailed, e]), w2)
                  | (None, w2) \<Rightarrow>
                      (case mg_CtxErr env w2 of
                         Some e \<Rightarrow> (Some (Wrapped ''context cancelled after migration completed: %w'' [e]), w2)
                       | None \<Rightarrow> (None, w2)))))"

section \<open>Seeding\<close>

definition is_seed :: "string \<times> bool \<Rightarrow> bool" where
  "is_seed file = (\<not> (snd file \<or> filepath_Ext (fst file) \<noteq> ''.sql''))"

text \<open>The loop of \<open>Populate\<close>; the second component lists the texts that were executed without an error.\<close>

fun populate_files :: "('h, 'd, 'm, 'w) migrate_env \<Rightarrow> ('h, 'm) migrator \<Rightarrow> (string \<times> bool) list \<Rightarrow> 'w \<Rightarrow> go_err option \<times> string list \<times> 'w" where
  "populate_files env mg [] w = (None, [], w)"
| "populate_files env mg (file # files) w =
     (if \<not> is_seed file then populate_files env mg files w
      else
        (case mg_CtxErr env w of
           Some e \<Rightarrow> (Some (Wrapped ''populate cancelled: %w'' [e]), [], w)
         | None \<Rightarrow>
             (case mg_ReadFile env (filepath_Join (mc_PopulationPath (mr_config mg)) (fst file)) w of
                Inl e \<Rightarrow> (Some (Wrapped ''%w %q: %w'' [ErrReadPopulateFile, e]), [], w)
              | Inr content \<Rightarrow>
                  (case mg_ExecContext env (mr_db mg) content w of
                     (Some e, w1) \<Rightarrow> (Some (Wrapped ''%w %q: %w'' [ErrPopulateExecutionFailed, e]), [], w1)
                   | (None, w1) \<Rightarrow>
                       (case populate_files env mg files w1 of (r, done_texts, w2) \<Rightarrow> (r, content # done_texts, w2))))))"

definition Populate :: "('h, 'd, 'm, 'w) migrate_env \<Rightarrow> ('h, 'm) migrator \<Rightarrow> 'w \<Rightarrow> go_err option \<times> string list \<times> 'w" where
  "Populate env mg w =
     (if mc_PopulationPath (mr_config mg) = [] then (None, [], w)
      else
        (case mg_ReadDir env (mc_PopulationPath (mr_config mg)) w of
           Inl e \<Rightarrow> (Some (Wrapped ''%w: %w'' [ErrReadPopulationDirectory, e]), [], w)
         | Inr files \<Rightarrow> populate_files env mg files w))"

section \<open>Properties\<close>

text \<open>
  Opening a migrator leaks no connection: every error after the database was opened comes with the database
  closed again; a refused configuration is reported as ErrInvalidConfig before anything is opened; and a migrator
  is returned only for a valid configuration, with a database that answered a ping.
\<close>

lemma migrator_open_closes:
  "case migrator_New env config w of
     (Inl e, w') \<Rightarrow>
       (errors_is e ErrInvalidConfig \<and> validateMigrateConfig env config w \<noteq> None \<and> w' = w) \<or>
       (\<exists>e'. mg_Open env (mc_Dialector config) (mc_DSN config) w = (Inl e', w') \<and> errors_is e migrate_ErrDatabaseConnectionFailed) \<or>
       (\<exists>db w1 w2. mg_Open env (mc_Dialector config) (mc_DSN config) w = (Inr db, w1) \<and> w' = mg_Close env db w2)
   | (Inr m, w') \<Rightarrow>
       validateMigrateConfig env config w = None \<and> mr_config m = config \<and>
       (\<exists>w1 w2. mg_Open env (mc_Dialector config) (mc_DSN config) w = (Inr (mr_db m), w1) \<and>
          mg_Ping env (mr_db m) w1 = (None, w2) \<and> initMigrate env (mr_db m) config w2 = (Inr (mr_migrate m), w'))"
  by (auto simp: migrator_New_def errors_is_wrapped split: option.splits sum.splits prod.splits)

text \<open>
  A dirty database, a version that cannot be read or a cancelled context keeps migrations from being
  applied; and success means that they were applied or that there was nothing to apply.
\<close>

lemma migrate_guard:
  assumes "Migrate_up env mg w = (r, w')" and "mg_CtxErr env w = None" and "mg_Version env (mr_migrate mg) w = ((version, dirty, verr), w1)"
  shows "(dirty \<longrightarrow> r \<noteq> None \<and> w' = w1) \<and>
    (r = None \<longrightarrow> \<not> dirty \<and> (\<exists>e. mg_Up env (mr_migrate mg) w1 = (e, w') \<and> (\<forall>x. e = Some x \<longrightarrow> errors_is x (mg_ErrNoChange env))))"
  using assms by (auto simp: Migrate_up_def split: if_splits option.splits prod.splits)

lemma populate_files_result:
  assumes "populate_files env mg files w = (r, texts, w')"
  shows "length texts \<le> length (filter is_seed files) \<and> (r = None \<longleftrightarrow> length texts = length (filter is_seed files)) \<and>
    (\<forall>i < length texts. \<exists>w1. mg_ReadFile env (filepath_Join (mc_PopulationPath (mr_config mg)) (fst (filter is_seed files ! i))) w1 = Inr (texts ! i))"
  using assms
proof (induction files arbitrary: r texts w w')
  case Nil
  then show ?case by simp
next
  case (Cons entry files)
  show ?case
  proof (cases "is_seed entry \<and> texts \<noteq> []")
    case False
    then show ?thesis using Cons
      by (cases "is_seed entry") (auto split: option.splits sum.splits prod.splits)
  next
    case True
    then obtain content w1 ts where c: "mg_ReadFile env (filepath_Join (mc_PopulationPath (mr_config mg)) (fst entry)) w = Inr content"
      and rec: "populate_files env mg files w1 = (r, ts, w')" and texts: "texts = content # ts"
      using Cons.prems by (auto split: option.splits sum.splits prod.splits)
    from Cons.IH [OF rec] c True show ?thesis unfolding texts by (auto simp: less_Suc_eq_0_disj)
  qed
qed

text \<open>
  Populate executes the seed files, which are the .sql files that are not directories, in the order of the
  directory and each with the text read from its path, and stops at the first failure; it reports success
  exactly when all of them were executed.
\<close>

lemma populate_in_order:
  assumes "mc_PopulationPath (mr_config mg) \<noteq> []" and "mg_ReadDir env (mc_PopulationPath (mr_config mg)) w = Inr files"
    and "Populate env mg w = (r, texts, w')"
  shows "length texts \<le> length (filter is_seed files) \<and> (r = None \<longleftrightarrow> length texts = length (filter is_seed files)) \<and>
    (\<forall>i < length texts. \<exists>w1. mg_ReadFile env (filepath_Join (mc_PopulationPath (mr_config mg)) (fst (filter is_seed files ! i))) w1 = Inr (texts ! i))"
  using populate_files_result assms by (simp add: Populate_def)

definition demo_migrate :: "(unit, unit, unit, string list) migrate_env" where
  "demo_migrate = \<lparr>mg_NotExist = (\<lambda>_ _. False), mg_Getwd = (\<lambda>_. Inr ''/app''), mg_Open = (\<lambda>_ _ w. (Inr (), w)),
     mg_Ping = (\<lambda>_ w. (None, w)), mg_Close = (\<lambda>_ w. w), mg_WithInstance = (\<lambda>_ _ w. (Inr (), w)),
     mg_NewWithDatabaseInstance = (\<lambda>_ _ _ w. (Inr (), w)), mg_Version = (\<lambda>_ w. ((0, False, None), w)), mg_Up = (\<lambda>_ w. (None, w)),
     mg_ErrNilVersion = Foreign 1, mg_ErrNoChange = Foreign 2, mg_CtxErr = (\<lambda>_. None),
     mg_ReadDir = (\<lambda>_ _. Inr [(''01.sql'', False), (''notes.txt'', False), (''02.sql'', False)]),
     mg_ReadFile = (\<lambda>p _. Inr p), mg_ExecContext = (\<lambda>_ t w. (None, w @ [t]))\<rparr>"

definition demo_migrator :: "(unit, unit) migrator" where
  "demo_migrator = \<lparr>mr_db = (), mr_migrate = (), mr_config = \<lparr>mc_DSN = ''d'', mc_Dialector = ''mysql'', mc_MigrationsPath = ''m'', mc_PopulationPath = ''seeds''\<rparr>\<rparr>"

lemma demo_seeds: "is_seed (''01.sql'', False)" "\<not> is_seed (''notes.txt'', False)" "is_seed (''02.sql'', False)"
  by code_simp+

lemma demo_populate:
  "Populate demo_migrate demo_migrator [] =
     (None, [filepath_Join ''seeds'' ''01.sql'', filepath_Join ''seeds'' ''02.sql''], [filepath_Join ''seeds'' ''01.sql'', filepath_Join ''seeds'' ''02.sql''])"
  by (simp add: Populate_def demo_migrate_def demo_migrator_def demo_seeds)

theorem populate_in_order_witness:
  "\<exists>r texts w'. Populate demo_migrate demo_migrator [] = (r, texts, w') \<and> length texts = 2 \<and> r = None"
proof -
  have "mc_PopulationPath (mr_config demo_migrator) \<noteq> []" by (simp add: demo_migrator_def)
  moreover have "mg_ReadDir demo_migrate (mc_PopulationPath (mr_config demo_migrator)) [] =
      Inr [(''01.sql'', False), (''notes.txt'', False), (''02.sql'', False)]" by (simp add: demo_migrate_def)
  ultimately show ?thesis using populate_in_order [OF _ _ demo_populate] demo_populate by (simp add: demo_seeds)
qed

end
