(* ===== verification/LogFormat.thy ===== *)
theory LogFormat
  imports GoText
begin

text \<open>
  Package \<^verbatim>\<open>logger\<close> (\<^verbatim>\<open>src/logger/formatter.go\<close>, \<^verbatim>\<open>helper.go\<close>, \<^verbatim>\<open>logger.go\<close>, \<^verbatim>\<open>zerolog.go\<close>): the columns of the console output, the
  tree it prints for an error, and the wrappers around a zerolog logger. Colours, the title case of
  x/text, quoting and the printing of foreign values are parameters; a text is a \<^typ>\<open>string\<close> of UTF-8 bytes.
\<close>

section \<open>Styles and values\<close>

datatype attribute = FgHiCyan | Italic | FgHiMagenta | FgWhite | FgHiYellow | FgCyan | FgHiWhite | FgHiRed | FgHiGreen
  | FgHiBlack | FgHiBlue | BgRed | Bold | BlinkSlow

definition timestampColor :: "attribute list" where "timestampColor = [FgHiCyan, Italic]"
definition callerColor :: "attribute list" where "callerColor = [FgHiMagenta]"
definition messageColor :: "attribute list" where "messageColor = [FgWhite]"
definition fieldKeyColor :: "attribute list" where "fieldKeyColor = [FgHiYellow]"
definition fieldValColor :: "attribute list" where "fieldValColor = [FgCyan]"
definition errStyle :: "attribute list" where "errStyle = [FgHiRed, Bold]"
definition boldStyle :: "attribute list" where "boldStyle = [Bold]"

definition maxMessageSize :: nat where "maxMessageSize = 65"
definition maxFileSize :: nat where "maxFileSize = 25"
definition maxLineSize :: nat where "maxLineSize = 4"

text \<open>A value of type \<open>any\<close>, by the cases the formatter tells apart; \<open>'a\<close> holds floats and all other types.\<close>

datatype 'a log_value = LString string | LInt int | LFloat 'a | LBool bool | LNil | LError string | LOther 'a

text \<open>
  \<^verbatim>\<open>color.New(attributes).Sprint\<close>, the verbs \<^verbatim>\<open>%v\<close>, \<^verbatim>\<open>%q\<close> and \<^verbatim>\<open>%.2f\<close>, \<^verbatim>\<open>strings.ToLower\<close> with the title caser, and RFC 3339
  with a layout.
\<close>

record 'a log_env =
  le_paint :: "attribute list \<Rightarrow> string \<Rightarrow> string"
  le_sprint :: "'a log_value \<Rightarrow> string"
  le_quote :: "string \<Rightarrow> string"
  le_float2 :: "'a \<Rightarrow> string"
  le_lower :: "string \<Rightarrow> string"
  le_title :: "string \<Rightarrow> string"
  le_ParseRFC3339 :: "string \<Rightarrow> instant option"
  le_Format :: "instant \<Rightarrow> string \<Rightarrow> string"

record log_config =
  lc_Level :: string
  lc_DateTimeLayout :: string
  lc_Colored :: bool
  lc_JSONFormat :: bool
  lc_UseEmoji :: bool

text \<open>The drawing characters.\<close>

definition bar :: string where "bar = [CHR 0xE2, CHR 0x94, CHR 0x82]"
definition tee_left :: string where "tee_left = [CHR 0xE2, CHR 0x94, CHR 0xA4]"
definition tee_right :: string where "tee_right = [CHR 0xE2, CHR 0x94, CHR 0x9C]"
definition corner :: string where "corner = [CHR 0xE2, CHR 0x94, CHR 0x94]"
definition dash :: string where "dash = [CHR 0xE2, CHR 0x94, CHR 0x80]"
definition question :: string where "question = [CHR 0xE2, CHR 0x9D, CHR 0x93]"

definition branch_symbol :: "bool \<Rightarrow> string" where
  "branch_symbol isLast = (if isLast then corner else tee_right) @ dash @ dash"

section \<open>Columns\<close>

record log_level =
  ll_Text :: string
  ll_Color :: "attribute list"

definition logLevels :: "(string, log_level) gomap" where
  "logLevels =
     [(''trace'', \<lparr>ll_Text = ''TRAC'', ll_Color = [FgHiBlack, Bold]\<rparr>),
      (''debug'', \<lparr>ll_Text = ''DEBG'', ll_Color = [FgHiBlue, Bold]\<rparr>),
      (''info'', \<lparr>ll_Text = ''INFO'', ll_Color = [FgHiGreen, Bold]\<rparr>),
      (''warn'', \<lparr>ll_Text = ''WARN'', ll_Color = [FgHiYellow, Bold]\<rparr>),
      (''error'', \<lparr>ll_Text = ''ERRO'', ll_Color = [FgHiRed, Bold]\<rparr>),
      (''fatal'', \<lparr>ll_Text = ''FATL'', ll_Color = [FgHiRed, Bold]\<rparr>),
      (''panic'', \<lparr>ll_Text = ''PANC'', ll_Color = [FgWhite, BgRed, Bold, BlinkSlow]\<rparr>)]"

definition formatUnknownLevel :: "'a log_env \<Rightarrow> log_config \<Rightarrow> string" where
  "formatUnknownLevel env cfg =
     le_paint env [FgHiWhite] ('' '' @ (if lc_UseEmoji cfg then question @ '' '' else []) @ ''UNKN '')"

definition formatLevel :: "'a log_env \<Rightarrow> log_config \<Rightarrow> 'a log_value \<Rightarrow> string" where
  "formatLevel env cfg i =
     (case i of
        LString levelStr \<Rightarrow>
          (case map_of logLevels levelStr of
             None \<Rightarrow> formatUnknownLevel env cfg
           | Some level \<Rightarrow> le_paint env (ll_Color level) ('' '' @ ll_Text level @ '' ''))
      | _ \<Rightarrow> formatUnknownLevel env cfg)"

definition formatMultilineMessage :: "'a log_env \<Rightarrow> string \<Rightarrow> string" where
  "formatMultilineMessage env msg =
     join [CHR 0x0A] (map (\<lambda>line. le_paint env messageColor (bar @ '' '' @ line)) (split_on (CHR 0x0A) msg))"

text \<open>The text of the message column: cut at a number of bytes, or padded to that number of characters.\<close>

definition message_column :: "string \<Rightarrow> string" where
  "message_column msg =
     (if maxMessageSize < length msg then take maxMessageSize msg else pad_right maxMessageSize msg)"

definition formatMessage :: "'a log_env \<Rightarrow> 'a log_value \<Rightarrow> string" where
  "formatMessage env i =
     (case i of
        LString msg \<Rightarrow>
          if length msg = 0 then le_paint env messageColor (bar @ '' (empty message)'')
          else if CHR 0x0A \<in> set msg then formatMultilineMessage env msg
          else le_paint env messageColor (bar @ '' '' @ message_column msg)
      | _ \<Rightarrow> le_paint env messageColor (bar @ '' (empty message)''))"

definition trim_suffix :: "string \<Rightarrow> string \<Rightarrow> string" where
  "trim_suffix s suf = (if suffix suf s then take (length s - length suf) s else s)"

definition formatFileName :: "string \<Rightarrow> string" where
  "formatFileName name =
     (let fname = trim_suffix name ''.go''
      in if maxFileSize < length fname then take maxFileSize fname else pad_right maxFileSize fname)"

definition formatLineNumber :: "string \<Rightarrow> string" where
  "formatLineNumber line =
     (if maxLineSize < length line then drop (length line - maxLineSize) line else pad_zeros maxLineSize line)"

definition formatCaller :: "'a log_env \<Rightarrow> 'a log_value \<Rightarrow> string" where
  "formatCaller env i =
     (case i of
        LString fname \<Rightarrow>
          if length fname = 0 then []
          else
            (let caller = path_Base fname in
             case split_on (CHR '':'') caller of
               [name, num] \<Rightarrow> le_paint env callerColor
                 (tee_left @ '' '' @ formatFileName name @ '':'' @ formatLineNumber num @ '' '' @ tee_right)
             | _ \<Rightarrow> le_paint env callerColor (tee_left @ '' '' @ caller @ '' '' @ tee_right))
      | _ \<Rightarrow> [])"

definition formatTimestamp :: "'a log_env \<Rightarrow> log_config \<Rightarrow> 'a log_value \<Rightarrow> string" where
  "formatTimestamp env cfg i =
     (case i of
        LString strTime \<Rightarrow>
          (case le_ParseRFC3339 env strTime of
             None \<Rightarrow> le_paint env timestampColor (''[ '' @ strTime @ '' ]'')
           | Some ts \<Rightarrow> le_paint env timestampColor (''[ '' @ le_Format env ts (lc_DateTimeLayout cfg) @ '' ]''))
      | _ \<Rightarrow> le_paint env timestampColor (''[ '' @ le_sprint env i @ '' ]''))"

definition formatFieldName :: "'a log_env \<Rightarrow> 'a log_value \<Rightarrow> string" where
  "formatFieldName env i = (case i of LString name \<Rightarrow> le_paint env fieldKeyColor name | _ \<Rightarrow> le_sprint env i)"

definition formatFieldValue :: "'a log_env \<Rightarrow> 'a log_value \<Rightarrow> string" where
  "formatFieldValue env i =
     (case i of
        LString v \<Rightarrow>
          if set v \<inter> {CHR '' '', CHR 0x09, CHR 0x0A, CHR 0x0D, CHR 0x22, CHR 0x27} \<noteq> {}
          then ''='' @ le_paint env fieldValColor (le_quote env v)
          else ''='' @ le_paint env fieldValColor v
      | LInt _ \<Rightarrow> le_paint env fieldValColor (''='' @ le_sprint env i)
      | LFloat x \<Rightarrow> le_paint env fieldValColor (''='' @ le_float2 env x)
      | LBool b \<Rightarrow> ''='' @ (if b then le_paint env [FgHiGreen] ''true'' else le_paint env [FgHiRed] ''false'')
      | LNil \<Rightarrow> ''='' @ le_paint env [FgHiBlack] ''null''
      | _ \<Rightarrow> le_paint env fieldValColor (''='' @ le_sprint env i))"

section \<open>The tree of an error\<close>

text \<open>
  The regular expression \<^verbatim>\<open>^([^\[]+)\[(.+)\]$\<close>: the first group ends at the first bracket, so there is one way to match.
\<close>

definition bracket_match :: "string \<Rightarrow> (string \<times> string) option" where
  "bracket_match part =
     (case cut (CHR ''['') part of
        None \<Rightarrow> None
      | Some (msg, rest) \<Rightarrow>
          if msg \<noteq> [] \<and> 2 \<le> length rest \<and> last rest = CHR '']'' \<and> CHR 0x0A \<notin> set (butlast rest)
          then Some (msg, butlast rest) else None)"

text \<open>
  The regular expression \<^verbatim>\<open>(\S+?)=([^\n]+?)(?:, |$)\<close>, from a given position: both groups are as short as possible, the first
  one first.
\<close>

fun kv_value :: "string \<Rightarrow> string \<Rightarrow> (string \<times> string) option" where
  "kv_value acc [] = (if acc \<noteq> [] then Some (acc, []) else None)"
| "kv_value acc (c # r) =
     (if acc \<noteq> [] \<and> prefix '', '' (c # r) then Some (acc, drop 2 (c # r))
      else if c = CHR 0x0A then None else kv_value (acc @ [c]) r)"

definition is_re_space :: "char \<Rightarrow> bool" where
  "is_re_space c \<longleftrightarrow> c \<in> {CHR '' '', CHR 0x09, CHR 0x0A, CHR 0x0C, CHR 0x0D}"

fun kv_at :: "string \<Rightarrow> string \<Rightarrow> (string \<times> string \<times> string) option" where
  "kv_at acc [] = None"
| "kv_at acc (c # r) =
     (case (if acc \<noteq> [] \<and> c = CHR ''='' then kv_value [] r else None) of
        Some (v, rest) \<Rightarrow> Some (acc, v, rest)
      | None \<Rightarrow> if is_re_space c then None else kv_at (acc @ [c]) r)"

lemma kv_value_shorter: "kv_value acc s = Some (v, rest) \<Longrightarrow> length rest \<le> length s"
  by (induction acc s rule: kv_value.induct) (fastforce split: if_splits)+

lemma kv_at_shorter: "kv_at acc s = Some (k, v, rest) \<Longrightarrow> length rest < length s"
  by (induction acc s rule: kv_at.induct) (auto dest: kv_value_shorter split: if_splits option.splits)

text \<open>\<open>FindAllStringSubmatch\<close>: the leftmost match, then on behind it.\<close>

function kv_matches :: "string \<Rightarrow> (string \<times> string) list" where
  "kv_matches [] = []"
| "kv_matches (c # r) =
     (case kv_at [] (c # r) of
        Some (k, v, rest) \<Rightarrow> (k, v) # kv_matches rest
      | None \<Rightarrow> kv_matches r)"
  by pat_completeness auto
termination
  by (relation "measure length") (auto dest!: kv_at_shorter simp del: kv_at.simps)

declare kv_matches.simps(2) [simp del]

definition kv_node :: "'a log_env \<Rightarrow> string \<Rightarrow> string \<Rightarrow> string \<times> string \<Rightarrow> string" where
  "kv_node env pre treeSymbol kv =
     (let key = le_title env (le_lower env (map (\<lambda>c. if c = CHR ''_'' then CHR '' '' else c) (trim_space (fst kv))));
          valueLines = split_on (CHR 0x0A) (trim_space (snd kv))
      in concat (map (\<lambda>(j, line).
           [CHR 0x0A] @ pre @ le_paint env errStyle (if 0 < j then bar @ ''   '' else treeSymbol) @ '' '' @
           le_paint env boldStyle key @ '': '' @ le_paint env errStyle line) (enumerate (0 :: nat) valueLines)))"

fun kv_tree :: "'a log_env \<Rightarrow> string \<Rightarrow> (string \<times> string) list \<Rightarrow> string" where
  "kv_tree env pre [] = []"
| "kv_tree env pre (kv # kvs) = kv_node env pre (branch_symbol (kvs = [])) kv @ kv_tree env pre kvs"

definition writeKeyValueTree :: "'a log_env \<Rightarrow> string \<Rightarrow> string \<Rightarrow> string" where
  "writeKeyValueTree env kvStr pre = kv_tree env pre (kv_matches kvStr)"

definition writeErrorTree :: "'a log_env \<Rightarrow> string \<Rightarrow> string \<Rightarrow> bool \<Rightarrow> string" where
  "writeErrorTree env part0 pre isLast =
     (let treeSymbol = branch_symbol isLast;
          nextPrefix = pre @ (if isLast then ''    '' else bar @ ''   '');
          part = trim_chars [CHR 0x22] part0;
          node = (\<lambda>text. [CHR 0x0A] @ le_paint env errStyle pre @ le_paint env errStyle treeSymbol @ '' '' @
                    le_paint env errStyle text);
          leaf = (\<lambda>symbol text. [CHR 0x0A] @ nextPrefix @ le_paint env errStyle symbol @ '' '' @ text)
      in case bracket_match part of
           Some (msg, details) \<Rightarrow> node (trim_space msg) @ writeKeyValueTree env details nextPrefix
         | None \<Rightarrow>
             (case cut_str '': '' part of
                Some (msg, errorDetails) \<Rightarrow>
                  node (trim_space msg) @
                  (case cut_str '': '' errorDetails of
                     Some (cause, err) \<Rightarrow>
                       leaf (branch_symbol False) (le_paint env boldStyle ''Cause:'' @ '' '' @ le_paint env errStyle (trim_space cause)) @
                       leaf (branch_symbol True) (le_paint env boldStyle ''Error:'' @ '' '' @ le_paint env errStyle (trim_space err))
                   | None \<Rightarrow> leaf (branch_symbol True) (le_paint env errStyle errorDetails))
              | None \<Rightarrow> node part))"

definition extractErrorString :: "'a log_value \<Rightarrow> string" where
  "extractErrorString i = (case i of LError v \<Rightarrow> v | LString v \<Rightarrow> v | _ \<Rightarrow> [])"

fun error_parts :: "'a log_env \<Rightarrow> string list \<Rightarrow> string" where
  "error_parts env [] = []"
| "error_parts env (part # parts) =
     writeErrorTree env (trim_space part @ (if parts \<noteq> [] then '']'' else [])) [] (parts = []) @ error_parts env parts"

definition formatError :: "'a log_env \<Rightarrow> 'a log_value \<Rightarrow> string" where
  "formatError env i =
     (let errStr = extractErrorString i
      in if errStr = [] then [] else error_parts env (split_str '']: '' errStr))"

section \<open>Loggers\<close>

datatype zl_level = DebugLevel | InfoLevel | WarnLevel | ErrorLevel | FatalLevel | PanicLevel

text \<open>A console writer: the settings the package gives it. With colours it uses the formatter above.\<close>

record console_writer =
  cw_NoColor :: bool
  cw_TimeFormat :: string
  cw_PartsOrder :: "string list"
  cw_FieldsExclude :: "string list"
  cw_formatted :: bool

definition partsOrder :: "string list" where "partsOrder = [''time'', ''level'', ''caller'', ''message'']"

definition createJSONLogger :: "log_config \<Rightarrow> console_writer" where
  "createJSONLogger config =
     \<lparr>cw_NoColor = \<not> lc_Colored config, cw_TimeFormat = lc_DateTimeLayout config, cw_PartsOrder = partsOrder,
      cw_FieldsExclude = [''caller''], cw_formatted = False\<rparr>"

definition createConsoleLogger :: "log_config \<Rightarrow> console_writer" where
  "createConsoleLogger config =
     \<lparr>cw_NoColor = \<not> lc_Colored config, cw_TimeFormat = lc_DateTimeLayout config, cw_PartsOrder = partsOrder,
      cw_FieldsExclude = [], cw_formatted = lc_Colored config\<rparr>"

text \<open>
  Loggers of zerolog, of type \<open>'z\<close>: output to a writer, the fields of a context, the number of frames to skip, and
  the levels by name; \<open>'v\<close> are the levels zerolog knows. The threshold is global and part of the state of \<open>New\<close>.
\<close>

record ('z, 'v, 'a) zerolog_env =
  zo_Output :: "console_writer \<Rightarrow> 'z"
  zo_Caller :: "'z \<Rightarrow> int \<Rightarrow> 'z"
  zo_Err :: "'z \<Rightarrow> go_err option \<Rightarrow> 'z"
  zo_Interface :: "'z \<Rightarrow> string \<Rightarrow> 'a log_value \<Rightarrow> 'z"
  zo_Fields :: "'z \<Rightarrow> (string, 'a log_value) gomap \<Rightarrow> 'z"
  zo_ParseLevel :: "string \<Rightarrow> go_err + 'v"
  zo_Sprint :: "'a log_value list \<Rightarrow> string"
  zo_Sprintf :: "string \<Rightarrow> 'a log_value list \<Rightarrow> string"

record 'z zerolog =
  zl_Logger :: 'z
  zl_config :: "log_config option"

definition ErrInvalidLogLevel :: go_err where "ErrInvalidLogLevel = Sentinel ''invalid logger level''"

definition SetLevel :: "('z, 'v, 'a) zerolog_env \<Rightarrow> string \<Rightarrow> 'v \<Rightarrow> go_err option \<times> 'v" where
  "SetLevel env level threshold =
     (case zo_ParseLevel env level of
        Inl e \<Rightarrow> (Some (errors_Join [ErrInvalidLogLevel, e]), threshold)
      | Inr parsed \<Rightarrow> (None, parsed))"

text \<open>\<^verbatim>\<open>time.RFC3339\<close>\<close>

definition RFC3339 :: string where "RFC3339 = ''2006-01-02T15:04:05Z07:00''"

definition defaultLogConfig :: log_config where
  "defaultLogConfig = \<lparr>lc_Level = ''info'', lc_DateTimeLayout = RFC3339, lc_Colored = True, lc_JSONFormat = False,
     lc_UseEmoji = False\<rparr>"

definition logger_New :: "('z, 'v, 'a) zerolog_env \<Rightarrow> log_config option \<Rightarrow> 'v \<Rightarrow> (go_err + 'z zerolog) \<times> 'v" where
  "logger_New env config0 threshold =
     (let config = (case config0 of None \<Rightarrow> defaultLogConfig | Some c \<Rightarrow> c) in
      case SetLevel env (lc_Level config) threshold of
        (Some e, threshold') \<Rightarrow> (Inl e, threshold')
      | (None, threshold') \<Rightarrow>
          (let logger = zo_Output env (if lc_JSONFormat config then createJSONLogger config else createConsoleLogger config)
           in (Inr \<lparr>zl_Logger = zo_Caller env logger 3, zl_config = Some config\<rparr>, threshold')))"

text \<open>One record handed to zerolog.\<close>

record ('z, 'a) log_event =
  ev_Logger :: 'z
  ev_Level :: zl_level
  ev_Fields :: "(string \<times> 'a log_value) list"
  ev_Msg :: string

definition Success :: "'z zerolog \<Rightarrow> string \<Rightarrow> ('z, 'a) log_event" where
  "Success zl msg = \<lparr>ev_Logger = zl_Logger zl, ev_Level = InfoLevel, ev_Fields = [], ev_Msg = msg\<rparr>"

definition Failure :: "'z zerolog \<Rightarrow> string \<Rightarrow> ('z, 'a) log_event" where
  "Failure zl msg = \<lparr>ev_Logger = zl_Logger zl, ev_Level = ErrorLevel, ev_Fields = [], ev_Msg = msg\<rparr>"

definition Benchmark :: "'z zerolog \<Rightarrow> string \<Rightarrow> duration \<Rightarrow> ('z, 'a) log_event" where
  "Benchmark zl name d = \<lparr>ev_Logger = zl_Logger zl, ev_Level = DebugLevel,
     ev_Fields = [(''duration'', LString (duration_String d))], ev_Msg = ''Benchmark: '' @ name\<rparr>"

definition getStatusLevel :: "int \<Rightarrow> zl_level" where
  "getStatusLevel statusCode =
     (if 200 \<le> statusCode \<and> statusCode < 300 then InfoLevel
      else if 300 \<le> statusCode \<and> statusCode < 400 then InfoLevel
      else if 400 \<le> statusCode \<and> statusCode < 500 then WarnLevel
      else if 500 \<le> statusCode then ErrorLevel
      else InfoLevel)"

definition API ::
  "('z, 'v, 'a) zerolog_env \<Rightarrow> 'z zerolog \<Rightarrow> string \<Rightarrow> string \<Rightarrow> string \<Rightarrow> int \<Rightarrow> duration \<Rightarrow> int list \<Rightarrow> ('z, 'a) log_event"
where
  "API env zl meth path remoteAddr statusCode d skipFrameCount =
     (if meth = [] \<or> path = [] then
        \<lparr>ev_Logger = zl_Logger zl, ev_Level = ErrorLevel, ev_Fields = [(''method'', LString meth), (''path'', LString path)],
         ev_Msg = ''invalid parameters for API log''\<rparr>
      else
        (let logger = (case skipFrameCount of
               n # _ \<Rightarrow> if 0 < n then zo_Caller env (zl_Logger zl) n else zl_Logger zl
             | [] \<Rightarrow> zl_Logger zl)
         in \<lparr>ev_Logger = logger, ev_Level = getStatusLevel statusCode,
             ev_Fields = [(''method'', LString meth), (''path'', LString path), (''remote_addr'', LString remoteAddr),
               (''status'', LInt statusCode), (''duration'', LString (duration_String (duration_Round d Millisecond)))],
             ev_Msg = ''API Request''\<rparr>))"

text \<open>The order in which Go ranges over the map is the order of the list.\<close>

definition WithContext :: "('z, 'v, 'a) zerolog_env \<Rightarrow> 'z zerolog \<Rightarrow> (string, 'a log_value) gomap \<Rightarrow> 'z zerolog" where
  "WithContext env zl ctx =
     \<lparr>zl_Logger = fold (\<lambda>(k, v) event. zo_Interface env event k v) ctx (zl_Logger zl), zl_config = zl_config zl\<rparr>"

definition logger_msg :: "('z, 'v, 'a) zerolog_env \<Rightarrow> zl_level \<Rightarrow> 'z zerolog \<Rightarrow> 'a log_value list \<Rightarrow> ('z, 'a) log_event" where
  "logger_msg env level s args = \<lparr>ev_Logger = zl_Logger s, ev_Level = level, ev_Fields = [], ev_Msg = zo_Sprint env args\<rparr>"

definition logger_msgf ::
  "('z, 'v, 'a) zerolog_env \<Rightarrow> zl_level \<Rightarrow> 'z zerolog \<Rightarrow> string \<Rightarrow> 'a log_value list \<Rightarrow> ('z, 'a) log_event"
where
  "logger_msgf env level s format args =
     \<lparr>ev_Logger = zl_Logger s, ev_Level = level, ev_Fields = [], ev_Msg = zo_Sprintf env format args\<rparr>"

definition log_Debug :: "('z, 'v, 'a) zerolog_env \<Rightarrow> 'z zerolog \<Rightarrow> 'a log_value list \<Rightarrow> ('z, 'a) log_event" where
  "log_Debug env s args = logger_msg env DebugLevel s args"
definition log_Info :: "('z, 'v, 'a) zerolog_env \<Rightarrow> 'z zerolog \<Rightarrow> 'a log_value list \<Rightarrow> ('z, 'a) log_event" where
  "log_Info env s args = logger_msg env InfoLevel s args"
definition log_Warn :: "('z, 'v, 'a) zerolog_env \<Rightarrow> 'z zerolog \<Rightarrow> 'a log_value list \<Rightarrow> ('z, 'a) log_event" where
  "log_Warn env s args = logger_msg env WarnLevel s args"
definition log_Error :: "('z, 'v, 'a) zerolog_env \<Rightarrow> 'z zerolog \<Rightarrow> 'a log_value list \<Rightarrow> ('z, 'a) log_event" where
  "log_Error env s args = logger_msg env ErrorLevel s args"
definition log_Fatal :: "('z, 'v, 'a) zerolog_env \<Rightarrow> 'z zerolog \<Rightarrow> 'a log_value list \<Rightarrow> ('z, 'a) log_event" where
  "log_Fatal env s args = logger_msg env FatalLevel s args"
definition log_Panic :: "('z, 'v, 'a) zerolog_env \<Rightarrow> 'z zerolog \<Rightarrow> 'a log_value list \<Rightarrow> ('z, 'a) log_event" where
  "log_Panic env s args = logger_msg env PanicLevel s args"
definition log_Debugf :: "('z, 'v, 'a) zerolog_env \<Rightarrow> 'z zerolog \<Rightarrow> string \<Rightarrow> 'a log_value list \<Rightarrow> ('z, 'a) log_event" where
  "log_Debugf env s format args = logger_msgf env DebugLevel s format args"
definition log_Infof :: "('z, 'v, 'a) zerolog_env \<Rightarrow> 'z zerolog \<Rightarrow> string \<Rightarrow> 'a log_value list \<Rightarrow> ('z, 'a) log_event" where
  "log_Infof env s format args = logger_msgf env InfoLevel s format args"
definition log_Warnf :: "('z, 'v, 'a) zerolog_env \<Rightarrow> 'z zerolog \<Rightarrow> string \<Rightarrow> 'a log_value list \<Rightarrow> ('z, 'a) log_event" where
  "log_Warnf env s format args = logger_msgf env WarnLevel s format args"
definition log_Errorf :: "('z, 'v, 'a) zerolog_env \<Rightarrow> 'z zerolog \<Rightarrow> string \<Rightarrow> 'a log_value list \<Rightarrow> ('z, 'a) log_event" where
  "log_Errorf env s format args = logger_msgf env ErrorLevel s format args"
definition log_Fatalf :: "('z, 'v, 'a) zerolog_env \<Rightarrow> 'z zerolog \<Rightarrow> string \<Rightarrow> 'a log_value list \<Rightarrow> ('z, 'a) log_event" where
  "log_Fatalf env s format args = logger_msgf env FatalLevel s format args"
definition log_Panicf :: "('z, 'v, 'a) zerolog_env \<Rightarrow> 'z zerolog \<Rightarrow> string \<Rightarrow> 'a log_value list \<Rightarrow> ('z, 'a) log_event" where
  "log_Panicf env s format args = logger_msgf env PanicLevel s format args"

definition WithError :: "('z, 'v, 'a) zerolog_env \<Rightarrow> 'z zerolog \<Rightarrow> go_err option \<Rightarrow> 'z zerolog" where
  "WithError env s err = \<lparr>zl_Logger = zo_Err env (zl_Logger s) err, zl_config = None\<rparr>"

definition WithField :: "('z, 'v, 'a) zerolog_env \<Rightarrow> 'z zerolog \<Rightarrow> string \<Rightarrow> 'a log_value \<Rightarrow> 'z zerolog" where
  "WithField env s key v = \<lparr>zl_Logger = zo_Interface env (zl_Logger s) key v, zl_config = None\<rparr>"

definition WithFields :: "('z, 'v, 'a) zerolog_env \<Rightarrow> 'z zerolog \<Rightarrow> (string, 'a log_value) gomap \<Rightarrow> 'z zerolog" where
  "WithFields env s flds = \<lparr>zl_Logger = zo_Fields env (zl_Logger s) flds, zl_config = None\<rparr>"

section \<open>Lemmas\<close>

text \<open>A value without a comma and a line break is read up to the next separator.\<close>

lemma kv_value_step:
  assumes "CHR 0x0A \<notin> set v" and "CHR '','' \<notin> set v" and "acc @ v \<noteq> []" and "rest = [] \<or> rest = '', '' @ rest'"
  shows "kv_value acc (v @ rest) = Some (acc @ v, drop 2 rest)"
  using assms
proof (induction v arbitrary: acc)
  case Nil
  then show ?case by (cases acc) auto
next
  case (Cons c v)
  from Cons.prems have "\<not> prefix '', '' (c # v @ rest)" and "c \<noteq> CHR 0x0A" by auto
  with Cons.prems Cons.IH [of "acc @ [c]"] show ?case by simp
qed

lemma kv_at_step:
  assumes "\<forall>c \<in> set k. \<not> is_re_space c \<and> c \<noteq> CHR ''=''" and "acc @ k \<noteq> []" and "kv_value [] s = Some (v, rest)"
  shows "kv_at acc (k @ ''='' @ s) = Some (acc @ k, v, rest)"
  using assms
proof (induction k arbitrary: acc)
  case (Cons c k)
  with Cons.IH [of "acc @ [c]"] show ?case by simp
qed simp

definition plain_pair :: "string \<times> string \<Rightarrow> bool" where
  "plain_pair kv \<longleftrightarrow> fst kv \<noteq> [] \<and> snd kv \<noteq> [] \<and> (\<forall>c \<in> set (fst kv). \<not> is_re_space c \<and> c \<noteq> CHR ''='') \<and>
     CHR 0x0A \<notin> set (snd kv) \<and> CHR '','' \<notin> set (snd kv)"

lemma kv_matches_pair:
  assumes "plain_pair (k, v)" and "rest = [] \<or> rest = '', '' @ rest'"
  shows "kv_matches (k @ ''='' @ v @ rest) = (k, v) # kv_matches (drop 2 rest)"
proof -
  have "kv_value [] (v @ rest) = Some (v, drop 2 rest)"
    using kv_value_step [of v "[]" rest rest'] assms by (simp add: plain_pair_def)
  from kv_at_step [OF _ _ this, of k "[]"] assms(1) have at: "kv_at [] (k @ ''='' @ v @ rest) = Some (k, v, drop 2 rest)"
    by (simp add: plain_pair_def)
  obtain c r where "k = c # r" using assms(1) by (cases k) (auto simp: plain_pair_def)
  with at show ?thesis by (simp add: kv_matches.simps(2))
qed

text \<open>The pairs of an error's details are found again, in order.\<close>

lemma kv_matches_join:
  "list_all plain_pair kvs \<Longrightarrow> kv_matches (join '', '' (map (\<lambda>(k, v). k @ ''='' @ v) kvs)) = kvs"
proof (induction kvs)
  case (Cons kv kvs)
  obtain k v where kv: "kv = (k, v)" by force
  show ?case
  proof (cases kvs)
    case Nil
    with Cons.prems kv kv_matches_pair [of k v "[]"] show ?thesis by simp
  next
    case (Cons kv' kvs')
    let ?rest = "join '', '' (map (\<lambda>(k, v). k @ ''='' @ v) kvs)"
    have "join '', '' (map (\<lambda>(k, v). k @ ''='' @ v) (kv # kvs)) = k @ ''='' @ v @ '', '' @ ?rest"
      by (simp add: kv Cons split: prod.split)
    with kv_matches_pair [of k v "'', '' @ ?rest" ?rest] Cons.prems Cons.IH kv show ?thesis by simp
  qed
qed simp

lemma pad_right_count: "is_ascii s \<Longrightarrow> length s \<le> n \<Longrightarrow> rune_count (pad_right n s) = n"
  by (subst rune_count_ascii) (auto simp: pad_right_def is_ascii_def rune_count_ascii)

lemma pad_zeros_count: "is_ascii s \<Longrightarrow> length s \<le> n \<Longrightarrow> rune_count (pad_zeros n s) = n"
  by (subst rune_count_ascii) (auto simp: pad_zeros_def is_ascii_def rune_count_ascii)

lemma is_ascii_take: "is_ascii s \<Longrightarrow> is_ascii (take n s)"
  by (auto simp: is_ascii_def dest: in_set_takeD)

lemma is_ascii_drop: "is_ascii s \<Longrightarrow> is_ascii (drop n s)"
  by (auto simp: is_ascii_def dest: in_set_dropD)

lemma trim_chars_id: "s \<noteq> [] \<Longrightarrow> hd s \<notin> set cs \<Longrightarrow> last s \<notin> set cs \<Longrightarrow> trim_chars cs s = s"
proof -
  assume s: "s \<noteq> []" "hd s \<notin> set cs" "last s \<notin> set cs"
  have "dropWhile (\<lambda>c. c \<in> set cs) s = s" using s by (cases s) simp_all
  moreover have "dropWhile (\<lambda>c. c \<in> set cs) (rev s) = rev s" using s by (cases s rule: rev_cases) simp_all
  ultimately show ?thesis by (simp add: trim_chars_def)
qed

section \<open>Properties\<close>

text \<open>
  For ASCII texts the columns of a line have a fixed width: 65 characters for a message without line breaks, 25 for
  the file and 4 for the line number. A message that fits is kept in full, and of a long line number the
  last digits.
\<close>

lemma log_columns:
  assumes "is_ascii msg" and "is_ascii name" and "is_ascii num"
  shows "rune_count (message_column msg) = 65 \<and> (length msg \<le> 65 \<longrightarrow> prefix msg (message_column msg)) \<and>
    rune_count (formatFileName name) = 25 \<and> rune_count (formatLineNumber num) = 4 \<and>
    (length num \<le> 4 \<longrightarrow> suffix num (formatLineNumber num))"
proof -
  have name: "is_ascii (trim_suffix name ''.go'')"
    using assms(2) by (auto simp: trim_suffix_def intro: is_ascii_take)
  have "rune_count (message_column msg) = 65"
    using assms(1) by (auto simp: message_column_def maxMessageSize_def pad_right_count rune_count_ascii is_ascii_take)
  moreover have "rune_count (formatFileName name) = 25"
    using name by (auto simp: formatFileName_def maxFileSize_def Let_def pad_right_count rune_count_ascii is_ascii_take)
  moreover have "rune_count (formatLineNumber num) = 4"
    using assms(3) by (auto simp: formatLineNumber_def maxLineSize_def pad_zeros_count rune_count_ascii is_ascii_drop)
  moreover have "length msg \<le> 65 \<longrightarrow> prefix msg (message_column msg)"
    by (simp add: message_column_def maxMessageSize_def pad_right_def)
  moreover have "length num \<le> 4 \<longrightarrow> suffix num (formatLineNumber num)"
    by (auto simp: formatLineNumber_def maxLineSize_def pad_zeros_def suffix_def)
  ultimately show ?thesis by blast
qed

text \<open>The cut of a long message counts bytes and can leave half of a character at the end.\<close>

lemma message_cut_inside:
  "last (message_column (replicate 64 (CHR ''a'') @ [CHR 0xC3, CHR 0xA9])) = CHR 0xC3"
  by (simp add: message_column_def maxMessageSize_def eval_nat_numeral)

text \<open>
  An error with details, msg[k1=v1, ..., kn=vn], is printed as a node for the message with one branch below it for each
  pair, in order and none left out, the last one closed by a corner; whatever the colours and the caser are.
\<close>

lemma error_details_tree:
  assumes "msg \<noteq> []" and "CHR ''['' \<notin> set msg" and "hd msg \<noteq> CHR 0x22" and "kvs \<noteq> []" and "list_all plain_pair kvs"
  shows "writeErrorTree env (msg @ ''['' @ join '', '' (map (\<lambda>(k, v). k @ ''='' @ v) kvs) @ '']'') pre isLast =
    [CHR 0x0A] @ le_paint env errStyle pre @ le_paint env errStyle (branch_symbol isLast) @ '' '' @
      le_paint env errStyle (trim_space msg) @
    concat (map (\<lambda>(i, kv). kv_node env (pre @ (if isLast then ''    '' else bar @ ''   ''))
      (branch_symbol (Suc i = length kvs)) kv) (enumerate 0 kvs))"
proof -
  let ?details = "join '', '' (map (\<lambda>(k, v). k @ ''='' @ v) kvs)"
  let ?part = "msg @ ''['' @ ?details @ '']''"
  have trim: "trim_chars [CHR 0x22] ?part = ?part"
    by (rule trim_chars_id) (use assms(1,3) in simp_all)
  have "CHR 0x0A \<notin> set ?details" using assms(5)
  proof (induction kvs)
    case (Cons kv kvs)
    then show ?case
      by (cases kvs; cases kv) (auto simp: plain_pair_def is_re_space_def split: prod.splits)
  qed simp
  moreover have "?details \<noteq> []"
    using assms(4) by (cases kvs; cases "tl kvs") (auto split: prod.splits)
  ultimately have bracket: "bracket_match ?part = Some (msg, ?details)"
    using assms(1,2) by (cases ?details) (simp_all add: bracket_match_def butlast_append)
  have tree: "kv_tree env pre' kvs =
      concat (map (\<lambda>(i, kv). kv_node env pre' (branch_symbol (Suc i = m + length kvs)) kv) (enumerate m kvs))" for pre' m kvs
  proof (induction kvs arbitrary: m)
    case (Cons kv kvs)
    show ?case using Cons.IH [of "Suc m"] by auto
  qed simp
  show ?thesis
    unfolding writeErrorTree_def Let_def trim bracket option.case prod.case writeKeyValueTree_def
      kv_matches_join [OF assms(5)] tree [of _ _ 0] by simp
qed

theorem error_details_tree_witness:
  "\<exists>env :: unit log_env. writeErrorTree env ''lost[host=a, port=1]'' [] True =
     [CHR 0x0A] @ branch_symbol True @ '' lost'' @
     [CHR 0x0A] @ ''    '' @ branch_symbol False @ '' host: a'' @ [CHR 0x0A] @ ''    '' @ branch_symbol True @ '' port: 1''"
proof -
  let ?env = "\<lparr>le_paint = (\<lambda>_ s. s), le_sprint = (\<lambda>_. []), le_quote = id, le_float2 = (\<lambda>_. []), le_lower = id, le_title = id,
    le_ParseRFC3339 = (\<lambda>_. None), le_Format = (\<lambda>_ s. s)\<rparr> :: unit log_env"
  have "list_all plain_pair [(''host'', ''a''), (''port'', ''1'')]" by (simp add: plain_pair_def is_re_space_def)
  from error_details_tree [OF _ _ _ _ this, of "''lost''" ?env "[]" True]
  have "writeErrorTree ?env ''lost[host=a, port=1]'' [] True = [CHR 0x0A] @ branch_symbol True @ '' lost'' @
     [CHR 0x0A] @ ''    '' @ branch_symbol False @ '' host: a'' @ [CHR 0x0A] @ ''    '' @ branch_symbol True @ '' port: 1''"
    by (simp add: kv_node_def Let_def trim_space_visible visible_ascii_def)
  then show ?thesis by blast
qed

text \<open>
  A logger is built exactly when its level is one zerolog knows, which then becomes the threshold; otherwise the error
  wraps ErrInvalidLogLevel and the threshold stays as it was.
\<close>

lemma new_logger_level:
  "case logger_New env config threshold of
     (Inl e, t) \<Rightarrow> (\<exists>e'. zo_ParseLevel env (lc_Level (case config of None \<Rightarrow> defaultLogConfig | Some c \<Rightarrow> c)) = Inl e') \<and>
       errors_is e ErrInvalidLogLevel \<and> t = threshold
   | (Inr zl, t) \<Rightarrow> zo_ParseLevel env (lc_Level (case config of None \<Rightarrow> defaultLogConfig | Some c \<Rightarrow> c)) = Inr t \<and>
       zl_config zl = Some (case config of None \<Rightarrow> defaultLogConfig | Some c \<Rightarrow> c)"
  by (auto simp: logger_New_def SetLevel_def Let_def split: sum.splits)

text \<open>
  An API record is an error without method or path, and otherwise an error from status 500 on, a warning for 4xx, and
  information for the rest, with the rounded duration.
\<close>

lemma api_record:
  "ev_Level (API env zl meth path addr status d skip) =
     (if meth = [] \<or> path = [] \<or> 500 \<le> status then ErrorLevel else if 400 \<le> status then WarnLevel else InfoLevel)"
  "meth \<noteq> [] \<Longrightarrow> path \<noteq> [] \<Longrightarrow>
     map_of (ev_Fields (API env zl meth path addr status d skip)) ''duration'' =
       Some (LString (duration_String (duration_Round d Millisecond)))"
  by (simp_all add: API_def getStatusLevel_def Let_def)

end
