(* ===== verification/ZerologPkg.thy ===== *)
theory ZerologPkg
  imports LogFormat
begin

text \<open>
  Package \<^verbatim>\<open>logger/zerolog\<close> (\<^verbatim>\<open>src/logger/zerolog/formatter.go\<close>, \<^verbatim>\<open>helper.go\<close>, \<^verbatim>\<open>logger.go\<close>, \<^verbatim>\<open>zerolog.go\<close>), a second
  implementation of the logger next to package \<^verbatim>\<open>logger\<close>. It is translated statement by statement: a \<^verbatim>\<open>strings.Builder\<close> is
  threaded through the functions that write to it, loops carry their index, and a slice is filled by assignment
  to its elements. The theorem at the end shows that the two packages write the same output and build the
  same loggers. The configuration, the loggers and the records are the types of theory \<open>LogFormat\<close>.
\<close>

section \<open>Columns\<close>

definition zp_formatUnknownLevel :: "'a log_env \<Rightarrow> log_config \<Rightarrow> string" where
  "zp_formatUnknownLevel env config =
     (let emoji = [];
          emoji = (if lc_UseEmoji config then question @ '' '' else emoji)
      in le_paint env [FgHiWhite] ('' '' @ emoji @ ''UNKN ''))"

definition zp_formatLevel :: "'a log_env \<Rightarrow> log_config \<Rightarrow> 'a log_value \<Rightarrow> string" where
  "zp_formatLevel env config i =
     (case i of
        LString levelStr \<Rightarrow>
          (case map_of logLevels levelStr of
             Some level \<Rightarrow> le_paint env (ll_Color level) ('' '' @ ll_Text level @ '' '')
           | None \<Rightarrow> zp_formatUnknownLevel env config)
      | _ \<Rightarrow> zp_formatUnknownLevel env config)"

text \<open>The loop over the lines; \<open>formatted\<close> has as many elements as there are lines.\<close>

fun zp_fill_lines :: "'a log_env \<Rightarrow> nat \<Rightarrow> string list \<Rightarrow> string list \<Rightarrow> string list" where
  "zp_fill_lines env i [] formatted = formatted"
| "zp_fill_lines env i (line # lines) formatted =
     zp_fill_lines env (Suc i) lines (formatted[i := le_paint env messageColor (bar @ '' '' @ line)])"

definition zp_formatMultilineMessage :: "'a log_env \<Rightarrow> string \<Rightarrow> string" where
  "zp_formatMultilineMessage env msg =
     (let lines = split_on (CHR 0x0A) msg;
          formatted = replicate (length lines) []
      in join [CHR 0x0A] (zp_fill_lines env 0 lines formatted))"

definition zp_formatMessage :: "'a log_env \<Rightarrow> 'a log_value \<Rightarrow> string" where
  "zp_formatMessage env i =
     (case i of
        LString msg \<Rightarrow>
          if length msg = 0 then le_paint env messageColor (bar @ '' (empty message)'')
          else if CHR 0x0A \<in> set msg then zp_formatMultilineMessage env msg
          else (let msg = (if maxMessageSize < length msg then take maxMessageSize msg else pad_right maxMessageSize msg)
                in le_paint env messageColor (bar @ '' '' @ msg))
      | _ \<Rightarrow> le_paint env messageColor (bar @ '' (empty message)''))"

definition zp_formatFileName :: "string \<Rightarrow> string" where
  "zp_formatFileName name =
     (let f = trim_suffix name ''.go''
      in if maxFileSize < length f then take maxFileSize f else pad_right maxFileSize f)"

definition zp_formatLineNumber :: "string \<Rightarrow> string" where
  "zp_formatLineNumber line =
     (if maxLineSize < length line then drop (length line - maxLineSize) line else pad_zeros maxLineSize line)"

definition zp_formatCaller :: "'a log_env \<Rightarrow> 'a log_value \<Rightarrow> string" where
  "zp_formatCaller env i =
     (case i of
        LString fname \<Rightarrow>
          if length fname = 0 then []
          else
            (let caller = path_Base fname;
                 parts = split_on (CHR '':'') caller
             in if length parts \<noteq> 2 then le_paint env callerColor (tee_left @ '' '' @ caller @ '' '' @ tee_right)
                else (let f = zp_formatFileName (parts ! 0); line = zp_formatLineNumber (parts ! 1)
                      in le_paint env callerColor (tee_left @ '' '' @ f @ '':'' @ line @ '' '' @ tee_right)))
      | _ \<Rightarrow> [])"

definition zp_formatTimestamp :: "'a log_env \<Rightarrow> log_config \<Rightarrow> 'a log_value \<Rightarrow> string" where
  "zp_formatTimestamp env config i =
     (case i of
        LString strTime \<Rightarrow>
          (case le_ParseRFC3339 env strTime of
             None \<Rightarrow> le_paint env timestampColor (''[ '' @ strTime @ '' ]'')
           | Some ts \<Rightarrow>
               (let formatted = le_Format env ts (lc_DateTimeLayout config)
                in le_paint env timestampColor (''[ '' @ formatted @ '' ]'')))
      | v \<Rightarrow> le_paint env timestampColor (''[ '' @ le_sprint env v @ '' ]''))"

definition zp_formatFieldName :: "'a log_env \<Rightarrow> 'a log_value \<Rightarrow> string" where
  "zp_formatFieldName env i = (case i of LString name \<Rightarrow> le_paint env fieldKeyColor name | v \<Rightarrow> le_sprint env v)"

definition zp_formatFieldValue :: "'a log_env \<Rightarrow> 'a log_value \<Rightarrow> string" where
  "zp_formatFieldValue env i =
     (case i of
        LString v \<Rightarrow>
          if \<exists>c \<in> {CHR '' '', CHR 0x09, CHR 0x0A, CHR 0x0D, CHR 0x22, CHR 0x27}. c \<in> set v
          then ''='' @ le_paint env fieldValColor (le_quote env v)
          else ''='' @ le_paint env fieldValColor v
      | LInt n \<Rightarrow> le_paint env fieldValColor (''='' @ le_sprint env (LInt n))
      | LFloat x \<Rightarrow> le_paint env fieldValColor (''='' @ le_float2 env x)
      | LBool b \<Rightarrow> if b then ''='' @ le_paint env [FgHiGreen] ''true'' else ''='' @ le_paint env [FgHiRed] ''false''
      | LNil \<Rightarrow> ''='' @ le_paint env [FgHiBlack] ''null''
      | v \<Rightarrow> le_paint env fieldValColor (''='' @ le_sprint env v))"

section \<open>The tree of an error\<close>

text \<open>The two nested loops of \<open>writeKeyValueTree\<close>; \<open>sb\<close> is what the builder holds.\<close>

fun zp_value_lines :: "'a log_env \<Rightarrow> string \<Rightarrow> string \<Rightarrow> string \<Rightarrow> nat \<Rightarrow> string list \<Rightarrow> string \<Rightarrow> string" where
  "zp_value_lines env pre treeSymbol key j [] sb = sb"
| "zp_value_lines env pre treeSymbol key j (line # lines) sb =
     (let symbol = treeSymbol;
          symbol = (if 0 < j then bar @ ''   '' else symbol);
          sb = sb @ [CHR 0x0A] @ pre @ le_paint env errStyle symbol @ '' '' @ le_paint env boldStyle key @ '': '' @
            le_paint env errStyle line
      in zp_value_lines env pre treeSymbol key (Suc j) lines sb)"

fun zp_pairs :: "'a log_env \<Rightarrow> string \<Rightarrow> nat \<Rightarrow> nat \<Rightarrow> (string \<times> string) list \<Rightarrow> string \<Rightarrow> string" where
  "zp_pairs env pre n i [] sb = sb"
| "zp_pairs env pre n i (match # matches) sb =
     (let treeSymbol = tee_right @ dash @ dash;
          treeSymbol = (if Suc i = n then corner @ dash @ dash else treeSymbol);
          key = le_title env (le_lower env (map (\<lambda>c. if c = CHR ''_'' then CHR '' '' else c) (trim_space (fst match))));
          value = trim_space (snd match);
          valueLines = split_on (CHR 0x0A) value
      in zp_pairs env pre n (Suc i) matches (zp_value_lines env pre treeSymbol key 0 valueLines sb))"

definition zp_writeKeyValueTree :: "'a log_env \<Rightarrow> string \<Rightarrow> string \<Rightarrow> string \<Rightarrow> string" where
  "zp_writeKeyValueTree env sb kvStr pre =
     (let matches = kv_matches kvStr in zp_pairs env pre (length matches) 0 matches sb)"

definition zp_writeErrorTree :: "'a log_env \<Rightarrow> string \<Rightarrow> string \<Rightarrow> string \<Rightarrow> bool \<Rightarrow> string" where
  "zp_writeErrorTree env sb part0 pre isLast =
     (let treeSymbol = (if isLast then corner @ dash @ dash else tee_right @ dash @ dash);
          nextPrefix = (if isLast then pre @ ''    '' else pre @ bar @ ''   '');
          part = trim_chars [CHR 0x22] part0
      in case bracket_match part of
           Some (m1, m2) \<Rightarrow>
             (let sb = sb @ [CHR 0x0A] @ le_paint env errStyle pre @ le_paint env errStyle treeSymbol @ '' '' @
                    le_paint env errStyle (trim_space m1)
              in zp_writeKeyValueTree env sb m2 nextPrefix)
         | None \<Rightarrow>
             (case cut_str '': '' part of
                Some (sub0, errorDetails) \<Rightarrow>
                  (let sb = sb @ [CHR 0x0A] @ le_paint env errStyle pre @ le_paint env errStyle treeSymbol @ '' '' @
                         le_paint env errStyle (trim_space sub0)
                   in case cut_str '': '' errorDetails of
                        Some (detail0, detail1) \<Rightarrow>
                          (let sb = sb @ [CHR 0x0A] @ nextPrefix @ le_paint env errStyle (tee_right @ dash @ dash) @ '' '' @
                                 le_paint env boldStyle ''Cause:'' @ '' '' @ le_paint env errStyle (trim_space detail0)
                           in sb @ [CHR 0x0A] @ nextPrefix @ le_paint env errStyle (corner @ dash @ dash) @ '' '' @
                                le_paint env boldStyle ''Error:'' @ '' '' @ le_paint env errStyle (trim_space detail1))
                      | None \<Rightarrow>
                          sb @ [CHR 0x0A] @ nextPrefix @ le_paint env errStyle (corner @ dash @ dash) @ '' '' @
                            le_paint env errStyle errorDetails)
              | None \<Rightarrow>
                  sb @ [CHR 0x0A] @ le_paint env errStyle pre @ le_paint env errStyle treeSymbol @ '' '' @
                    le_paint env errStyle part))"

definition zp_extractErrorString :: "'a log_value \<Rightarrow> string" where
  "zp_extractErrorString i = (case i of LError v \<Rightarrow> v | LString v \<Rightarrow> v | _ \<Rightarrow> [])"

fun zp_parts :: "'a log_env \<Rightarrow> nat \<Rightarrow> nat \<Rightarrow> string list \<Rightarrow> string \<Rightarrow> string" where
  "zp_parts env n idx [] result = result"
| "zp_parts env n idx (part # parts) result =
     (let part = trim_space part;
          part = (if Suc idx < n then part @ '']'' else part);
          isLast = (Suc idx = n)
      in zp_parts env n (Suc idx) parts (zp_writeErrorTree env result part [] isLast))"

definition zp_formatError :: "'a log_env \<Rightarrow> 'a log_value \<Rightarrow> string" where
  "zp_formatError env i =
     (let errStr = zp_extractErrorString i in
      if errStr = [] then []
      else (let parts = split_str '']: '' errStr in zp_parts env (length parts) 0 parts []))"

section \<open>Loggers\<close>

text \<open>The writer with colours gets its formatting functions by assignment to its fields.\<close>

definition zp_createJSONLogger :: "log_config \<Rightarrow> console_writer" where
  "zp_createJSONLogger config =
     \<lparr>cw_NoColor = \<not> lc_Colored config, cw_TimeFormat = lc_DateTimeLayout config,
      cw_PartsOrder = [''time'', ''level'', ''caller'', ''message''], cw_FieldsExclude = [''caller''], cw_formatted = False\<rparr>"

definition zp_createConsoleLogger :: "log_config \<Rightarrow> console_writer" where
  "zp_createConsoleLogger config =
     (let writer = \<lparr>cw_NoColor = \<not> lc_Colored config, cw_TimeFormat = lc_DateTimeLayout config,
            cw_PartsOrder = [''time'', ''level'', ''caller'', ''message''], cw_FieldsExclude = [], cw_formatted = False\<rparr>
      in if lc_Colored config then writer\<lparr>cw_formatted := True\<rparr> else writer)"

text \<open>Here the level is parsed, and the global threshold set, inside \<open>New\<close>.\<close>

definition zp_New :: "('z, 'v, 'a) zerolog_env \<Rightarrow> log_config option \<Rightarrow> 'v \<Rightarrow> (go_err + 'z zerolog) \<times> 'v" where
  "zp_New env config0 threshold =
     (let config = (case config0 of
            None \<Rightarrow> \<lparr>lc_Level = ''info'', lc_DateTimeLayout = RFC3339, lc_Colored = True, lc_JSONFormat = False, lc_UseEmoji = False\<rparr>
          | Some c \<Rightarrow> c)
      in case zo_ParseLevel env (lc_Level config) of
           Inl err \<Rightarrow> (Inl (errors_Join [ErrInvalidLogLevel, err]), threshold)
         | Inr logMode \<Rightarrow>
             (let threshold = logMode;
                  logger = (if lc_JSONFormat config then zo_Output env (zp_createJSONLogger config)
                            else zo_Output env (zp_createConsoleLogger config));
                  logger = zo_Caller env logger 3
              in (Inr \<lparr>zl_Logger = logger, zl_config = Some config\<rparr>, threshold)))"

definition zp_Success :: "'z zerolog \<Rightarrow> string \<Rightarrow> ('z, 'a) log_event" where
  "zp_Success zl msg = \<lparr>ev_Logger = zl_Logger zl, ev_Level = InfoLevel, ev_Fields = [], ev_Msg = msg\<rparr>"

definition zp_Failure :: "'z zerolog \<Rightarrow> string \<Rightarrow> ('z, 'a) log_event" where
  "zp_Failure zl msg = \<lparr>ev_Logger = zl_Logger zl, ev_Level = ErrorLevel, ev_Fields = [], ev_Msg = msg\<rparr>"

definition zp_Benchmark :: "'z zerolog \<Rightarrow> string \<Rightarrow> duration \<Rightarrow> ('z, 'a) log_event" where
  "zp_Benchmark zl name d =
     (let msg = ''Benchmark:''
      in \<lparr>ev_Logger = zl_Logger zl, ev_Level = DebugLevel, ev_Fields = [(''duration'', LString (duration_String d))],
          ev_Msg = msg @ '' '' @ name\<rparr>)"

definition zp_getStatusLevel :: "int \<Rightarrow> zl_level" where
  "zp_getStatusLevel statusCode =
     (if statusCode \<ge> 200 \<and> statusCode < 300 then InfoLevel
      else if statusCode \<ge> 300 \<and> statusCode < 400 then InfoLevel
      else if statusCode \<ge> 400 \<and> statusCode < 500 then WarnLevel
      else if statusCode \<ge> 500 then ErrorLevel
      else InfoLevel)"

definition zp_API ::
  "('z, 'v, 'a) zerolog_env \<Rightarrow> 'z zerolog \<Rightarrow> string \<Rightarrow> string \<Rightarrow> string \<Rightarrow> int \<Rightarrow> duration \<Rightarrow> int list \<Rightarrow> ('z, 'a) log_event"
where
  "zp_API env zl meth path remoteAddr statusCode d skipFrameCount =
     (if meth = [] \<or> path = [] then
        \<lparr>ev_Logger = zl_Logger zl, ev_Level = ErrorLevel, ev_Fields = [(''method'', LString meth), (''path'', LString path)],
         ev_Msg = ''invalid parameters for API log''\<rparr>
      else
        (let logger = zl_Logger zl;
             logger = (if 0 < length skipFrameCount \<and> 0 < skipFrameCount ! 0
                       then zo_Caller env logger (skipFrameCount ! 0) else logger);
             message = ''API Request'';
             formattedDuration = duration_String (duration_Round d Millisecond)
         in \<lparr>ev_Logger = logger, ev_Level = zp_getStatusLevel statusCode,
             ev_Fields = [(''method'', LString meth), (''path'', LString path), (''remote_addr'', LString remoteAddr),
               (''status'', LInt statusCode), (''duration'', LString formattedDuration)],
             ev_Msg = message\<rparr>))"

fun zp_context_fields :: "('z, 'v, 'a) zerolog_env \<Rightarrow> (string, 'a log_value) gomap \<Rightarrow> 'z \<Rightarrow> 'z" where
  "zp_context_fields env [] event = event"
| "zp_context_fields env ((k, v) # ctx) event = zp_context_fields env ctx (zo_Interface env event k v)"

definition zp_WithContext :: "('z, 'v, 'a) zerolog_env \<Rightarrow> 'z zerolog \<Rightarrow> (string, 'a log_value) gomap \<Rightarrow> 'z zerolog" where
  "zp_WithContext env zl ctx = \<lparr>zl_Logger = zp_context_fields env ctx (zl_Logger zl), zl_config = zl_config zl\<rparr>"

definition zp_Debug :: "('z, 'v, 'a) zerolog_env \<Rightarrow> 'z zerolog \<Rightarrow> 'a log_value list \<Rightarrow> ('z, 'a) log_event" where
  "zp_Debug env s args = \<lparr>ev_Logger = zl_Logger s, ev_Level = DebugLevel, ev_Fields = [], ev_Msg = zo_Sprint env args\<rparr>"
definition zp_Info :: "('z, 'v, 'a) zerolog_env \<Rightarrow> 'z zerolog \<Rightarrow> 'a log_value list \<Rightarrow> ('z, 'a) log_event" where
  "zp_Info env s args = \<lparr>ev_Logger = zl_Logger s, ev_Level = InfoLevel, ev_Fields = [], ev_Msg = zo_Sprint env args\<rparr>"
definition zp_Warn :: "('z, 'v, 'a) zerolog_env \<Rightarrow> 'z zerolog \<Rightarrow> 'a log_value list \<Rightarrow> ('z, 'a) log_event" where
  "zp_Warn env s args = \<lparr>ev_Logger = zl_Logger s, ev_Level = WarnLevel, ev_Fields = [], ev_Msg = zo_Sprint env args\<rparr>"
definition zp_Error :: "('z, 'v, 'a) zerolog_env \<Rightarrow> 'z zerolog \<Rightarrow> 'a log_value list \<Rightarrow> ('z, 'a) log_event" where
  "zp_Error env s args = \<lparr>ev_Logger = zl_Logger s, ev_Level = ErrorLevel, ev_Fields = [], ev_Msg = zo_Sprint env args\<rparr>"
definition zp_Fatal :: "('z, 'v, 'a) zerolog_env \<Rightarrow> 'z zerolog \<Rightarrow> 'a log_value list \<Rightarrow> ('z, 'a) log_event" where
  "zp_Fatal env s args = \<lparr>ev_Logger = zl_Logger s, ev_Level = FatalLevel, ev_Fields = [], ev_Msg = zo_Sprint env args\<rparr>"
definition zp_Panic :: "('z, 'v, 'a) zerolog_env \<Rightarrow> 'z zerolog \<Rightarrow> 'a log_value list \<Rightarrow> ('z, 'a) log_event" where
  "zp_Panic env s args = \<lparr>ev_Logger = zl_Logger s, ev_Level = PanicLevel, ev_Fields = [], ev_Msg = zo_Sprint env args\<rparr>"

definition zp_Debugf :: "('z, 'v, 'a) zerolog_env \<Rightarrow> 'z zerolog \<Rightarrow> string \<Rightarrow> 'a log_value list \<Rightarrow> ('z, 'a) log_event" where
  "zp_Debugf env s format args = \<lparr>ev_Logger = zl_Logger s, ev_Level = DebugLevel, ev_Fields = [], ev_Msg = zo_Sprintf env format args\<rparr>"
definition zp_Infof :: "('z, 'v, 'a) zerolog_env \<Rightarrow> 'z zerolog \<Rightarrow> string \<Rightarrow> 'a log_value list \<Rightarrow> ('z, 'a) log_event" where
  "zp_Infof env s format args = \<lparr>ev_Logger = zl_Logger s, ev_Level = InfoLevel, ev_Fields = [], ev_Msg = zo_Sprintf env format args\<rparr>"
definition zp_Warnf :: "('z, 'v, 'a) zerolog_env \<Rightarrow> 'z zerolog \<Rightarrow> string \<Rightarrow> 'a log_value list \<Rightarrow> ('z, 'a) log_event" where
  "zp_Warnf env s format args = \<lparr>ev_Logger = zl_Logger s, ev_Level = WarnLevel, ev_Fields = [], ev_Msg = zo_Sprintf env format args\<rparr>"
definition zp_Errorf :: "('z, 'v, 'a) zerolog_env \<Rightarrow> 'z zerolog \<Rightarrow> string \<Rightarrow> 'a log_value list \<Rightarrow> ('z, 'a) log_event" where
  "zp_Errorf env s format args = \<lparr>ev_Logger = zl_Logger s, ev_Level = ErrorLevel, ev_Fields = [], ev_Msg = zo_Sprintf env format args\<rparr>"
definition zp_Fatalf :: "('z, 'v, 'a) zerolog_env \<Rightarrow> 'z zerolog \<Rightarrow> string \<Rightarrow> 'a log_value list \<Rightarrow> ('z, 'a) log_event" where
  "zp_Fatalf env s format args = \<lparr>ev_Logger = zl_Logger s, ev_Level = FatalLevel, ev_Fields = [], ev_Msg = zo_Sprintf env format args\<rparr>"
definition zp_Panicf :: "('z, 'v, 'a) zerolog_env \<Rightarrow> 'z zerolog \<Rightarrow> string \<Rightarrow> 'a log_value list \<Rightarrow> ('z, 'a) log_event" where
  "zp_Panicf env s format args = \<lparr>ev_Logger = zl_Logger s, ev_Level = PanicLevel, ev_Fields = [], ev_Msg = zo_Sprintf env format args\<rparr>"

definition zp_WithError :: "('z, 'v, 'a) zerolog_env \<Rightarrow> 'z zerolog \<Rightarrow> go_err option \<Rightarrow> 'z zerolog" where
  "zp_WithError env s err = \<lparr>zl_Logger = zo_Err env (zl_Logger s) err, zl_config = None\<rparr>"

definition zp_WithField :: "('z, 'v, 'a) zerolog_env \<Rightarrow> 'z zerolog \<Rightarrow> string \<Rightarrow> 'a log_value \<Rightarrow> 'z zerolog" where
  "zp_WithField env s key v = \<lparr>zl_Logger = zo_Interface env (zl_Logger s) key v, zl_config = None\<rparr>"

definition zp_WithFields :: "('z, 'v, 'a) zerolog_env \<Rightarrow> 'z zerolog \<Rightarrow> (string, 'a log_value) gomap \<Rightarrow> 'z zerolog" where
  "zp_WithFields env s flds = \<lparr>zl_Logger = zo_Fields env (zl_Logger s) flds, zl_config = None\<rparr>"

section \<open>Equivalence with package logger\<close>

lemma fill_lines_upto:
  "i + length lines = length formatted \<Longrightarrow>
   zp_fill_lines env i lines formatted = take i formatted @ map (\<lambda>line. le_paint env messageColor (bar @ '' '' @ line)) lines"
proof (induction lines arbitrary: i formatted)
  case (Cons line lines)
  then have "i < length formatted" by simp
  then have "take (Suc i) (formatted[i := x]) = take i formatted @ [x]" for x
    by (simp add: take_Suc_conv_app_nth)
  with Cons show ?case by simp
qed simp

lemma zp_formatMessage_eq: "zp_formatMessage env i = formatMessage env i"
proof -
  have "zp_formatMultilineMessage env msg = formatMultilineMessage env msg" for msg
    by (simp add: zp_formatMultilineMessage_def formatMultilineMessage_def Let_def fill_lines_upto)
  then show ?thesis
    by (simp add: zp_formatMessage_def formatMessage_def message_column_def Let_def split: log_value.split)
qed

lemma zp_formatLevel_eq: "zp_formatLevel env config i = formatLevel env config i"
  by (simp add: zp_formatLevel_def formatLevel_def zp_formatUnknownLevel_def formatUnknownLevel_def Let_def
      split: log_value.split option.split)

lemma length_2_conv: "length xs = 2 \<longleftrightarrow> (\<exists>a b. xs = [a, b])"
  by (cases xs; cases "tl xs") auto

lemma zp_formatCaller_eq: "zp_formatCaller env i = formatCaller env i"
proof (cases i)
  case (LString fname)
  have "zp_formatFileName = formatFileName" "zp_formatLineNumber = formatLineNumber"
    by (simp_all add: fun_eq_iff zp_formatFileName_def formatFileName_def zp_formatLineNumber_def formatLineNumber_def)
  with LString show ?thesis
    by (auto simp: zp_formatCaller_def formatCaller_def Let_def length_2_conv split: list.split)
qed (simp_all add: zp_formatCaller_def formatCaller_def)

lemma zp_formatTimestamp_eq: "zp_formatTimestamp env config i = formatTimestamp env config i"
  by (simp add: zp_formatTimestamp_def formatTimestamp_def Let_def split: log_value.split option.split)

lemma zp_formatField_eq:
  "zp_formatFieldName env i = formatFieldName env i" "zp_formatFieldValue env i = formatFieldValue env i"
  by (auto simp: zp_formatFieldName_def formatFieldName_def zp_formatFieldValue_def formatFieldValue_def split: log_value.split)

text \<open>The builder only grows: what the loops append is what package logger concatenates.\<close>

lemma value_lines_append:
  "zp_value_lines env pre symb key j lines sb = sb @ concat (map (\<lambda>(j, line).
     [CHR 0x0A] @ pre @ le_paint env errStyle (if 0 < j then bar @ ''   '' else symb) @ '' '' @
     le_paint env boldStyle key @ '': '' @ le_paint env errStyle line) (enumerate j lines))"
  by (induction lines arbitrary: j sb) (simp_all add: Let_def)

lemma pairs_append:
  "n = i + length kvs \<Longrightarrow> zp_pairs env pre n i kvs sb = sb @ kv_tree env pre kvs"
proof (induction kvs arbitrary: i sb)
  case (Cons kv kvs)
  then have "Suc i = n \<longleftrightarrow> kvs = []" by auto
  moreover have "n = Suc i + length kvs" using Cons.prems by simp
  ultimately show ?case
    using Cons.IH [of "Suc i"] by (simp add: Let_def value_lines_append kv_node_def branch_symbol_def)
qed simp

lemma zp_writeErrorTree_append: "zp_writeErrorTree env sb part pre isLast = sb @ writeErrorTree env part pre isLast"
  by (simp add: zp_writeErrorTree_def writeErrorTree_def zp_writeKeyValueTree_def writeKeyValueTree_def pairs_append
      branch_symbol_def Let_def split: option.split prod.split)

lemma parts_append: "n = i + length parts \<Longrightarrow> zp_parts env n i parts sb = sb @ error_parts env parts"
proof (induction parts arbitrary: i sb)
  case (Cons part parts)
  then have "Suc i = n \<longleftrightarrow> parts = []" "Suc i < n \<longleftrightarrow> parts \<noteq> []" by (cases parts; simp)+
  moreover have "n = Suc i + length parts" using Cons.prems by simp
  ultimately show ?case
    using Cons.IH [of "Suc i"] by (simp add: Let_def zp_writeErrorTree_append)
qed simp

lemma zp_formatError_eq: "zp_formatError env i = formatError env i"
  by (simp add: zp_formatError_def formatError_def zp_extractErrorString_def extractErrorString_def Let_def parts_append
      split: log_value.split)

lemma zp_New_eq: "zp_New zenv config t = logger_New zenv config t"
proof -
  have "zp_createJSONLogger = createJSONLogger" "zp_createConsoleLogger = createConsoleLogger"
    by (simp_all add: fun_eq_iff zp_createJSONLogger_def createJSONLogger_def zp_createConsoleLogger_def createConsoleLogger_def
        partsOrder_def Let_def)
  then show ?thesis
    by (cases config) (simp_all add: zp_New_def logger_New_def SetLevel_def defaultLogConfig_def Let_def split: sum.split)
qed

lemma zp_API_eq: "zp_API zenv zl meth path addr status d skip = API zenv zl meth path addr status d skip"
  by (cases skip) (simp_all add: zp_API_def API_def zp_getStatusLevel_def getStatusLevel_def)

lemma zp_WithContext_eq: "zp_WithContext zenv zl ctx = WithContext zenv zl ctx"
proof -
  have "zp_context_fields zenv ctx z = fold (\<lambda>(k, v) event. zo_Interface zenv event k v) ctx z" for z
    by (induction ctx arbitrary: z) auto
  then show ?thesis by (simp add: zp_WithContext_def WithContext_def)
qed


end
