(* ===== verification/Temporal.thy ===== *)
theory Temporal
  imports Prelude "HOL-Library.Word"
begin

text \<open>
  Package \<^verbatim>\<open>temporal\<close> (\<^verbatim>\<open>src/temporal/client.go\<close>, \<^verbatim>\<open>options.go\<close>, \<^verbatim>\<open>config.go\<close>): dialling a Temporal server and the options of an
  activity. A retry policy is shared by pointer, so policies live in a store and the options hold addresses; the SDK
  is a parameter.
\<close>

section \<open>The client\<close>

definition ErrEmptyHost :: go_err where "ErrEmptyHost = Sentinel ''temporal host cannot be empty''"
definition ErrEmptyNamespace :: go_err where "ErrEmptyNamespace = Sentinel ''temporal namespace cannot be empty''"

record temporal_config =
  tp_Host :: string
  tp_Port :: "16 word"
  tp_Namespace :: string
  tp_TaskQueue :: string

text \<open>\<open>net.JoinHostPort\<close>: a host with a colon is an IPv6 address and goes into brackets.\<close>

definition JoinHostPort :: "string \<Rightarrow> string \<Rightarrow> string" where
  "JoinHostPort host port =
     (if CHR '':'' \<in> set host then ''['' @ host @ '']:'' @ port else host @ '':'' @ port)"

text \<open>\<open>dial\<close> is \<^verbatim>\<open>client.Dial\<close> with the address and the namespace of its options.\<close>

definition NewClient :: "(string \<Rightarrow> string \<Rightarrow> go_err + 'c) \<Rightarrow> string \<Rightarrow> string \<Rightarrow> 16 word \<Rightarrow> go_err + 'c" where
  "NewClient dial namespace host port =
     (if host = [] then Inl ErrEmptyHost
      else if namespace = [] then Inl ErrEmptyNamespace
      else dial (JoinHostPort host (format_nat (unat port))) namespace)"

section \<open>Activity options\<close>

text \<open>The back-off coefficient is kept as a rational.\<close>

record retry_policy =
  rp_InitialInterval :: duration
  rp_MaximumInterval :: duration
  rp_BackoffCoefficient :: rat
  rp_MaximumAttempts :: "32 word"

type_synonym policies = "nat \<rightharpoonup> retry_policy"

record activity_options =
  ao_TaskQueue :: string
  ao_StartToCloseTimeout :: duration
  ao_ScheduleToCloseTimeout :: duration
  ao_RetryPolicy :: "nat option"

definition defaultMaxAttempts :: "32 word" where "defaultMaxAttempts = 3"
definition defaultInitialInterval :: duration where "defaultInitialInterval = 5 * Second"
definition defaultMaximumInterval :: duration where "defaultMaximumInterval = Minute"
definition defaultBackoffCoefficient :: rat where "defaultBackoffCoefficient = 2"
definition defaultStartToClose :: duration where "defaultStartToClose = 1 * Hour"

text \<open>An option changes the options and, through the pointer they hold, the store.\<close>

type_synonym activity_option = "activity_options \<times> policies \<Rightarrow> (activity_options \<times> policies) outcome"

definition WithTaskQueue :: "string \<Rightarrow> activity_option" where
  "WithTaskQueue taskQueue = (\<lambda>(o', ps). Returns (o'\<lparr>ao_TaskQueue := taskQueue\<rparr>, ps))"

definition WithStartToCloseTimeout :: "duration \<Rightarrow> activity_option" where
  "WithStartToCloseTimeout d = (\<lambda>(o', ps). Returns (o'\<lparr>ao_StartToCloseTimeout := d\<rparr>, ps))"

definition WithScheduleToCloseTimeout :: "duration \<Rightarrow> activity_option" where
  "WithScheduleToCloseTimeout d = (\<lambda>(o', ps). Returns (o'\<lparr>ao_ScheduleToCloseTimeout := d\<rparr>, ps))"

definition WithMaximumAttempts :: "32 word \<Rightarrow> activity_option" where
  "WithMaximumAttempts n = (\<lambda>(o', ps).
     case ao_RetryPolicy o' of
       None \<Rightarrow> Panics
     | Some p \<Rightarrow> (case ps p of None \<Rightarrow> Panics | Some pol \<Rightarrow> Returns (o', ps(p \<mapsto> pol\<lparr>rp_MaximumAttempts := n\<rparr>))))"

definition WithRetryPolicy :: "nat option \<Rightarrow> activity_option" where
  "WithRetryPolicy p = (\<lambda>(o', ps). Returns (o'\<lparr>ao_RetryPolicy := p\<rparr>, ps))"

fun apply_options :: "activity_option list \<Rightarrow> activity_options \<times> policies \<Rightarrow> (activity_options \<times> policies) outcome" where
  "apply_options [] s = Returns s"
| "apply_options (opt # opts) s = and_then (opt s) (apply_options opts)"

definition default_policy :: retry_policy where
  "default_policy = \<lparr>rp_InitialInterval = defaultInitialInterval, rp_MaximumInterval = defaultMaximumInterval,
     rp_BackoffCoefficient = defaultBackoffCoefficient, rp_MaximumAttempts = defaultMaxAttempts\<rparr>"

text \<open>\<open>fresh\<close> is the address the allocator gives the new policy.\<close>

definition DefaultActivityOpts :: "nat \<Rightarrow> activity_option list \<Rightarrow> policies \<Rightarrow> (activity_options \<times> policies) outcome" where
  "DefaultActivityOpts fresh opts ps =
     apply_options opts
       (\<lparr>ao_TaskQueue = [], ao_StartToCloseTimeout = defaultStartToClose, ao_ScheduleToCloseTimeout = 0,
         ao_RetryPolicy = Some fresh\<rparr>, ps(fresh \<mapsto> default_policy))"

section \<open>Properties\<close>

text \<open>The options by name, to state which combinations are safe.\<close>

datatype option_call = TaskQueue string | StartToClose duration | ScheduleToClose duration | MaximumAttempts "32 word"
  | RetryPolicy "nat option"

fun option_of :: "option_call \<Rightarrow> activity_option" where
  "option_of (TaskQueue q) = WithTaskQueue q"
| "option_of (StartToClose d) = WithStartToCloseTimeout d"
| "option_of (ScheduleToClose d) = WithScheduleToCloseTimeout d"
| "option_of (MaximumAttempts n) = WithMaximumAttempts n"
| "option_of (RetryPolicy p) = WithRetryPolicy p"

lemmas option_defs = WithTaskQueue_def WithStartToCloseTimeout_def WithScheduleToCloseTimeout_def WithMaximumAttempts_def
  WithRetryPolicy_def

definition keeps_policy :: "option_call \<Rightarrow> bool" where
  "keeps_policy c = (case c of RetryPolicy _ \<Rightarrow> False | _ \<Rightarrow> True)"

text \<open>What the options mean: the last call for a field decides.\<close>

definition queue_of :: "option_call list \<Rightarrow> string" where
  "queue_of cs = fold (\<lambda>c q. case c of TaskQueue q' \<Rightarrow> q' | _ \<Rightarrow> q) cs []"

definition start_of :: "option_call list \<Rightarrow> duration" where
  "start_of cs = fold (\<lambda>c d. case c of StartToClose d' \<Rightarrow> d' | _ \<Rightarrow> d) cs (1 * Hour)"

definition attempts_of :: "option_call list \<Rightarrow> 32 word" where
  "attempts_of cs = fold (\<lambda>c n. case c of MaximumAttempts n' \<Rightarrow> n' | _ \<Rightarrow> n) cs 3"

lemma apply_options_own:
  assumes "list_all keeps_policy cs" and "ao_RetryPolicy o' = Some p" and "ps p = Some pol"
  shows "\<exists>o'' ps'. apply_options (map option_of cs) (o', ps) = Returns (o'', ps') \<and> ao_RetryPolicy o'' = Some p \<and>
    ao_TaskQueue o'' = fold (\<lambda>c q. case c of TaskQueue q' \<Rightarrow> q' | _ \<Rightarrow> q) cs (ao_TaskQueue o') \<and>
    ao_StartToCloseTimeout o'' = fold (\<lambda>c d. case c of StartToClose d' \<Rightarrow> d' | _ \<Rightarrow> d) cs (ao_StartToCloseTimeout o') \<and>
    ps' p = Some (pol\<lparr>rp_MaximumAttempts := fold (\<lambda>c n. case c of MaximumAttempts n' \<Rightarrow> n' | _ \<Rightarrow> n) cs (rp_MaximumAttempts pol)\<rparr>) \<and>
    (\<forall>q. q \<noteq> p \<longrightarrow> ps' q = ps q)"
  using assms
proof (induction cs arbitrary: o' ps pol)
  case (Cons c cs)
  show ?case
  proof (cases c)
    case (TaskQueue q)
    with Cons.prems Cons.IH [of "o'\<lparr>ao_TaskQueue := q\<rparr>" ps pol] show ?thesis by (simp add: option_defs)
  next
    case (StartToClose d)
    with Cons.prems Cons.IH [of "o'\<lparr>ao_StartToCloseTimeout := d\<rparr>" ps pol] show ?thesis by (simp add: option_defs)
  next
    case (ScheduleToClose d)
    with Cons.prems Cons.IH [of "o'\<lparr>ao_ScheduleToCloseTimeout := d\<rparr>" ps pol] show ?thesis by (simp add: option_defs)
  next
    case (MaximumAttempts n)
    let ?pol = "pol\<lparr>rp_MaximumAttempts := n\<rparr>"
    have step: "apply_options (map option_of (c # cs)) (o', ps) = apply_options (map option_of cs) (o', ps(p \<mapsto> ?pol))"
      using MaximumAttempts Cons.prems by (simp add: option_defs)
    have "\<forall>q. q \<noteq> p \<longrightarrow> (ps(p \<mapsto> ?pol)) q = ps q" by simp
    with Cons.IH [of o' "ps(p \<mapsto> ?pol)" ?pol] Cons.prems show ?thesis
      unfolding step by (simp del: fun_upd_apply add: MaximumAttempts fun_upd_same)
  next
    case (RetryPolicy r)
    with Cons.prems show ?thesis by (simp add: keeps_policy_def)
  qed
qed simp



text \<open>With a policy of the caller, the attempts are written into that policy; with a nil policy they panic.\<close>

lemma attempts_write_through:
  assumes "ps p = Some pol" and "p \<noteq> fresh"
  shows "\<exists>o' ps'. DefaultActivityOpts fresh [WithRetryPolicy (Some p), WithMaximumAttempts n] ps = Returns (o', ps') \<and>
      ps' p = Some (pol\<lparr>rp_MaximumAttempts := n\<rparr>)"
    and "DefaultActivityOpts fresh [WithRetryPolicy None, WithMaximumAttempts n] ps = Panics"
  using assms by (simp_all add: DefaultActivityOpts_def option_defs)

text \<open>The address that is dialled can be read back: the port is what follows the last colon.\<close>

lemma dialled_address:
  assumes "host \<noteq> []" and "namespace \<noteq> []"
  shows "NewClient dial namespace host port = dial (JoinHostPort host (format_nat (unat port))) namespace"
    and "CHR '':'' \<notin> set host \<Longrightarrow> cut (CHR '':'') (JoinHostPort host p) = Some (host, p)"
  using assms by (simp_all add: NewClient_def JoinHostPort_def)

end
