(* ===== verification/Telemetry.thy ===== *)
theory Telemetry
  imports Prelude "HOL-Library.Word"
begin

text \<open>
  Package \<^verbatim>\<open>telemetry\<close> (\<^verbatim>\<open>src/telemetry/telemetry.go\<close>, \<^verbatim>\<open>trace.go\<close>, \<^verbatim>\<open>metrics.go\<close>, \<^verbatim>\<open>collector.go\<close>): the start of tracing and metrics and
  the function that stops them. OpenTelemetry, Prometheus, net/http and the collectors are parameters; what the
  package does is the sequence of its calls on them.
\<close>

section \<open>Calls\<close>

datatype exporter_option = WithInsecure | WithEndpoint string

datatype telemetry_call =
    NewExporter "exporter_option list" | NewResource string | NewTracerProvider string
  | NewRegistry | NewPrometheusExporter | NewMeterProvider
  | SetTracerProvider | SetMeterProvider | SetPropagator "string list"
  | RegisterMetrics nat | StartCollector nat
  | ListenMetrics string | ShutdownServer | ShutdownMeter | ShutdownTracer

text \<open>A collector is known by a number; \<open>None\<close> is a nil entry of the list.\<close>

record telemetry_config =
  tl_ServiceName :: string
  tl_OTLPEndpoint :: string
  tl_MetricsPort :: "16 word"
  tl_Collectors :: "nat option list"

text \<open>Whether a call fails, from the calls made before it; only some of them report an error.\<close>

type_synonym answers = "telemetry_call list \<Rightarrow> telemetry_call \<Rightarrow> go_err option"

section \<open>Operations\<close>

definition newTracerProvider :: "answers \<Rightarrow> telemetry_config \<Rightarrow> telemetry_call list \<Rightarrow> go_err option \<times> telemetry_call list" where
  "newTracerProvider ans cfg tr =
     (let opts = [WithInsecure] @ (if tl_OTLPEndpoint cfg \<noteq> [] then [WithEndpoint (tl_OTLPEndpoint cfg)] else []);
          tr1 = tr @ [NewExporter opts]
      in case ans tr (NewExporter opts) of
           Some e \<Rightarrow> (Some (Wrapped ''otlp trace exporter: %w'' [e]), tr1)
         | None \<Rightarrow>
             (let tr2 = tr1 @ [NewResource (tl_ServiceName cfg)] in
              case ans tr1 (NewResource (tl_ServiceName cfg)) of
                Some e \<Rightarrow> (Some (Wrapped ''otel resource: %w'' [e]), tr2)
              | None \<Rightarrow> (None, tr2 @ [NewTracerProvider (tl_ServiceName cfg)])))"

definition newMeterProvider :: "answers \<Rightarrow> telemetry_call list \<Rightarrow> go_err option \<times> telemetry_call list" where
  "newMeterProvider ans tr =
     (let tr1 = tr @ [NewRegistry]; tr2 = tr1 @ [NewPrometheusExporter] in
      case ans tr1 NewPrometheusExporter of
        Some e \<Rightarrow> (Some e, tr2)
      | None \<Rightarrow> (None, tr2 @ [NewMeterProvider]))"

fun start_collectors :: "answers \<Rightarrow> nat option list \<Rightarrow> telemetry_call list \<Rightarrow> telemetry_call list" where
  "start_collectors ans [] tr = tr"
| "start_collectors ans (None # cs) tr = start_collectors ans cs tr"
| "start_collectors ans (Some c # cs) tr =
     (case ans tr (RegisterMetrics c) of
        Some _ \<Rightarrow> start_collectors ans cs (tr @ [RegisterMetrics c])
      | None \<Rightarrow> start_collectors ans cs (tr @ [RegisterMetrics c, StartCollector c]))"

text \<open>The error, the calls the returned shutdown function makes, and the calls made.\<close>

definition telemetry_New :: "answers \<Rightarrow> telemetry_config \<Rightarrow> go_err option \<times> telemetry_call list \<times> telemetry_call list" where
  "telemetry_New ans cfg =
     (case newTracerProvider ans cfg [] of
        (Some e, tr) \<Rightarrow> (Some (Wrapped ''telemetry: tracer provider: %w'' [e]), [], tr)
      | (None, tr) \<Rightarrow>
          (case newMeterProvider ans tr of
             (Some e, tr1) \<Rightarrow> (Some (Wrapped ''telemetry: meter provider: %w'' [e]), [], tr1 @ [ShutdownTracer])
           | (None, tr1) \<Rightarrow>
               (let tr2 = tr1 @ [SetTracerProvider, SetMeterProvider, SetPropagator [''tracecontext'', ''baggage'']];
                    tr3 = start_collectors ans (tl_Collectors cfg) tr2;
                    addr = '':'' @ format_nat (unat (tl_MetricsPort cfg))
                in (None, [ShutdownServer, ShutdownMeter, ShutdownTracer], tr3 @ [ListenMetrics addr]))))"

section \<open>Properties\<close>

definition registrations :: "telemetry_call list \<Rightarrow> nat list" where
  "registrations tr = concat (map (\<lambda>c. case c of RegisterMetrics n \<Rightarrow> [n] | _ \<Rightarrow> []) tr)"

lemma registrations_simps [simp]:
  "registrations [] = []" "registrations (tr @ tr') = registrations tr @ registrations tr'"
  "registrations (RegisterMetrics n # tr) = n # registrations tr" "registrations (StartCollector n # tr) = registrations tr"
  by (simp_all add: registrations_def)

text \<open>
  The calls on the collectors after the calls \<open>tr\<close>: a registration is followed directly by the start of its collector
  exactly when it succeeded, and there is no other start.
\<close>

definition collectors_ok :: "answers \<Rightarrow> telemetry_call list \<Rightarrow> telemetry_call list \<Rightarrow> bool" where
  "collectors_ok ans tr ext \<longleftrightarrow> (\<forall>i < length ext.
     case ext ! i of
       RegisterMetrics n \<Rightarrow> (ans (tr @ take i ext) (RegisterMetrics n) = None \<longleftrightarrow> Suc i < length ext \<and> ext ! Suc i = StartCollector n)
     | StartCollector n \<Rightarrow> 0 < i \<and> ext ! (i - 1) = RegisterMetrics n
     | _ \<Rightarrow> False)"

lemma collectors_ok_hd: "collectors_ok ans tr ext \<Longrightarrow> ext \<noteq> [] \<Longrightarrow> ext ! 0 \<noteq> StartCollector n"
  by (force simp: collectors_ok_def)

lemma collectors_ok_failed:
  assumes "ans tr (RegisterMetrics n) = Some e" and "collectors_ok ans (tr @ [RegisterMetrics n]) ext"
  shows "collectors_ok ans tr (RegisterMetrics n # ext)"
  unfolding collectors_ok_def
proof (intro allI impI)
  fix i assume "i < length (RegisterMetrics n # ext)"
  then show "case (RegisterMetrics n # ext) ! i of
       RegisterMetrics m \<Rightarrow> (ans (tr @ take i (RegisterMetrics n # ext)) (RegisterMetrics m) = None \<longleftrightarrow>
         Suc i < length (RegisterMetrics n # ext) \<and> (RegisterMetrics n # ext) ! Suc i = StartCollector m)
     | StartCollector m \<Rightarrow> 0 < i \<and> (RegisterMetrics n # ext) ! (i - 1) = RegisterMetrics m
     | _ \<Rightarrow> False"
    using assms collectors_ok_hd [OF assms(2)]
    by (cases i) (auto simp: collectors_ok_def nth_Cons' split: telemetry_call.splits)
qed

lemma collectors_ok_started:
  assumes "ans tr (RegisterMetrics n) = None" and "collectors_ok ans (tr @ [RegisterMetrics n, StartCollector n]) ext"
  shows "collectors_ok ans tr (RegisterMetrics n # StartCollector n # ext)"
  unfolding collectors_ok_def
proof (intro allI impI)
  let ?ext = "RegisterMetrics n # StartCollector n # ext"
  fix i assume i: "i < length ?ext"
  show "case ?ext ! i of
       RegisterMetrics m \<Rightarrow> (ans (tr @ take i ?ext) (RegisterMetrics m) = None \<longleftrightarrow>
         Suc i < length ?ext \<and> ?ext ! Suc i = StartCollector m)
     | StartCollector m \<Rightarrow> 0 < i \<and> ?ext ! (i - 1) = RegisterMetrics m
     | _ \<Rightarrow> False"
  proof (cases i)
    case 0
    with assms(1) show ?thesis by simp
  next
    case (Suc j)
    with i assms show ?thesis
      by (cases j) (auto simp: collectors_ok_def nth_Cons' split: telemetry_call.splits)
  qed
qed

lemma start_collectors_run:
  "\<exists>ext. start_collectors ans cs tr = tr @ ext \<and> registrations ext = map the (filter (\<lambda>c. c \<noteq> None) cs) \<and>
     collectors_ok ans tr ext"
proof (induction ans cs tr rule: start_collectors.induct)
  case (1 ans tr)
  then show ?case by (simp add: collectors_ok_def)
next
  case (3 ans c cs tr)
  show ?case
  proof (cases "ans tr (RegisterMetrics c)")
    case None
    with 3 obtain ext where "start_collectors ans cs (tr @ [RegisterMetrics c, StartCollector c]) =
        (tr @ [RegisterMetrics c, StartCollector c]) @ ext" "registrations ext = map the (filter (\<lambda>c. c \<noteq> None) cs)"
      "collectors_ok ans (tr @ [RegisterMetrics c, StartCollector c]) ext" by blast
    with None collectors_ok_started [of ans tr c ext] show ?thesis
      by (intro exI [of _ "RegisterMetrics c # StartCollector c # ext"]) simp
  next
    case (Some err)
    with 3 obtain ext where "start_collectors ans cs (tr @ [RegisterMetrics c]) = (tr @ [RegisterMetrics c]) @ ext"
      "registrations ext = map the (filter (\<lambda>c. c \<noteq> None) cs)" "collectors_ok ans (tr @ [RegisterMetrics c]) ext" by blast
    with Some collectors_ok_failed [of ans tr c err ext] show ?thesis
      by (intro exI [of _ "RegisterMetrics c # ext"]) simp
  qed
qed simp


text \<open>When the resource cannot be made, the exporter that was opened before it stays open.\<close>

lemma exporter_left_open:
  assumes "\<And>tr opts. ans tr (NewExporter opts) = None" and "\<And>tr. ans tr (NewResource (tl_ServiceName cfg)) = Some e"
  shows "\<exists>err opts. telemetry_New ans cfg = (Some err, [], [NewExporter opts, NewResource (tl_ServiceName cfg)])"
  using assms by (simp add: telemetry_New_def newTracerProvider_def Let_def)

end
