(* ===== verification/CliPrint.thy ===== *)
theory CliPrint
  imports GoText
begin

text \<open>
  The banner and header of package \<^verbatim>\<open>cli\<close> (\<^verbatim>\<open>src/cli/print.go\<close>): what is printed and slept, in order, and the reading of the
  distribution, host and kernel names. The file system, the commands, the colours and the banner fonts are parameters.
\<close>

section \<open>Definitions\<close>

definition separator :: string where "separator = replicate 60 (CHR ''-'')"

definition fonts :: "string list" where "fonts = [''lean'', ''larry3d'', ''nipples'', ''doom'', ''graffiti'']"

definition ErrEmptyFontsList :: go_err where "ErrEmptyFontsList = Sentinel ''fonts list is empty''"
definition ErrOSReleaseNotFound :: go_err where "ErrOSReleaseNotFound = Sentinel ''/etc/os-release not found''"
definition ErrReadOSReleaseFailed :: go_err where "ErrReadOSReleaseFailed = Sentinel ''failed to read /etc/os-release''"
definition ErrDistributionNotFound :: go_err where
  "ErrDistributionNotFound = Sentinel ''distribution name not found in /etc/os-release''"
definition ErrHostnameFailed :: go_err where "ErrHostnameFailed = Sentinel ''failed to get hostname''"
definition ErrKernelVersionFailed :: go_err where "ErrKernelVersionFailed = Sentinel ''failed to get kernel version''"

text \<open>What the functions read and call; \<open>cp_IsNotExist\<close> is \<^verbatim>\<open>os.IsNotExist\<close>, \<open>cp_Intn\<close> the random choice of a font.\<close>

record print_env =
  cp_ReadFile :: "string \<Rightarrow> go_err + string"
  cp_IsNotExist :: "go_err \<Rightarrow> bool"
  cp_Hostname :: "go_err + string"
  cp_uname :: "go_err + string"
  cp_GOOS :: string
  cp_GOARCH :: string
  cp_NumCPU :: nat
  cp_Intn :: "nat \<Rightarrow> nat"
  cp_boldGreen :: "string \<Rightarrow> string"
  cp_boldCyan :: "string \<Rightarrow> string"

datatype print_effect = Figure string string | PrintOut string | Println | SleepFor duration

text \<open>The loop of \<open>delayedPrint\<close> ranges over characters; a byte that is none is printed as U+FFFD.\<close>

function characters :: "string \<Rightarrow> string list" where
  "characters [] = []"
| "characters (c # s) =
     (let w = rune_width (c # s)
      in if w = 0 then [CHR 0xEF, CHR 0xBF, CHR 0xBD] # characters s
         else take w (c # s) # characters (drop (w - 1) s))"
  by pat_completeness auto
termination by (relation "measure length") auto

definition delayedPrint :: "string \<Rightarrow> bool \<Rightarrow> duration list \<Rightarrow> print_effect list" where
  "delayedPrint text delayed delay =
     (let d = (case delay of x # _ \<Rightarrow> x | [] \<Rightarrow> 2 * Millisecond)
      in concat (map (\<lambda>ch. PrintOut ch # (if delayed then [SleepFor d] else [])) (characters text)) @ [Println])"

definition printSeparator :: "print_effect list" where "printSeparator = delayedPrint separator False []"

definition PrintBanner :: "print_env \<Rightarrow> string \<Rightarrow> go_err option \<times> print_effect list" where
  "PrintBanner env appName =
     (if length fonts = 0 then (Some ErrEmptyFontsList, [])
      else (None, Figure appName (fonts ! cp_Intn env (length fonts)) # printSeparator))"

definition PrintText :: "print_env \<Rightarrow> string \<Rightarrow> print_effect list" where
  "PrintText env text = delayedPrint (cp_boldCyan env text) False []"

fun distribution_lines :: "string list \<Rightarrow> go_err + string" where
  "distribution_lines [] = Inl ErrDistributionNotFound"
| "distribution_lines (line # lines) =
     (if prefix ''NAME='' line
      then (let name = trim_chars [CHR 0x22] (drop 5 line) in if name = [] then Inl ErrDistributionNotFound else Inr name)
      else distribution_lines lines)"

definition getLinuxDistribution :: "print_env \<Rightarrow> go_err + string" where
  "getLinuxDistribution env =
     (case cp_ReadFile env ''/etc/os-release'' of
        Inl err \<Rightarrow> if cp_IsNotExist env err then Inl ErrOSReleaseNotFound
                   else Inl (Wrapped ''%w: %w'' [ErrReadOSReleaseFailed, err])
      | Inr content \<Rightarrow> distribution_lines (split_on (CHR 0x0A) content))"

definition getHostname :: "print_env \<Rightarrow> go_err + string" where
  "getHostname env =
     (case cp_Hostname env of Inl err \<Rightarrow> Inl (Wrapped ''%w: %w'' [ErrHostnameFailed, err]) | Inr host \<Rightarrow> Inr host)"

definition getKernelVersion :: "print_env \<Rightarrow> go_err + string" where
  "getKernelVersion env =
     (case cp_uname env of
        Inl err \<Rightarrow> Inl (Wrapped ''%w: %w'' [ErrKernelVersionFailed, err])
      | Inr out \<Rightarrow> (let version = trim_space out in if version = [] then Inl ErrKernelVersionFailed else Inr version))"

text \<open>The last three lines of the header are printed only when their value could be read.\<close>

definition optional_line :: "string \<Rightarrow> go_err + string \<Rightarrow> string list" where
  "optional_line label r = (case r of Inl _ \<Rightarrow> [] | Inr v \<Rightarrow> [label @ v])"

definition header_lines :: "print_env \<Rightarrow> string \<Rightarrow> string list" where
  "header_lines env content =
     [content, ''S.O.: '' @ cp_GOOS env, ''Architecture: '' @ cp_GOARCH env,
      ''Available CPUs: '' @ format_nat (cp_NumCPU env)] @
     optional_line ''S.O Dist.: '' (getLinuxDistribution env) @ optional_line ''Hostname: '' (getHostname env) @
     optional_line ''Kernel version: '' (getKernelVersion env)"

definition PrintHeader :: "print_env \<Rightarrow> string \<Rightarrow> print_effect list" where
  "PrintHeader env content =
     printSeparator @
     concat (map (\<lambda>line. delayedPrint (cp_boldGreen env line) False []) (header_lines env content)) @
     printSeparator"

section \<open>Properties\<close>

text \<open>Printing ASCII text writes exactly that text.\<close>

definition written :: "print_effect list \<Rightarrow> string" where
  "written effs = concat (map (\<lambda>e. case e of PrintOut s \<Rightarrow> s | Println \<Rightarrow> [CHR 0x0A] | _ \<Rightarrow> []) effs)"

lemma written_append [simp]: "written (a @ b) = written a @ written b" by (simp add: written_def)

lemma characters_ascii: "is_ascii s \<Longrightarrow> characters s = map (\<lambda>c. [c]) s"
  by (induction s) (simp_all add: is_ascii_def rune_width_ascii)

lemma delayed_print_written: "is_ascii s \<Longrightarrow> written (delayedPrint s delayed delay) = s @ [CHR 0x0A]"
proof -
  have "written (concat (map (\<lambda>ch. PrintOut ch # (if delayed then [SleepFor d] else [])) (map (\<lambda>c. [c]) s))) = s" for d
    by (induction s) (simp_all add: written_def)
  then show "is_ascii s \<Longrightarrow> ?thesis"
    by (simp add: delayedPrint_def Let_def characters_ascii) (simp add: written_def)
qed

lemma trim_quotes:
  assumes "name \<noteq> []" and "hd name \<noteq> q" and "last name \<noteq> q"
  shows "trim_chars [q] ([q] @ name @ [q]) = name"
proof -
  have "dropWhile (\<lambda>c. c \<in> set [q]) ([q] @ name @ [q]) = name @ [q]" using assms by (cases name) simp_all
  moreover have "dropWhile (\<lambda>c. c \<in> set [q]) (rev (name @ [q])) = rev name" using assms by (cases name rule: rev_cases) simp_all
  ultimately show ?thesis by (simp only: trim_chars_def rev_rev_ident)
qed

text \<open>
  The name of the distribution is read from the first line that starts with NAME=, without its quotes, whatever follows;
  a missing or empty name is an error, and so is a file that cannot be read.
\<close>

lemma distribution_read:
  assumes "cp_ReadFile env ''/etc/os-release'' = Inr (join [CHR 0x0A] (before @ [''NAME='' @ [CHR 0x22] @ name @ [CHR 0x22]] @ after))"
    and "\<forall>l \<in> set (before @ after). CHR 0x0A \<notin> set l" and "\<forall>l \<in> set before. \<not> prefix ''NAME='' l"
    and "CHR 0x0A \<notin> set name" and "name \<noteq> []" and "hd name \<noteq> CHR 0x22" and "last name \<noteq> CHR 0x22"
  shows "getLinuxDistribution env = Inr name"
proof -
  let ?line = "''NAME='' @ [CHR 0x22] @ name @ [CHR 0x22]"
  have "split_on (CHR 0x0A) (join [CHR 0x0A] (before @ [?line] @ after)) = before @ [?line] @ after"
    using assms(2,4) by (intro split_on_join) auto
  moreover have "trim_chars [CHR 0x22] ([CHR 0x22] @ name @ [CHR 0x22]) = name"
    by (rule trim_quotes [OF assms(5-7)])
  moreover have "distribution_lines (before @ [?line] @ after) = distribution_lines ([?line] @ after)"
    using assms(3) by (induction before) auto
  ultimately show ?thesis using assms(1,5) by (simp add: getLinuxDistribution_def)
qed

end
