(* ===== verification/Spec2Isabelle.thy ===== *)
theory Spec2Isabelle
  imports Retry HttpClient Application Pagination TokenManager Secure Fcm Progress
    ConfigLoader Healthcheck HttpServer Spreadsheet Database Migrate ZerologPkg Temporal Telemetry CliPrint
begin

text \<open>
  A verification development for \<^verbatim>\<open>gobox\<close>, a Go library of building blocks for services.

  \<^bold>\<open>The program.\<close> Package \<^verbatim>\<open>oidcauth\<close> verifies access tokens: \<^verbatim>\<open>OIDC.Verify\<close> checks a JWT against the
  issuer's keys, asks the issuer through the \<^verbatim>\<open>Introspector\<close> whether the token is still active, and may
  keep the claims in a \<^verbatim>\<open>MemoryCache\<close>. \<^verbatim>\<open>SessionManager\<close> keeps tokens on the server behind a session id and
  refreshes them under a lock of the \<^verbatim>\<open>SessionStore\<close>; \<^verbatim>\<open>Flow\<close> drives the code flow. The middlewares of
  \<^verbatim>\<open>httpserver/middlewares\<close> put these in front of routes: \<^verbatim>\<open>Authorization\<close> takes a bearer token or a session
  cookie and calls a \<^verbatim>\<open>TokenVerifier\<close> (an \<^verbatim>\<open>OIDC\<close> or a \<^verbatim>\<open>SessionManager\<close>), \<^verbatim>\<open>RequireRole\<close> reads the claims it
  stored, \<^verbatim>\<open>CSRF\<close>, \<^verbatim>\<open>CORS\<close> and the rate limiter guard the request, and the \<^verbatim>\<open>Auth\<close> handlers log users in
  and out. All of them answer through \<^verbatim>\<open>httpserver/respond\<close> and run on the engine of \<^verbatim>\<open>httpserver/gin.go\<close>. Beside these
  stand the configuration loader with its watcher, health checks, database connections and migrations, the HTTP
  client with its retries, the OAuth2 token manager, pagination, spreadsheets, AES-GCM encryption, FCM messaging,
  logging, telemetry, the options of the Temporal client, and the terminal output of \<^verbatim>\<open>cli\<close>.

  \<^bold>\<open>Theories and sources.\<close>
  \<^item> \<^verbatim>\<open>Prelude\<close>: what the components share of Go: 64-bit wrap-around on \<^typ>\<open>int\<close> (linked to 64-bit words),
    durations and instants in nanoseconds, error values with \<^verbatim>\<open>errors.Is\<close>, functions of package \<^verbatim>\<open>strings\<close>,
    paths, outcomes with panics, maps as association lists. \<^verbatim>\<open>GoText\<close>: UTF-8, padding, splitting, the rounding and printing of
    durations. \<^verbatim>\<open>Encoding\<close>: the URL and base64 codecs of the standard library with their round trips.
    \<^verbatim>\<open>Steps\<close>: invariants and runs of a step relation, weak fairness, and the rules by which an action that is taken once, or again and again,
    brings its goal about.
  \<^item> \<^verbatim>\<open>Retry\<close> (\<^verbatim>\<open>retry/retry.go\<close>) and \<^verbatim>\<open>HttpClient\<close> (\<^verbatim>\<open>httpclient/client.go\<close>): the back-off and the retry loop
    over closures that carry a state; \<^verbatim>\<open>WithRetry\<close> as the closures the source gives to the loop; request construction.
  \<^item> \<^verbatim>\<open>Claims\<close> (\<^verbatim>\<open>types.go\<close>, \<^verbatim>\<open>helper.go\<close>), \<^verbatim>\<open>MemoryCache\<close> (\<^verbatim>\<open>cache.go\<close>), \<^verbatim>\<open>Introspector\<close> (\<^verbatim>\<open>introspection.go\<close>),
    \<^verbatim>\<open>Oidc\<close> and \<^verbatim>\<open>VerifierCache\<close> (\<^verbatim>\<open>oidc.go\<close>, alone and under interleaved calls), \<^verbatim>\<open>Session\<close> (\<^verbatim>\<open>session.go\<close>, \<^verbatim>\<open>session_manager.go\<close>,
    \<^verbatim>\<open>cleanup.go\<close> and the in-memory store of \<^verbatim>\<open>session_manager_test.go\<close>), \<^verbatim>\<open>SessionSpec\<close> (the abstract session table the manager implements), \<^verbatim>\<open>Requests\<close>
    (requests that resolve sessions at the same time, cut at their calls of the store and the issuer), \<^verbatim>\<open>Flow\<close> (\<^verbatim>\<open>flow.go\<close>): package \<^verbatim>\<open>oidcauth\<close>.
  \<^item> \<^verbatim>\<open>Respond\<close> (\<^verbatim>\<open>respond.go\<close>, \<^verbatim>\<open>error_resolver.go\<close>), \<^verbatim>\<open>Authorization\<close> (\<^verbatim>\<open>authorization.go\<close>, \<^verbatim>\<open>csrf.go\<close>), \<^verbatim>\<open>Cors\<close>
    (\<^verbatim>\<open>cors.go\<close>, \<^verbatim>\<open>rate_limit.go\<close>), \<^verbatim>\<open>AuthHandlers\<close> (\<^verbatim>\<open>middlewares/oidcauth.go\<close>), \<^verbatim>\<open>HttpServer\<close> (\<^verbatim>\<open>gin.go\<close>,
    \<^verbatim>\<open>download_file.go\<close>): package \<^verbatim>\<open>httpserver\<close>. A handler is a function from the request to the list of its effects on the gin
    context. \<^verbatim>\<open>Routes\<close> puts the two verifiers of \<^verbatim>\<open>oidcauth\<close> in the place the middlewares ask for one, and
    \<^verbatim>\<open>Chain\<close> composes the middlewares in front of a handler. \<^verbatim>\<open>Application\<close> puts the login handlers and the chain together: a
    browser that logs in, sends requests and logs out.
  \<^item> \<^verbatim>\<open>ConfigLoader\<close> (\<^verbatim>\<open>config/viper.go\<close>), \<^verbatim>\<open>Healthcheck\<close> (\<^verbatim>\<open>healthcheck/check.go\<close>), \<^verbatim>\<open>Database\<close> (\<^verbatim>\<open>database/gorm/\<close>,
    \<^verbatim>\<open>database/sql/\<close>), \<^verbatim>\<open>Migrate\<close> (\<^verbatim>\<open>database/migrate/\<close>), \<^verbatim>\<open>Spreadsheet\<close> (\<^verbatim>\<open>spreadsheet/excelize.go\<close>).
  \<^item> \<^verbatim>\<open>TokenManager\<close> (\<^verbatim>\<open>oauth2/token_manager.go\<close>), \<^verbatim>\<open>Pagination\<close> (\<^verbatim>\<open>pagination/\<close>), \<^verbatim>\<open>Secure\<close> (\<^verbatim>\<open>secure/aesgcm.go\<close>),
    \<^verbatim>\<open>Fcm\<close> (\<^verbatim>\<open>fcm/\<close>), \<^verbatim>\<open>LogFormat\<close> (\<^verbatim>\<open>logger/\<close>), \<^verbatim>\<open>ZerologPkg\<close> (\<^verbatim>\<open>logger/zerolog/\<close>), \<^verbatim>\<open>Telemetry\<close> (\<^verbatim>\<open>telemetry/\<close>), \<^verbatim>\<open>Temporal\<close> (\<^verbatim>\<open>temporal/\<close>), \<^verbatim>\<open>Progress\<close> and
    \<^verbatim>\<open>CliPrint\<close> (\<^verbatim>\<open>cli/\<close>).
  \<^item> This theory: what spans the components, a route protected by a role behind each of the two verifiers, a
    session manager that revalidates through an OIDC verifier, and the exact condition under which a request gets through the whole chain to its handler.

  \<^bold>\<open>Correspondence.\<close> A struct is a record, its fields with a prefix that names the struct; an operation
  with a pointer receiver returns the new record; an error return is the left side of a sum; a nil
  pointer is \<open>None\<close>; a panic or nil dereference the source could run into is a \<open>None\<close> or a \<open>Panics\<close> result,
  so that its absence is proved; a pointer that is shared is an address of a store. What the source calls outside the
  repository (the issuer's HTTP answers, x/oauth2, go-oidc, gorm, viper, excelize, zerolog, OpenTelemetry, gin's transport,
  the rate limiter, JSON, AES, the clock and the random source) is a parameter: a function argument or a field of an
  environment record over an abstract world \<open>'w\<close> that each call may change, or a recorded sequence of calls; the laws a
  theorem needs of it are its hypotheses. Concurrency is a step relation: \<open>sf_step\<close> interleaves the callers of the
  introspector with its in-flight request, receivers, cancellations and evictions; \<open>vc_step\<close> the checks, stores and
  evictions of a verifier; \<open>sm_step\<close> the operations of a session manager, \<open>sv_step\<close> the phases of the requests on it with logins,
  logouts and cleanups (\<open>sv_do\<close> runs a schedule of them), \<open>app_step\<close> the handlers over it; \<open>cl_step\<close> reloads, subscriptions, timers and the
  end of a configuration loader; \<open>pool_step\<close> the workers and the render loop of the progress display. The probes of a
  health check finish in any order.

  \<^bold>\<open>Interfaces.\<close> \<open>claims_cache\<close> (the \<^verbatim>\<open>Cache\<close> interface) is interpreted on \<^verbatim>\<open>MemoryCache\<close> and extended in \<^verbatim>\<open>Oidc\<close> by what
  \<^verbatim>\<open>Verify\<close> makes of it; \<open>session_contract\<close> (the \<^verbatim>\<open>SessionStore\<close> interface) is interpreted on the repository's
  in-memory store, and the properties of \<^verbatim>\<open>Resolve\<close> hold over every store that keeps it; \<open>token_contract\<close> (the
  \<^verbatim>\<open>TokenVerifier\<close> interface) carries what a route behind the middlewares relies on, follows from \<open>session_contract\<close> for a
  session manager through \<open>session_route\<close>, and is interpreted on an \<^verbatim>\<open>OIDC\<close> with a memory cache. \<open>reliable_store\<close> extends
  \<open>session_contract\<close> by the promise that no operation fails, and makes \<^verbatim>\<open>Resolve\<close> an operation of the session table.
  \<open>preserved\<close> (theory \<^verbatim>\<open>Steps\<close>) carries an invariant from the steps of each relation to its reachable states and runs;
  \<open>ranked\<close> extends it by an action that brings its goal nearer and is interpreted on the requests of \<open>sv_step\<close>; \<open>helpful\<close>, the case of
  one step, on the end of an introspection request, on the receive of a waiting caller and on the end of the render loop. How gin runs a chain of handlers is the hypothesis \<open>gin_chain\<close>, its documented behaviour; what a browser does with
  cookies is \<open>jar_after\<close> and \<open>browser_sends\<close>.

  \<^bold>\<open>What is shown.\<close> Safety of the authentication chain: which tokens and sessions are accepted, for how
  long after a revocation, after a timeout or an expiry, that nobody gets in without a login, that a login opens its routes and a
  logout closes them for good, that concurrent requests present each refresh token once and in order, what the
  login callback accepts, that nobody forges a login state. Its completeness: exactly when a token is verified, a session
  resolved and a request let through the chain, and with which status it is refused. Liveness: a request on a session returns, a caller that waits for a
  shared introspection gets back, and \<^verbatim>\<open>Stop\<close> of the display returns exactly when its loop was started; all assume only that the
  action waited for is not offered forever without being taken. Bounds,
  results and termination of the retries. Literal matching and parameter binding of filters. Round trips
  of the login state, the logout query, CSV files and the encryptor. Exclusive use of the display slots. That a loader
  never sends on a closed channel, never publishes a configuration its validator rejects on reload, and reloads once per
  burst of file events. That a health report refines the registry of databases. The readiness of a constructed server,
  the release of what a failed start had opened, the isolation of activity options, the agreement of the two logger packages. Error paths are part of each
  statement. Some lemmas show behaviour a caller may not expect: a refresh that moves the ceiling of a
  session, a refused refresh that deletes what another request renewed, a comparison that panics, a \<^verbatim>\<open>Stop\<close> that blocks and two that collide, announcements that overtake each other, registration that is not atomic, a rejected configuration
  that stays current, options that write into a shared policy.

  \<^bold>\<open>Bounds.\<close> No definition uses fuel. Loops are structural recursion or \<open>function\<close> with a measure: the
  back-off counts attempts up, the retry loops count to their limit, trimming, splitting and matching shorten
  their string. Loops that run until their channel is closed are functions of the list of their ticks or
  steps of a relation.

  \<^bold>\<open>Not modelled.\<close> Accessors that hand out a field of a library type
  (\<^verbatim>\<open>GetViper\<close>, \<^verbatim>\<open>Router\<close>, \<^verbatim>\<open>Server\<close>), calls that only pass on to one
  (\<^verbatim>\<open>Print\<close>, \<^verbatim>\<open>Printf\<close> and \<^verbatim>\<open>Level\<close> of the loggers), the constants of the filter operators and of header names
  that no function of the repository reads, interfaces whose methods are parameters, and the package comments have no definition.
\<close>

section \<open>A protected route\<close>

text \<open>
  A request passes the authorization middleware over a session manager and then the role check only
  if it carries, on exactly one channel, the id of a session that is stored, has not reached its ceiling,
  and whose claims hold the role for the manager's client. This holds over every session store that
  keeps its contract.
\<close>

lemma protected_route:
  assumes "session_contract (sm_store m) lookup invar" and "invar st"
    and "AuthorizationWithOptions (session_verifier uuid_ok m) opt rq (st, w) = (effs, st', w')" and "Next \<in> set effs"
    and "RequireRole (session_verifier uuid_ok m) role extras (rq\<lparr>rq_Keys := keys_after effs (rq_Keys rq)\<rparr>) = Some effs2"
    and "Next \<in> set effs2"
  shows "\<exists>k s. extractToken rq (sessionCookieName opt) = Inr k \<and> uuid_ok k \<and> lookup st k = Some s \<and>
    sm_now m w < se_ExpiresAt s \<and> (\<exists>rs. client_roles (se_Claims s) (sm_clientID m) = Some rs \<and> role \<in> set rs)"
proof -
  have route: "session_route m lookup invar" using assms(1) by (simp add: session_route_def)
  obtain k cl where "extractToken rq (sessionCookieName opt) = Inr k" "live_session uuid_ok m lookup k cl (st, w)"
    "sm_HasRole m cl role"
    by (rule session_route.route_live [OF route assms(2-6)])
  then show ?thesis
    by (auto simp: live_session_def isExpired_def sm_HasRole_def split: option.splits if_splits)
qed

definition demo_request :: request where
  "demo_request = \<lparr>rq_Method = ''GET'', rq_Header = (\<lambda>h. []), rq_Cookie = (\<lambda>c. Some ''u''), rq_Query = (\<lambda>q. []),
     rq_ClientIP = [], rq_Keys = Map.empty\<rparr>"

definition demo_admin :: claims where
  "demo_admin = no_claims\<lparr>cl_ResourceAccess := [''app'' \<mapsto> [''roles'' \<mapsto> [''admin'']]]\<rparr>"

definition demo_admin_store :: fake_store where
  "demo_admin_store = \<lparr>fs_data = [(''u'', demo_session\<lparr>se_Claims := demo_admin\<rparr>)], fs_withLockCall = 0\<rparr>"

theorem protected_route_witness:
  "\<exists>k (s :: session). extractToken demo_request (sessionCookieName []) = Inr k \<and>
     map_of (fs_data demo_admin_store) k = Some s \<and> Minute < se_ExpiresAt s \<and>
     (\<exists>rs. client_roles (se_Claims s) ''app'' = Some rs \<and> ''admin'' \<in> set rs)"
proof -
  let ?v = "session_verifier (\<lambda>k. True) demo_manager"
  have tok: "extractToken demo_request (sessionCookieName []) = Inr ''u''"
    by (simp add: extractToken_def readSessionCookie_def extractBearerToken_def demo_request_def)
  have "Resolve (\<lambda>k. True) demo_manager demo_admin_store ''u'' Minute =
      (Inr (Some (demo_session\<lparr>se_Claims := demo_admin, se_LastSeenAt := Minute\<rparr>)),
       snd (fs_Touch demo_admin_store ''u'' Minute), Minute)"
    by (simp add: Resolve_def fs_Get_def demo_admin_store_def demo_session_def isExpired_def no_tokens_def clock_simps)
  then have a: "AuthorizationWithOptions ?v [] demo_request (demo_admin_store, Minute) =
      ([SetKey claimsKey (VClaims demo_admin), Next], snd (fs_Touch demo_admin_store ''u'' Minute), Minute)"
    by (simp add: AuthorizationWithOptions_def tok session_verifier_def sm_Verify_def)
  have r: "RequireRole ?v ''admin'' [] (demo_request\<lparr>rq_Keys :=
      keys_after [SetKey claimsKey (VClaims demo_admin), Next] (rq_Keys demo_request)\<rparr>) = Some [Next]"
    by (simp add: RequireRole_def ClaimsFromContext_def keys_after_def session_verifier_def sm_HasRole_def client_roles_def
        demo_admin_def no_claims_def demo_manager_def finish_role_def applyRoleContexts_def)
  have "wf_map (fs_data demo_admin_store)" by (simp add: demo_admin_store_def wf_map_def)
  from protected_route [OF demo_contract this a _ r] have "\<exists>k s. extractToken demo_request (sessionCookieName []) = Inr k \<and>
      True \<and> map_of (fs_data demo_admin_store) k = Some s \<and> Minute < se_ExpiresAt s \<and>
      (\<exists>rs. client_roles (se_Claims s) ''app'' = Some rs \<and> ''admin'' \<in> set rs)"
    by (simp add: demo_manager_def)
  then show ?thesis by blast
qed


text \<open>A verifier whose local check gives every JWT the claims of an administrator.\<close>

definition demo_oidc_env :: "(memory_cache, instant) oidc_env" where
  "demo_oidc_env = demo_env\<lparr>ve_local := (\<lambda>v token w. (Inr (Inr demo_admin, 0), w))\<rparr>"



text \<open>The administrator's verifier behind the in-memory store; the world is the verifier and the clock.\<close>

definition demo_checked_manager :: "(fake_store, memory_cache oidc \<times> instant) session_manager" where
  "demo_checked_manager = \<lparr>sm_store = fake_ops, sm_refresh = (\<lambda>rt w. (Inl (Foreign 0), w)),
     sm_verifier = Some (tv_Verify (oidc_verifier demo_oidc_env demo_oidc)), sm_clientID = ''app'', sm_idleTimeout = 0,
     sm_absoluteTimeout = 0, sm_now = snd\<rparr>"

definition demo_jwt_session :: session where
  "demo_jwt_session = demo_session\<lparr>se_Tokens := (se_Tokens demo_session)\<lparr>ts_AccessToken := ''a.b.c''\<rparr>\<rparr>"

definition demo_jwt_store :: fake_store where
  "demo_jwt_store = \<lparr>fs_data = [(''u'', demo_jwt_session)], fs_withLockCall = 0\<rparr>"


text \<open>
  C1: the whole chain in front of a handler, with a session manager as the verifier and over a store that does not
  fail: a request gets to the handler exactly when it is not a preflight, its client has a token left in the
  bucket, it echoes its CSRF cookie or its method is safe, its id names a session that can be kept alive now,
  by revalidation or by a refresh, that session's claims hold the role for the manager's client, and the values
  of the caller's roles do not contradict each other.
\<close>

theorem session_route_exact:
  assumes "gin_chain serve" and "reliable_store (sm_store m) lookup invar" and "invar st"
  shows "(\<exists>rq1 lw1. reaches serve (guards policy ops provided clock copts (session_verifier uuid_ok m) cookie role extras)
       rq (l, st, w) rq1 lw1) \<longleftrightarrow>
    rq_Method rq \<noteq> ''OPTIONS'' \<and>
    fst (rl_allow ops (rq_ClientIP rq) (clock (st, w))
      (case provided of None \<Rightarrow> l | Some opts \<Rightarrow> retune ops opts (clock (st, w)) l)) \<and>
    csrf_echoed copts rq \<and>
    (\<exists>k s s' w' rs staged. extractToken rq (sessionCookieName cookie) = Inr k \<and> uuid_ok k \<and> lookup st k = Some s \<and>
      kept_alive m s w = (Some s', w') \<and> client_roles (se_Claims s) (sm_clientID m) = Some rs \<and> role \<in> set rs \<and>
      stage_extras (sm_HasRole m (se_Claims s)) extras [] = Some (Inr staged))"
  by (rule session_chain_iff [OF assms])

theorem session_route_exact_witness:
  "\<exists>rq1 lw1. reaches serve_chain (guards None demo_bucket None snd \<lparr>co_CookieName = [], co_HeaderName = []\<rparr>
       (session_verifier (\<lambda>k. True) demo_manager) [] ''admin'' [])
     demo_request (newIPRateLimiter 60 1 0, demo_admin_store, Minute) rq1 lw1"
proof -
  let ?s = "demo_session\<lparr>se_Claims := demo_admin\<rparr>"
  have "extractToken demo_request (sessionCookieName []) = Inr ''u''"
    by (simp add: extractToken_def readSessionCookie_def extractBearerToken_def demo_request_def)
  moreover have "map_of (fs_data demo_admin_store) ''u'' = Some ?s" by (simp add: demo_admin_store_def)
  moreover have "kept_alive demo_manager ?s Minute = (Some (?s\<lparr>se_LastSeenAt := Minute\<rparr>), Minute)"
    by (simp add: kept_alive_def revalidates_def isExpired_def demo_session_def no_tokens_def demo_manager_def clock_simps)
  moreover have "client_roles (se_Claims ?s) (sm_clientID demo_manager) = Some [''admin'']"
    by (simp add: client_roles_def demo_admin_def no_claims_def demo_manager_def)
  ultimately have token: "\<exists>k s s' w' rs staged. extractToken demo_request (sessionCookieName []) = Inr k \<and> True \<and>
      map_of (fs_data demo_admin_store) k = Some s \<and> kept_alive demo_manager s Minute = (Some s', w') \<and>
      client_roles (se_Claims s) (sm_clientID demo_manager) = Some rs \<and> ''admin'' \<in> set rs \<and>
      stage_extras (sm_HasRole demo_manager (se_Claims s)) [] [] = Some (Inr staged)"
    by (intro exI [of _ "''u''"] exI [of _ ?s] exI [of _ "?s\<lparr>se_LastSeenAt := Minute\<rparr>"] exI [of _ Minute]
        exI [of _ "[''admin'']"] exI [of _ "[]"]) simp
  have "wf_map (fs_data demo_admin_store)" by (simp add: demo_admin_store_def wf_map_def)
  moreover have "fst (rl_allow demo_bucket (rq_ClientIP demo_request) (snd (demo_admin_store, Minute)) (newIPRateLimiter 60 1 0))"
    by (simp add: rl_allow_def evictIfDue_def newIPRateLimiter_def demo_bucket_def rateLimitIdleTimeout_def clock_simps)
  moreover have "csrf_echoed \<lparr>co_CookieName = [], co_HeaderName = []\<rparr> demo_request" "rq_Method demo_request \<noteq> ''OPTIONS''"
    by (simp_all add: csrf_echoed_def safeMethods_def demo_request_def)
  ultimately show ?thesis
    using session_route_exact [OF serve_chain_gin demo_reliable, of demo_admin_store None demo_bucket None snd
        "\<lparr>co_CookieName = [], co_HeaderName = []\<rparr>" "\<lambda>k. True" "[]" "''admin''" "[]" demo_request "newIPRateLimiter 60 1 0" Minute] token
    by simp
qed

end
